theory Spec2Isabelle
  imports Complex_Main "HOL-Library.Sublist" "HOL-Library.Multiset"
begin

section \<open>JavaScript strings\<close>

text \<open>
  A text is a list of characters. A \<^typ>\<open>char\<close> stands for one UTF-16 code unit below 256
  (ASCII and Latin-1), which is where every pattern, vocabulary entry and stop word of
  \<^verbatim>\<open>server.js\<close> lives; \<open>length\<close> is the \<^verbatim>\<open>.length\<close> of the JavaScript string.
\<close>

definition code :: "char \<Rightarrow> nat" where
  "code c = of_char c"

definition in_range :: "char \<Rightarrow> char \<Rightarrow> char \<Rightarrow> bool" where
  "in_range lo hi c = (code lo \<le> code c \<and> code c \<le> code hi)"

text \<open>
  \<^verbatim>\<open>String.prototype.toLowerCase\<close> on one code unit: \<open>A-Z\<close> and the Latin-1 capitals
  (0xC0-0xDE without the multiplication sign 0xD7) move up by 32.
\<close>

definition lower_char :: "char \<Rightarrow> char" where
  "lower_char c =
     (if in_range CHR ''A'' CHR ''Z'' c then char_of (code c + 32)
      else if 192 \<le> code c \<and> code c \<le> 222 \<and> code c \<noteq> 215 then char_of (code c + 32)
      else c)"

definition toLowerCase :: "string \<Rightarrow> string" where
  "toLowerCase t = map lower_char t"

text \<open>\<^verbatim>\<open>t.startsWith(p)\<close> and \<^verbatim>\<open>t.includes(s)\<close>.\<close>

definition startsWith :: "string \<Rightarrow> string \<Rightarrow> bool" where
  "startsWith t p = (take (length p) t = p)"

fun str_includes :: "string \<Rightarrow> string \<Rightarrow> bool" where
  "str_includes [] s = (s = [])"
| "str_includes (c # cs) s = (startsWith (c # cs) s \<or> str_includes cs s)"

text \<open>
  \<^verbatim>\<open>[...new Set(xs)]\<close>: a Set keeps its elements in insertion order, and adding an
  element it already holds changes nothing.
\<close>

definition set_add :: "'a \<Rightarrow> 'a list \<Rightarrow> 'a list" where
  "set_add x acc = (if x \<in> set acc then acc else acc @ [x])"

definition new_Set :: "'a list \<Rightarrow> 'a list" where
  "new_Set xs = fold set_add xs []"

section \<open>Skill extraction\<close>

definition commonSkills :: "string list" where
  "commonSkills =
    [''python'', ''java'', ''javascript'', ''typescript'', ''c++'', ''c#'', ''ruby'', ''php'',
     ''swift'', ''kotlin'',
     ''react'', ''angular'', ''vue'', ''svelte'', ''nextjs'', ''gatsby'', ''redux'',
     ''nodejs'', ''node.js'', ''express'', ''nestjs'', ''django'', ''flask'', ''spring'',
     ''laravel'',
     ''mongodb'', ''mysql'', ''postgresql'', ''redis'', ''dynamodb'', ''cassandra'', ''sql'',
     ''nosql'',
     ''aws'', ''azure'', ''gcp'', ''google cloud'', ''heroku'', ''digitalocean'',
     ''docker'', ''kubernetes'', ''jenkins'', ''gitlab ci'', ''github actions'', ''terraform'',
     ''ansible'',
     ''git'', ''github'', ''bitbucket'', ''jira'', ''confluence'',
     ''html'', ''css'', ''sass'', ''less'', ''bootstrap'', ''tailwind'', ''material-ui'',
     ''rest api'', ''graphql'', ''grpc'', ''soap'', ''websocket'',
     ''microservices'', ''serverless'', ''devops'', ''ci/cd'', ''agile'', ''scrum'', ''kanban'',
     ''machine learning'', ''deep learning'', ''ai'', ''data science'', ''tensorflow'',
     ''pytorch'', ''keras'',
     ''pandas'', ''numpy'', ''scikit-learn'', ''opencv'',
     ''testing'', ''jest'', ''mocha'', ''pytest'', ''junit'', ''selenium'', ''cypress'',
     ''linux'', ''unix'', ''bash'', ''shell scripting'', ''windows'', ''macos'']"

definition foundSkills :: "string \<Rightarrow> string list" where
  "foundSkills text =
     (let textLower = toLowerCase text
      in filter (\<lambda>skill. str_includes textLower skill) commonSkills)"

definition extractSkills :: "string \<Rightarrow> string list" where
  "extractSkills text = take 12 (new_Set (foundSkills text))"

text \<open>
  \<^verbatim>\<open>String.prototype.trim\<close> and the class \<^verbatim>\<open>\s\<close>: white space and line terminators,
  which below 256 are the code units 9-13, 32 and 160.
\<close>

definition is_space :: "char \<Rightarrow> bool" where
  "is_space c = ((9 \<le> code c \<and> code c \<le> 13) \<or> code c = 32 \<or> code c = 160)"

definition trim :: "string \<Rightarrow> string" where
  "trim t = rev (dropWhile is_space (rev (dropWhile is_space t)))"

text \<open>\<^verbatim>\<open>String(n)\<close> for a non-negative integer, as template literals and \<open>+\<close> print it.\<close>

definition digit_char :: "nat \<Rightarrow> char" where
  "digit_char d = char_of (48 + d)"

fun string_of_nat :: "nat \<Rightarrow> string" where
  "string_of_nat n =
     (if n < 10 then [digit_char n] else string_of_nat (n div 10) @ [digit_char (n mod 10)])"

text \<open>
  JavaScript numbers that can be \<^verbatim>\<open>NaN\<close>, and \<^verbatim>\<open>Array.prototype.sort(cmp)\<close>. The sort
  is stable, and a comparator result that is \<^verbatim>\<open>NaN\<close> counts as 0; \<open>x\<close> moves behind
  \<open>y\<close> only when \<open>cmp x y > 0\<close>. It is written as the insertion sort that every
  stable sort agrees with when the comparator is a consistent ordering. A comparator
  that is \<^verbatim>\<open>NaN\<close> on some pairs only is not one (the count of the word \<^verbatim>\<open>constructor\<close> is a
  string), and the order of such a list is the engine's choice: the elements and the
  length of the result are those of the code, the order may differ.
\<close>

datatype jsnum = Num real | NaN

fun positive :: "jsnum \<Rightarrow> bool" where
  "positive (Num r) = (0 < r)"
| "positive NaN = False"

fun insert_by :: "('a \<Rightarrow> 'a \<Rightarrow> jsnum) \<Rightarrow> 'a \<Rightarrow> 'a list \<Rightarrow> 'a list" where
  "insert_by cmp x [] = [x]"
| "insert_by cmp x (y # ys) =
     (if positive (cmp x y) then y # insert_by cmp x ys else x # y # ys)"

definition js_sort :: "('a \<Rightarrow> 'a \<Rightarrow> jsnum) \<Rightarrow> 'a list \<Rightarrow> 'a list" where
  "js_sort cmp xs = foldr (insert_by cmp) xs []"

section \<open>Regular expressions\<close>

text \<open>
  The regular expressions of \<^verbatim>\<open>server.js\<close> use character classes, sequence,
  alternation, the greedy quantifiers \<open>?\<close>, \<open>+\<close>, \<open>{m}\<close>, \<open>{m,}\<close>, \<open>{m,n}\<close> and the
  assertion \<^verbatim>\<open>\b\<close>. \<open>rmatch r s i\<close> lists the positions where a match of \<open>r\<close> that
  starts at position \<open>i\<close> of \<open>s\<close> can end, in the order in which the backtracking
  matcher tries them (a greedy quantifier tries the longer match first).
\<close>

datatype regex =
    Sym "char \<Rightarrow> bool"
  | Eps
  | WordB
  | Seq regex regex
  | Alt regex regex
  | Opt regex
  | Star regex

definition is_digit :: "char \<Rightarrow> bool" where
  "is_digit c = in_range CHR ''0'' CHR ''9'' c"

definition is_upper :: "char \<Rightarrow> bool" where
  "is_upper c = in_range CHR ''A'' CHR ''Z'' c"

definition is_lower :: "char \<Rightarrow> bool" where
  "is_lower c = in_range CHR ''a'' CHR ''z'' c"

definition is_word_char :: "char \<Rightarrow> bool" where
  "is_word_char c = (is_upper c \<or> is_lower c \<or> is_digit c \<or> c = CHR ''_'')"

definition word_at :: "string \<Rightarrow> nat \<Rightarrow> bool" where
  "word_at s i = (i < length s \<and> is_word_char (s ! i))"

definition word_boundary :: "string \<Rightarrow> nat \<Rightarrow> bool" where
  "word_boundary s i = ((0 < i \<and> word_at s (i - 1)) \<noteq> word_at s i)"

fun star :: "(nat \<Rightarrow> nat list) \<Rightarrow> nat \<Rightarrow> nat \<Rightarrow> nat list" where
  "star f 0 i = [i]"
| "star f (Suc n) i = concat (map (star f n) (filter (\<lambda>j. i < j) (f i))) @ [i]"

primrec rmatch :: "regex \<Rightarrow> string \<Rightarrow> nat \<Rightarrow> nat list" where
  "rmatch (Sym p) s i = (if i < length s \<and> p (s ! i) then [Suc i] else [])"
| "rmatch Eps s i = [i]"
| "rmatch WordB s i = (if word_boundary s i then [i] else [])"
| "rmatch (Seq a b) s i = concat (map (rmatch b s) (rmatch a s i))"
| "rmatch (Alt a b) s i = rmatch a s i @ rmatch b s i"
| "rmatch (Opt a) s i = rmatch a s i @ [i]"
| "rmatch (Star a) s i = star (rmatch a s) (length s) i"

text \<open>\<^verbatim>\<open>re.test(s)\<close>: some position of \<open>s\<close> starts a match.\<close>

definition regex_test :: "regex \<Rightarrow> string \<Rightarrow> bool" where
  "regex_test r s = list_ex (\<lambda>i. rmatch r s i \<noteq> []) [0..<Suc (length s)]"

text \<open>
  \<^verbatim>\<open>s.match(re)\<close> with the flag \<open>g\<close>, of which the callers read element 0 only: the match
  at the leftmost position that starts one, up to the end the matcher finds first.
\<close>

definition first_match :: "regex \<Rightarrow> string \<Rightarrow> string option" where
  "first_match r s =
     (case filter (\<lambda>i. rmatch r s i \<noteq> []) [0..<Suc (length s)] of
        [] \<Rightarrow> None
      | i # _ \<Rightarrow> Some (take (hd (rmatch r s i) - i) (drop i s)))"

text \<open>Building blocks: \<open>{n}\<close>, \<open>+\<close>, \<open>{m,}\<close>, \<open>{m,n}\<close>, a literal and an alternation.\<close>

primrec rep_exactly :: "nat \<Rightarrow> regex \<Rightarrow> regex" where
  "rep_exactly 0 r = Eps"
| "rep_exactly (Suc n) r = Seq r (rep_exactly n r)"

primrec rep_upto :: "nat \<Rightarrow> regex \<Rightarrow> regex" where
  "rep_upto 0 r = Eps"
| "rep_upto (Suc n) r = Opt (Seq r (rep_upto n r))"

definition one_or_more :: "regex \<Rightarrow> regex" where
  "one_or_more r = Seq r (Star r)"

definition rep_at_least :: "nat \<Rightarrow> regex \<Rightarrow> regex" where
  "rep_at_least m r = Seq (rep_exactly m r) (Star r)"

definition rep_between :: "nat \<Rightarrow> nat \<Rightarrow> regex \<Rightarrow> regex" where
  "rep_between m n r = Seq (rep_exactly m r) (rep_upto (n - m) r)"

definition seqs :: "regex list \<Rightarrow> regex" where
  "seqs rs = foldr Seq rs Eps"

fun alts :: "regex list \<Rightarrow> regex" where
  "alts [] = Seq (Sym (\<lambda>c. False)) Eps"
| "alts [r] = r"
| "alts (r # rs) = Alt r (alts rs)"

definition lit_chr :: "char \<Rightarrow> regex" where
  "lit_chr a = Sym (\<lambda>c. c = a)"

definition one_of :: "string \<Rightarrow> char \<Rightarrow> bool" where
  "one_of cs c = (c \<in> set cs)"

text \<open>
  The flag \<open>i\<close>: two characters match when their canonical (upper case) forms agree.
  Every pattern here is ASCII, and no character outside ASCII has an ASCII canonical form,
  so a class matches \<open>c\<close> when it holds \<open>c\<close> or the ASCII letter of the other case.
\<close>

definition swap_case :: "char \<Rightarrow> char" where
  "swap_case c =
     (if is_upper c then char_of (code c + 32)
      else if is_lower c then char_of (code c - 32) else c)"

definition ignore_case :: "(char \<Rightarrow> bool) \<Rightarrow> char \<Rightarrow> bool" where
  "ignore_case p c = (p c \<or> p (swap_case c))"

text \<open>\<^verbatim>\<open>new RegExp(w)\<close> and \<^verbatim>\<open>new RegExp(w, 'i')\<close> for a word \<open>w\<close> of letters.\<close>

definition literal :: "string \<Rightarrow> regex" where
  "literal w = seqs (map lit_chr w)"

definition literal_i :: "string \<Rightarrow> regex" where
  "literal_i w = seqs (map (\<lambda>a. Sym (ignore_case (\<lambda>c. c = a))) w)"

section \<open>Contact information\<close>

text \<open>
  \<^verbatim>\<open>/\b[A-Za-z0-9._%+-]+@[A-Za-z0-9.-]+\.[A-Z|a-z]{2,}\b/\<close>, with the classes passed
  through \<open>fl\<close>: \<open>id\<close> for no flag, \<open>ignore_case\<close> for the flag \<open>i\<close>.
\<close>

definition email_local :: "char \<Rightarrow> bool" where
  "email_local c = (is_upper c \<or> is_lower c \<or> is_digit c \<or> one_of ''._%+-'' c)"

definition email_domain :: "char \<Rightarrow> bool" where
  "email_domain c = (is_upper c \<or> is_lower c \<or> is_digit c \<or> one_of ''.-'' c)"

definition email_tld :: "char \<Rightarrow> bool" where
  "email_tld c = (is_upper c \<or> c = CHR ''|'' \<or> is_lower c)"

definition emailRegex :: "((char \<Rightarrow> bool) \<Rightarrow> char \<Rightarrow> bool) \<Rightarrow> regex" where
  "emailRegex fl =
     seqs [WordB, one_or_more (Sym (fl email_local)), Sym (fl (\<lambda>c. c = CHR ''@'')),
           one_or_more (Sym (fl email_domain)), Sym (fl (\<lambda>c. c = CHR ''.'')),
           rep_at_least 2 (Sym (fl email_tld)), WordB]"

text \<open>\<^verbatim>\<open>/\b(?:\+?\d{1,3}[-.\s]?)?\(?\d{3}\)?[-.\s]?\d{3}[-.\s]?\d{4}\b/\<close>\<close>

definition phone_sep :: "char \<Rightarrow> bool" where
  "phone_sep c = (one_of ''-.'' c \<or> is_space c)"

definition phoneRegex :: regex where
  "phoneRegex =
     seqs [WordB,
           Opt (seqs [Opt (lit_chr CHR ''+''), rep_between 1 3 (Sym is_digit), Opt (Sym phone_sep)]),
           Opt (lit_chr CHR ''(''), rep_exactly 3 (Sym is_digit), Opt (lit_chr CHR '')''),
           Opt (Sym phone_sep), rep_exactly 3 (Sym is_digit),
           Opt (Sym phone_sep), rep_exactly 4 (Sym is_digit), WordB]"

record contact_info =
  email :: string
  phone :: string

definition extractContactInfo :: "string \<Rightarrow> contact_info" where
  "extractContactInfo text =
     \<lparr> email = (case first_match (emailRegex id) text of Some e \<Rightarrow> e | None \<Rightarrow> ''N/A''),
       phone = (case first_match phoneRegex text of Some p \<Rightarrow> p | None \<Rightarrow> ''N/A'') \<rparr>"

section \<open>HTTP results and stored data\<close>

text \<open>
  A route handler answers either with an error (\<^verbatim>\<open>res.status(n).json({ error: msg })\<close>)
  or with its payload. Each error response of the routes modelled here is a constructor;
  \<open>InsufficientText n\<close> carries the character count its message prints and
  \<open>ExtractionFailed m\<close> the message of the extraction error it repeats.
\<close>

datatype api_error =
    NoFileUploaded
  | OcrExtractionFailed
  | ExtractionFailed string
  | InsufficientText nat
  | UploadFailed string
  | ResumeNotFound
  | CannotAnalyze
  | JobDescriptionRequired
  | RankFailed

fun status :: "api_error \<Rightarrow> nat" where
  "status NoFileUploaded = 400"
| "status OcrExtractionFailed = 400"
| "status (ExtractionFailed m) = 400"
| "status (InsufficientText n) = 400"
| "status (UploadFailed m) = 500"
| "status ResumeNotFound = 404"
| "status CannotAnalyze = 400"
| "status JobDescriptionRequired = 400"
| "status RankFailed = 500"

datatype js_error = Error string

type_synonym buffer = "nat list"

record user =
  user_id :: nat
  username :: string
  user_email :: string

record resume =
  resume_id :: nat
  userId :: nat
  filename :: string
  pdfData :: buffer
  extractedText :: string
  jobTitle :: string
  uploadedAt :: nat

section \<open>Resume analysis\<close>

text \<open>The presence tests of the analyze route, in the order of the source.\<close>

definition hasEmail :: "string \<Rightarrow> bool" where
  "hasEmail text = regex_test (emailRegex ignore_case) text"

definition hasPhone :: "string \<Rightarrow> bool" where
  "hasPhone text = regex_test phoneRegex text"

definition hasSummary :: "string \<Rightarrow> bool" where
  "hasSummary text =
     regex_test (alts (map literal_i [''summary'', ''objective'', ''about'', ''profile''])) text"

definition hasExperience :: "string \<Rightarrow> bool" where
  "hasExperience text =
     regex_test (alts (map literal_i [''experience'', ''employment'', ''work history''])) text"

definition hasEducation :: "string \<Rightarrow> bool" where
  "hasEducation text =
     regex_test (alts (map literal_i [''education'', ''degree'', ''university'', ''college''])) text"

definition hasSkills :: "string \<Rightarrow> bool" where
  "hasSkills text =
     regex_test (alts (map literal_i [''skills'', ''technical'', ''technologies'', ''tools''])) text"

definition actionVerbs :: "string list" where
  "actionVerbs =
     [''developed'', ''created'', ''managed'', ''led'', ''implemented'', ''designed'', ''built'',
      ''improved'', ''increased'', ''reduced'']"

definition actionVerbCount :: "string \<Rightarrow> nat" where
  "actionVerbCount text = length (filter (\<lambda>verb. regex_test (literal_i verb) text) actionVerbs)"

text \<open>\<^verbatim>\<open>/\d+%|\d+\+|\$\d+|[0-9]+/\<close>\<close>

definition hasNumbers :: "string \<Rightarrow> bool" where
  "hasNumbers text =
     regex_test
       (alts [Seq (one_or_more (Sym is_digit)) (lit_chr CHR ''%''),
              Seq (one_or_more (Sym is_digit)) (lit_chr CHR ''+''),
              Seq (lit_chr CHR ''$'') (one_or_more (Sym is_digit)),
              one_or_more (Sym (in_range CHR ''0'' CHR ''9''))])
       text"

text \<open>
  The score is the variable \<^verbatim>\<open>atsScore\<close> of the route, which starts at 50 and is updated
  statement by statement; \<open>bump b n\<close> is \<^verbatim>\<open>if (b) atsScore += n\<close>.
\<close>

definition bump :: "bool \<Rightarrow> nat \<Rightarrow> nat \<Rightarrow> nat" where
  "bump b n score = (if b then score + n else score)"

definition actionVerbBonus :: "string \<Rightarrow> nat" where
  "actionVerbBonus text = min (actionVerbCount text * 2) 10"

definition atsScore :: "string \<Rightarrow> nat" where
  "atsScore text =
     (let score = 50;
          score = bump (hasEmail text) 5 score;
          score = bump (hasPhone text) 5 score;
          score = bump (hasSummary text) 5 score;
          score = bump (hasExperience text) 10 score;
          score = bump (hasEducation text) 5 score;
          score = bump (hasSkills text) 10 score;
          score = score + actionVerbBonus text;
          score = bump (hasNumbers text) 5 score
      in min score 100)"

text \<open>\<open>push_if b x xs\<close> is \<^verbatim>\<open>if (b) xs.push(x)\<close>.\<close>

definition push_if :: "bool \<Rightarrow> 'a \<Rightarrow> 'a list \<Rightarrow> 'a list" where
  "push_if b x xs = (if b then xs @ [x] else xs)"

definition strengths_of :: "string \<Rightarrow> string list \<Rightarrow> string list" where
  "strengths_of text skills =
     (let strengths = [];
          strengths = push_if (hasEmail text \<and> hasPhone text)
                        ''Complete contact information provided'' strengths;
          strengths = push_if (hasExperience text) ''Work experience section is present'' strengths;
          strengths = push_if (hasSkills text) ''Technical skills are clearly listed'' strengths;
          strengths = push_if (5 \<le> length skills)
                        (''Strong technical profile with '' @ string_of_nat (length skills) @
                         '' identified skills'') strengths;
          strengths = push_if (3 \<le> actionVerbCount text) ''Uses strong action verbs'' strengths;
          strengths = push_if (hasNumbers text) ''Includes quantifiable achievements'' strengths
      in strengths)"

definition improvements_of :: "string \<Rightarrow> string list \<Rightarrow> string list" where
  "improvements_of text skills =
     (let improvements = [];
          improvements = push_if (\<not> hasEmail text \<or> \<not> hasPhone text)
                           ''Add complete contact information'' improvements;
          improvements = push_if (\<not> hasSummary text) ''Include a professional summary'' improvements;
          improvements = push_if (\<not> hasExperience text) ''Add work experience section'' improvements;
          improvements = push_if (\<not> hasEducation text) ''Include education background'' improvements;
          improvements = push_if (\<not> hasSkills text) ''Create a dedicated skills section'' improvements;
          improvements = push_if (length skills < 5) ''List more relevant technical skills'' improvements;
          improvements = push_if (actionVerbCount text < 3) ''Use more action verbs'' improvements;
          improvements = push_if (\<not> hasNumbers text) ''Add quantifiable achievements'' improvements
      in if improvements = []
         then [''Tailor resume for specific job descriptions'', ''Keep skills section updated'']
         else improvements)"

subsection \<open>Keywords\<close>

text \<open>\<^verbatim>\<open>.replace(/[^a-z\s]/g, ' ')\<close> and \<^verbatim>\<open>.split(/\s+/)\<close>.\<close>

definition blank_non_letters :: "string \<Rightarrow> string" where
  "blank_non_letters t = map (\<lambda>c. if is_lower c \<or> is_space c then c else CHR '' '') t"

text \<open>
  \<open>split_ws in_sep cur rest\<close>: \<open>cur\<close> is the piece read so far and \<open>in_sep\<close> says that the
  last character read was white space. A separator at either end of the string leaves an
  empty piece there, as in JavaScript.
\<close>

fun split_ws :: "bool \<Rightarrow> string \<Rightarrow> string \<Rightarrow> string list" where
  "split_ws in_sep cur [] = [cur]"
| "split_ws in_sep cur (c # cs) =
     (if is_space c
      then (if in_sep then split_ws True cur cs else cur # split_ws True [] cs)
      else split_ws False (cur @ [c]) cs)"

definition words_of :: "string \<Rightarrow> string list" where
  "words_of text =
     filter (\<lambda>word. 3 < length word) (split_ws False [] (blank_non_letters (toLowerCase text)))"

text \<open>
  \<^verbatim>\<open>wordFreq\<close> is a plain object used as a dictionary: an association list in insertion
  order, which is the order of \<^verbatim>\<open>Object.entries\<close> since every key is a word of letters.
  A value is a count, or a string: \<^verbatim>\<open>wordFreq['constructor']\<close> is inherited from
  \<^verbatim>\<open>Object.prototype\<close> before the first assignment, a function, and adding 1 to it
  gives a string, to which every later \<^verbatim>\<open>+ 1\<close> appends the character 1. No other
  property of \<^verbatim>\<open>Object.prototype\<close> is a word of lower case letters.
\<close>

datatype jsval = Count nat | Str string

definition inherited :: "string \<Rightarrow> jsval option" where
  "inherited word =
     (if word = ''constructor'' then Some (Str ''function Object() { [native code] }'') else None)"

definition plus_one :: "jsval option \<Rightarrow> jsval" where
  "plus_one v =
     (case v of
        None \<Rightarrow> Count 1
      | Some (Count n) \<Rightarrow> Count (n + 1)
      | Some (Str s) \<Rightarrow> Str (s @ ''1''))"

fun assign :: "string \<Rightarrow> jsval \<Rightarrow> (string \<times> jsval) list \<Rightarrow> (string \<times> jsval) list" where
  "assign k v [] = [(k, v)]"
| "assign k v ((k', v') # kvs) = (if k' = k then (k, v) # kvs else (k', v') # assign k v kvs)"

definition lookup :: "(string \<times> jsval) list \<Rightarrow> string \<Rightarrow> jsval option" where
  "lookup wordFreq word =
     (case map_of wordFreq word of Some v \<Rightarrow> Some v | None \<Rightarrow> inherited word)"

definition count_word :: "string \<Rightarrow> (string \<times> jsval) list \<Rightarrow> (string \<times> jsval) list" where
  "count_word word wordFreq = assign word (plus_one (lookup wordFreq word)) wordFreq"

definition wordFreq_of :: "string list \<Rightarrow> (string \<times> jsval) list" where
  "wordFreq_of words = fold count_word words []"

text \<open>\<^verbatim>\<open>(a, b) => b[1] - a[1]\<close>: a string operand makes the difference \<^verbatim>\<open>NaN\<close>.\<close>

fun by_count_desc :: "string \<times> jsval \<Rightarrow> string \<times> jsval \<Rightarrow> jsnum" where
  "by_count_desc (_, Count a) (_, Count b) = Num (real b - real a)"
| "by_count_desc _ _ = NaN"

definition stopWords :: "string list" where
  "stopWords =
     [''this'', ''that'', ''with'', ''from'', ''have'', ''been'', ''were'', ''they'', ''your'',
      ''will'']"

definition keywords_of :: "string \<Rightarrow> string list" where
  "keywords_of text =
     map fst
       (take 8
         (js_sort by_count_desc
           (filter (\<lambda>(word, _). word \<notin> set stopWords) (wordFreq_of (words_of text)))))"

subsection \<open>The analyze route\<close>

record analysis =
  a_atsScore :: nat
  a_strengths :: "string list"
  a_improvements :: "string list"
  a_skills :: "string list"
  a_keywords :: "string list"

text \<open>
  The handler of \<^verbatim>\<open>GET /api/candidate/analyze/:id\<close> from the point where
  \<^verbatim>\<open>Resume.findOne\<close> has answered: \<open>None\<close> when the candidate has no such resume.
\<close>

definition analyze :: "resume option \<Rightarrow> api_error + analysis" where
  "analyze found =
     (case found of
        None \<Rightarrow> Inl ResumeNotFound
      | Some r \<Rightarrow>
          (let text = extractedText r
           in if text = [] \<or> length text < 100
              then Inl CannotAnalyze
              else
                (let skills = extractSkills text
                 in Inr \<lparr> a_atsScore = atsScore text,
                          a_strengths = take 5 (strengths_of text skills),
                          a_improvements = take 5 (improvements_of text skills),
                          a_skills = skills,
                          a_keywords = keywords_of text \<rparr>)))"

section \<open>Text extraction\<close>

text \<open>
  The three extraction packages (\<^verbatim>\<open>pdf-parse\<close>, \<^verbatim>\<open>mammoth\<close>, \<^verbatim>\<open>tesseract.js\<close>) are
  parameters: each takes the file's bytes and returns the text it found or throws.
\<close>

record extractors =
  pdfParse :: "buffer \<Rightarrow> js_error + string"
  mammoth_extractRawText :: "buffer \<Rightarrow> js_error + string"
  Tesseract_recognize :: "buffer \<Rightarrow> js_error + string"

definition extractTextFromWord :: "extractors \<Rightarrow> buffer \<Rightarrow> js_error + string" where
  "extractTextFromWord ex buf =
     (case mammoth_extractRawText ex buf of
        Inr v \<Rightarrow> Inr v
      | Inl _ \<Rightarrow> Inl (Error ''Failed to extract text from Word document''))"

definition extractTextFromImage :: "extractors \<Rightarrow> buffer \<Rightarrow> js_error + string" where
  "extractTextFromImage ex buf =
     (case Tesseract_recognize ex buf of
        Inr t \<Rightarrow> Inr t
      | Inl _ \<Rightarrow> Inl (Error ''Failed to extract text from image using OCR''))"

definition extractTextFromFile ::
  "extractors \<Rightarrow> buffer \<Rightarrow> string \<Rightarrow> string \<Rightarrow> js_error + string" where
  "extractTextFromFile ex buf mimetype fname =
     (if mimetype = ''application/pdf'' then pdfParse ex buf
      else if mimetype = ''application/msword'' \<or>
              mimetype = ''application/vnd.openxmlformats-officedocument.wordprocessingml.document''
      then extractTextFromWord ex buf
      else if startsWith mimetype ''image/'' then extractTextFromImage ex buf
      else Inl (Error ''Unsupported file type''))"

text \<open>The upload middleware's filter, which runs before the handler.\<close>

definition allowedTypes :: "string list" where
  "allowedTypes =
     [''application/pdf'', ''application/msword'',
      ''application/vnd.openxmlformats-officedocument.wordprocessingml.document'',
      ''image/jpeg'', ''image/jpg'', ''image/png'', ''image/tiff'', ''image/bmp'']"

definition fileFilter :: "string \<Rightarrow> bool" where
  "fileFilter mimetype = (mimetype \<in> set allowedTypes)"

section \<open>The upload route\<close>

record upload_file =
  originalname :: string
  mimetype :: string
  file_buffer :: buffer

record upload_ok =
  resumeId :: nat
  up_filename :: string
  fileType :: string
  textLength :: nat

text \<open>
  The handler of \<^verbatim>\<open>POST /api/candidate/upload\<close> after the middleware. The store is the
  list of saved resumes and is returned with the response; \<open>uid\<close> is the session's user,
  \<open>new_id\<close> the identifier the new document gets and \<open>now\<close> its time stamp.
  \<^verbatim>\<open>newResume.save()\<close> is taken to succeed.
\<close>

definition upload ::
  "extractors \<Rightarrow> nat \<Rightarrow> nat \<Rightarrow> nat \<Rightarrow> upload_file option \<Rightarrow> string option \<Rightarrow> resume list
     \<Rightarrow> (api_error + upload_ok) \<times> resume list" where
  "upload ex uid new_id now file title db =
     (case file of
        None \<Rightarrow> (Inl NoFileUploaded, db)
      | Some f \<Rightarrow>
          (case extractTextFromFile ex (file_buffer f) (mimetype f) (originalname f) of
             Inl (Error m) \<Rightarrow>
               (if startsWith (mimetype f) ''image/'' then (Inl OcrExtractionFailed, db)
                else (Inl (ExtractionFailed m), db))
           | Inr text \<Rightarrow>
               (if text = [] \<or> length (trim text) < 50
                then (Inl (InsufficientText (length text)), db)
                else
                  (let newResume =
                         \<lparr> resume_id = new_id, userId = uid, filename = originalname f,
                           pdfData = file_buffer f, extractedText = text,
                           jobTitle = (case title of None \<Rightarrow> ''Not Specified''
                                       | Some t \<Rightarrow> if t = [] then ''Not Specified'' else t),
                           uploadedAt = now \<rparr>
                   in (Inr \<lparr> resumeId = new_id, up_filename = originalname f,
                              fileType = mimetype f, textLength = length text \<rparr>,
                       db @ [newResume])))))"

section \<open>Similarity\<close>

text \<open>
  Numbers are real numbers: the arithmetic of \<^verbatim>\<open>calculateMatchScore\<close> is modelled
  exactly, without the rounding of IEEE doubles. The same code with every operation
  rounded to a double is \<open>calculateMatchScore64\<close>, in the section on double precision.

  \<^verbatim>\<open>natural.TfIdf\<close> is a parameter \<open>lib\<close>: \<open>lib docs d\<close> is what \<^verbatim>\<open>listTerms(d)\<close> returns
  (each item's term and tfidf) after the documents \<open>docs\<close> were added in this order, or
  the exception the package throws.
\<close>

type_synonym tfidf = "string list \<Rightarrow> nat \<Rightarrow> js_error + (string \<times> real) list"

definition vector_of :: "string list \<Rightarrow> (string \<times> real) list \<Rightarrow> real list" where
  "vector_of allTerms terms =
     map (\<lambda>term. case find (\<lambda>t. fst t = term) terms of
                    Some found \<Rightarrow> snd found
                  | None \<Rightarrow> 0) allTerms"

definition dot_reduce :: "real list \<Rightarrow> real list \<Rightarrow> real" where
  "dot_reduce vector1 vector2 =
     fold (\<lambda>(i, val) sum. sum + val * vector2 ! i) (enumerate 0 vector1) 0"

definition square_reduce :: "real list \<Rightarrow> real" where
  "square_reduce v = fold (\<lambda>val sum. sum + val * val) v 0"

text \<open>\<^verbatim>\<open>Math.round\<close> rounds to the nearest integer, a half upwards.\<close>

definition Math_round :: "real \<Rightarrow> real" where
  "Math_round x = real_of_int \<lfloor>x + 1 / 2\<rfloor>"

text \<open>
  The part of \<^verbatim>\<open>calculateMatchScore\<close> that follows the two calls of
  \<^verbatim>\<open>listTerms\<close>, from \<^verbatim>\<open>allTerms\<close> to the rounded percentage.
\<close>

definition score_terms :: "(string \<times> real) list \<Rightarrow> (string \<times> real) list \<Rightarrow> real" where
  "score_terms terms1 terms2 =
     (let allTerms = new_Set (map fst terms1 @ map fst terms2);
          vector1 = vector_of allTerms terms1;
          vector2 = vector_of allTerms terms2;
          dotProduct = dot_reduce vector1 vector2;
          magnitude1 = sqrt (square_reduce vector1);
          magnitude2 = sqrt (square_reduce vector2)
      in if magnitude1 = 0 \<or> magnitude2 = 0 then 0
         else
           (let similarity = dotProduct / (magnitude1 * magnitude2)
            in Math_round (similarity * 100 * 100) / 100))"

text \<open>The body of the \<^verbatim>\<open>try\<close> block: \<open>Inl\<close> is an exception on its way to \<^verbatim>\<open>catch\<close>.\<close>

definition match_try :: "tfidf \<Rightarrow> string \<Rightarrow> string \<Rightarrow> js_error + real" where
  "match_try lib resumeText jobDescription =
     (if resumeText = [] \<or> jobDescription = [] then Inr 0
      else
        (let docs = [toLowerCase resumeText, toLowerCase jobDescription]
         in case lib docs 0 of
              Inl e \<Rightarrow> Inl e
            | Inr terms1 \<Rightarrow>
                (case lib docs 1 of
                   Inl e \<Rightarrow> Inl e
                 | Inr terms2 \<Rightarrow> Inr (score_terms terms1 terms2))))"

definition calculateMatchScore :: "tfidf \<Rightarrow> string \<Rightarrow> string \<Rightarrow> real" where
  "calculateMatchScore lib resumeText jobDescription =
     (case match_try lib resumeText jobDescription of
        Inr score \<Rightarrow> score
      | Inl _ \<Rightarrow> 0)"

section \<open>The ranking route\<close>

record ranked =
  r_id :: nat
  r_filename :: string
  candidateName :: string
  candidateEmail :: string
  r_jobTitle :: string
  matchScore :: real
  r_uploadedAt :: nat
  r_email :: string
  r_phone :: string
  r_skills :: "string list"

text \<open>
  \<^verbatim>\<open>.populate('userId', 'username email')\<close> replaces the reference by the user document,
  or by \<^verbatim>\<open>null\<close> when no user has this identifier; reading \<^verbatim>\<open>r.userId.username\<close> then
  throws.
\<close>

definition populate :: "user list \<Rightarrow> resume \<Rightarrow> user option" where
  "populate users r = find (\<lambda>u. user_id u = userId r) users"

definition rank_entry :: "tfidf \<Rightarrow> string \<Rightarrow> user list \<Rightarrow> resume \<Rightarrow> js_error + ranked" where
  "rank_entry lib jobDescription users r =
     (let score = calculateMatchScore lib (extractedText r) jobDescription;
          contactInfo = extractContactInfo (extractedText r);
          skills = extractSkills (extractedText r)
      in case populate users r of
           None \<Rightarrow> Inl (Error ''Cannot read properties of null'')
         | Some u \<Rightarrow>
             Inr \<lparr> r_id = resume_id r, r_filename = filename r, candidateName = username u,
                   candidateEmail = user_email u, r_jobTitle = jobTitle r, matchScore = score,
                   r_uploadedAt = uploadedAt r, r_email = email contactInfo,
                   r_phone = phone contactInfo, r_skills = skills \<rparr>)"

text \<open>\<^verbatim>\<open>xs.map(f)\<close> where \<open>f\<close> can throw: the first exception ends the map.\<close>

fun map_throw :: "('a \<Rightarrow> js_error + 'b) \<Rightarrow> 'a list \<Rightarrow> js_error + 'b list" where
  "map_throw f [] = Inr []"
| "map_throw f (x # xs) =
     (case f x of
        Inl e \<Rightarrow> Inl e
      | Inr y \<Rightarrow> (case map_throw f xs of Inl e \<Rightarrow> Inl e | Inr ys \<Rightarrow> Inr (y # ys)))"

definition by_score_desc :: "ranked \<Rightarrow> ranked \<Rightarrow> jsnum" where
  "by_score_desc a b = Num (matchScore b - matchScore a)"

record ranking =
  rankedResumes :: "ranked list"
  totalResumes :: nat

definition rank :: "tfidf \<Rightarrow> user list \<Rightarrow> resume list \<Rightarrow> string \<Rightarrow> api_error + ranking" where
  "rank lib users resumes jobDescription =
     (if jobDescription = [] \<or> length (trim jobDescription) = 0 then Inl JobDescriptionRequired
      else
        (case map_throw (rank_entry lib jobDescription users) resumes of
           Inl _ \<Rightarrow> Inl RankFailed
         | Inr entries \<Rightarrow>
             (let sorted_entries = js_sort by_score_desc entries
              in Inr \<lparr> rankedResumes = sorted_entries,
                       totalResumes = length sorted_entries \<rparr>)))"

section \<open>The TF-IDF package\<close>

text \<open>
  The package \<^verbatim>\<open>natural\<close> is not among the repository's sources, and every general
  theorem below holds for whatever \<open>lib\<close> is. \<open>natural_TfIdf\<close> describes its class
  \<^verbatim>\<open>TfIdf\<close> for use at concrete inputs: a document is lower-cased and cut into words at
  every run of characters other than letters, digits and the underscore; stop words are
  dropped; a term's weight in a document is its number of occurrences there times
  \<open>1 + ln (N / (1 + df))\<close>, for \<open>N\<close> documents of which \<open>df\<close> hold the term;
  \<^verbatim>\<open>listTerms\<close> sorts by descending weight and leaves out the key \<^verbatim>\<open>__key\<close>. A
  document is a plain object, so the word \<^verbatim>\<open>__proto__\<close> never becomes a term. The
  order in which JavaScript enumerates keys that are array indices is not modelled: no
  theorem below depends on the order of a term list.
\<close>

definition natural_stopwords :: "string list" where
  "natural_stopwords =
     [''about'', ''above'', ''after'', ''again'', ''all'', ''also'', ''am'', ''an'', ''and'',
      ''another'', ''any'', ''are'', ''as'', ''at'', ''be'', ''because'', ''been'', ''before'',
      ''being'', ''below'', ''between'', ''both'', ''but'', ''by'', ''came'', ''can'', ''cannot'',
      ''come'', ''could'', ''did'', ''do'', ''does'', ''doing'', ''during'', ''each'', ''few'',
      ''for'', ''from'', ''further'', ''get'', ''got'', ''has'', ''had'', ''he'', ''have'', ''her'',
      ''here'', ''him'', ''himself'', ''his'', ''how'', ''if'', ''in'', ''into'', ''is'', ''it'',
      ''its'', ''itself'', ''like'', ''make'', ''many'', ''me'', ''might'', ''more'', ''most'',
      ''much'', ''must'', ''my'', ''myself'', ''never'', ''now'', ''of'', ''on'', ''only'', ''or'',
      ''other'', ''our'', ''ours'', ''ourselves'', ''out'', ''over'', ''own'', ''said'', ''same'',
      ''see'', ''she'', ''should'', ''since'', ''so'', ''some'', ''still'', ''such'', ''take'', ''than'',
      ''that'', ''the'', ''their'', ''theirs'', ''them'', ''themselves'', ''then'', ''there'',
      ''these'', ''they'', ''this'', ''those'', ''through'', ''to'', ''too'', ''under'', ''until'',
      ''up'', ''very'', ''was'', ''way'', ''we'', ''well'', ''were'', ''what'', ''where'', ''when'',
      ''which'', ''while'', ''who'', ''whom'', ''with'', ''would'', ''why'', ''you'', ''your'',
      ''yours'', ''yourself''] @
     map (\<lambda>c. [c]) ''abcdefghijklmnopqrstuvwxyz$1234567890_''"

fun tokens :: "string \<Rightarrow> string \<Rightarrow> string list" where
  "tokens cur [] = (if cur = [] then [] else [cur])"
| "tokens cur (c # cs) =
     (if is_word_char c then tokens (cur @ [c]) cs
      else if cur = [] then tokens [] cs else cur # tokens [] cs)"

fun add_term :: "string \<Rightarrow> (string \<times> nat) list \<Rightarrow> (string \<times> nat) list" where
  "add_term t [] = [(t, 1)]"
| "add_term t ((t', n) # doc) = (if t' = t then (t, n + 1) # doc else (t', n) # add_term t doc)"

definition buildDocument :: "string \<Rightarrow> (string \<times> nat) list" where
  "buildDocument text =
     fold add_term
       (filter (\<lambda>t. t \<notin> set natural_stopwords \<and> t \<noteq> ''__proto__'')
         (tokens [] (toLowerCase text))) []"

definition documentHasTerm :: "string \<Rightarrow> (string \<times> nat) list \<Rightarrow> bool" where
  "documentHasTerm t doc = (map_of doc t \<noteq> None)"

definition idf :: "(string \<times> nat) list list \<Rightarrow> string \<Rightarrow> real" where
  "idf documents t =
     1 + ln (real (length documents) / (1 + real (length (filter (documentHasTerm t) documents))))"

definition by_weight_desc :: "string \<times> real \<Rightarrow> string \<times> real \<Rightarrow> jsnum" where
  "by_weight_desc x y = Num (snd y - snd x)"

definition natural_TfIdf :: tfidf where
  "natural_TfIdf docs d =
     (let documents = map buildDocument docs
      in if d < length documents
         then Inr (js_sort by_weight_desc
                    (map (\<lambda>(t, n). (t, real n * idf documents t))
                      (filter (\<lambda>(t, n). t \<noteq> ''__key'') (documents ! d))))
         else Inr [])"

section \<open>Similarity in double precision\<close>

text \<open>
  JavaScript numbers are IEEE 754 doubles, and every arithmetic operation returns the
  double nearest to the exact result. \<open>fl64 x\<close> is that double: \<open>x\<close> rounded to 53
  significant bits, a tie going to the even significand. The exponent is not bounded
  here, so overflow to \<^verbatim>\<open>Infinity\<close> and subnormal numbers are not modelled; the weights of a
  text (at least 0.59, at most its number of words) and the sums of their products are
  far from both.
\<close>

definition round_even :: "real \<Rightarrow> int" where
  "round_even y =
     (let n = \<lfloor>y\<rfloor>; r = y - of_int n
      in if r < 1 / 2 then n else if 1 / 2 < r then n + 1 else if even n then n else n + 1)"

definition fl64 :: "real \<Rightarrow> real" where
  "fl64 x =
     (if x = 0 then 0
      else (let e = \<lfloor>log 2 \<bar>x\<bar>\<rfloor>; s = 2 powi (e - 52)
            in of_int (round_even (x / s)) * s))"

text \<open>
  \<^verbatim>\<open>Math.sqrt\<close> is correctly rounded. \<^verbatim>\<open>Math.log\<close> is taken to be correctly rounded as
  well, as it is at 1 and at 2/3, the two arguments that a corpus of two documents
  produces.
\<close>

definition Math_sqrt :: "real \<Rightarrow> real" where
  "Math_sqrt x = fl64 (sqrt x)"

definition Math_log :: "real \<Rightarrow> real" where
  "Math_log x = fl64 (ln x)"

text \<open>
  \<^verbatim>\<open>calculateMatchScore\<close> once more, now with the rounding of every operation written
  out; \<open>score_terms\<close> above is the same code without the rounding. \<^verbatim>\<open>Math.round\<close> is
  exact on a double.
\<close>

definition dot_reduce64 :: "real list \<Rightarrow> real list \<Rightarrow> real" where
  "dot_reduce64 vector1 vector2 =
     fold (\<lambda>(i, val) sum. fl64 (sum + fl64 (val * vector2 ! i))) (enumerate 0 vector1) 0"

definition square_reduce64 :: "real list \<Rightarrow> real" where
  "square_reduce64 v = fold (\<lambda>val sum. fl64 (sum + fl64 (val * val))) v 0"

definition score_terms64 :: "(string \<times> real) list \<Rightarrow> (string \<times> real) list \<Rightarrow> real" where
  "score_terms64 terms1 terms2 =
     (let allTerms = new_Set (map fst terms1 @ map fst terms2);
          vector1 = vector_of allTerms terms1;
          vector2 = vector_of allTerms terms2;
          dotProduct = dot_reduce64 vector1 vector2;
          magnitude1 = Math_sqrt (square_reduce64 vector1);
          magnitude2 = Math_sqrt (square_reduce64 vector2)
      in if magnitude1 = 0 \<or> magnitude2 = 0 then 0
         else
           (let similarity = fl64 (dotProduct / fl64 (magnitude1 * magnitude2))
            in fl64 (Math_round (fl64 (fl64 (similarity * 100) * 100)) / 100)))"

definition match_try64 :: "tfidf \<Rightarrow> string \<Rightarrow> string \<Rightarrow> js_error + real" where
  "match_try64 lib resumeText jobDescription =
     (if resumeText = [] \<or> jobDescription = [] then Inr 0
      else
        (let docs = [toLowerCase resumeText, toLowerCase jobDescription]
         in case lib docs 0 of
              Inl e \<Rightarrow> Inl e
            | Inr terms1 \<Rightarrow>
                (case lib docs 1 of
                   Inl e \<Rightarrow> Inl e
                 | Inr terms2 \<Rightarrow> Inr (score_terms64 terms1 terms2))))"

definition calculateMatchScore64 :: "tfidf \<Rightarrow> string \<Rightarrow> string \<Rightarrow> real" where
  "calculateMatchScore64 lib resumeText jobDescription =
     (case match_try64 lib resumeText jobDescription of
        Inr score \<Rightarrow> score
      | Inl _ \<Rightarrow> 0)"

text \<open>The package in double precision: the weight of a term is \<^verbatim>\<open>tf * idf\<close>.\<close>

definition idf64 :: "(string \<times> nat) list list \<Rightarrow> string \<Rightarrow> real" where
  "idf64 documents t =
     fl64 (1 + Math_log
       (fl64 (real (length documents) / (1 + real (length (filter (documentHasTerm t) documents))))))"

definition natural_TfIdf64 :: tfidf where
  "natural_TfIdf64 docs d =
     (let documents = map buildDocument docs
      in if d < length documents
         then Inr (js_sort by_weight_desc
                    (map (\<lambda>(t, n). (t, fl64 (real n * idf64 documents t)))
                      (filter (\<lambda>(t, n). t \<noteq> ''__key'') (documents ! d))))
         else Inr [])"

section \<open>Facts about the string helpers\<close>

lemma includes_iff: "str_includes t s \<longleftrightarrow> (\<exists>pre post. t = pre @ s @ post)"
proof (induction t)
  case Nil
  then show ?case by auto
next
  case (Cons c cs)
  have sw: "startsWith (c # cs) s \<longleftrightarrow> (\<exists>post. c # cs = s @ post)"
    unfolding startsWith_def
    by (metis append_eq_conv_conj append_take_drop_id)
  show ?case
  proof
    assume "str_includes (c # cs) s"
    then consider "startsWith (c # cs) s" | "str_includes cs s" by auto
    then show "\<exists>pre post. c # cs = pre @ s @ post"
    proof cases
      case 1
      then obtain post where "c # cs = s @ post" using sw by blast
      then have "c # cs = [] @ s @ post" by simp
      then show ?thesis by blast
    next
      case 2
      then obtain pre post where "cs = pre @ s @ post" using Cons.IH by blast
      then have "c # cs = (c # pre) @ s @ post" by simp
      then show ?thesis by blast
    qed
  next
    assume "\<exists>pre post. c # cs = pre @ s @ post"
    then obtain pre post where eq: "c # cs = pre @ s @ post" by blast
    show "str_includes (c # cs) s"
    proof (cases pre)
      case Nil
      with eq have "startsWith (c # cs) s" using sw by auto
      then show ?thesis by simp
    next
      case (Cons p ps)
      with eq have "cs = ps @ s @ post" by simp
      then have "str_includes cs s" using Cons.IH by blast
      then show ?thesis by simp
    qed
  qed
qed


lemma fold_set_add_distinct: "distinct acc \<Longrightarrow> distinct (fold set_add xs acc)"
  by (induction xs arbitrary: acc) (simp_all add: set_add_def)

lemma fold_set_add_same: "distinct (acc @ xs) \<Longrightarrow> fold set_add xs acc = acc @ xs"
  by (induction xs arbitrary: acc) (simp_all add: set_add_def)

lemma new_Set_distinct: "distinct (new_Set xs)"
  unfolding new_Set_def by (rule fold_set_add_distinct) simp

lemma new_Set_same: "distinct xs \<Longrightarrow> new_Set xs = xs"
  unfolding new_Set_def using fold_set_add_same [of "[]" xs] by simp

lemma commonSkills_distinct: "distinct commonSkills"
  unfolding commonSkills_def by simp

lemma commonSkills_length: "length commonSkills = 94"
  unfolding commonSkills_def by simp


section \<open>Skills and keywords\<close>

lemma foundSkills_filter:
  "foundSkills text = filter (\<lambda>skill. str_includes (toLowerCase text) skill) commonSkills"
  by (simp add: foundSkills_def)

lemma foundSkills_distinct: "distinct (foundSkills text)"
  unfolding foundSkills_filter using commonSkills_distinct by (rule distinct_filter)

lemma extractSkills_take: "extractSkills text = take 12 (foundSkills text)"
  by (simp add: extractSkills_def new_Set_same foundSkills_distinct)

lemma extractSkills_subseq: "subseq (extractSkills text) commonSkills"
proof -
  have "subseq (take 12 (foundSkills text)) (foundSkills text)"
    using take_is_prefix by (rule prefix_imp_subseq)
  moreover have "subseq (foundSkills text) commonSkills"
    unfolding foundSkills_filter by (rule subseq_filter_left)
  ultimately show ?thesis
    unfolding extractSkills_take by (rule subseq_order.order_trans)
qed

lemma keywords_of_length: "length (keywords_of text) \<le> 8"
  by (simp add: keywords_of_def)

text \<open>
  C2. For every text, \<open>extractSkills\<close> returns the first 12 entries of the vocabulary, in
  the vocabulary's order, that the lower-cased text contains as substrings, without
  duplicates; the keyword list has at most 8 entries; and both are functions of the text
  alone: equal texts give equal lists.
\<close>

theorem skills_and_keywords_bounded:
  "distinct (extractSkills text) \<and>
   length (extractSkills text) \<le> 12 \<and>
   extractSkills text =
     take 12 (filter (\<lambda>skill. str_includes (toLowerCase text) skill) commonSkills) \<and>
   subseq (extractSkills text) commonSkills \<and>
   length (keywords_of text) \<le> 8 \<and>
   (\<forall>text'. text' = text \<longrightarrow>
      extractSkills text' = extractSkills text \<and> keywords_of text' = keywords_of text)"
proof -
  have "distinct (extractSkills text)"
    unfolding extractSkills_take using foundSkills_distinct by (rule distinct_take)
  moreover have "length (extractSkills text) \<le> 12"
    by (simp add: extractSkills_take)
  moreover have "extractSkills text =
      take 12 (filter (\<lambda>skill. str_includes (toLowerCase text) skill) commonSkills)"
    by (simp add: extractSkills_take foundSkills_filter)
  ultimately show ?thesis
    using extractSkills_subseq keywords_of_length by blast
qed

theorem skills_and_keywords_bounded_witness:
  "extractSkills
     ''Python, Java, TypeScript, C++, C#, Ruby, PHP, Swift, Kotlin, React, Angular, Vue, Svelte, Redux''
     = [''python'', ''java'', ''typescript'', ''c++'', ''c#'', ''ruby'', ''php'', ''swift'',
        ''kotlin'', ''react'', ''angular'', ''vue''] \<and>
   length (keywords_of
     ''Python, Java, TypeScript, C++, C#, Ruby, PHP, Swift, Kotlin, React, Angular, Vue, Svelte, Redux'')
     \<le> 8"
proof -
  let ?t = "''Python, Java, TypeScript, C++, C#, Ruby, PHP, Swift, Kotlin, React, Angular, Vue, Svelte, Redux''"
  have found: "filter (\<lambda>skill. str_includes (toLowerCase ?t) skill) commonSkills =
     [''python'', ''java'', ''typescript'', ''c++'', ''c#'', ''ruby'', ''php'', ''swift'',
      ''kotlin'', ''react'', ''angular'', ''vue'', ''svelte'', ''redux'']"
    by code_simp
  from skills_and_keywords_bounded [of ?t] show ?thesis
    unfolding found by simp
qed




section \<open>Matching a word without regard to case\<close>

text \<open>
  A pattern that is a sequence of one-character classes matches at exactly one place or
  not at all; for a word of lower-case letters under the flag \<open>i\<close> the test is the
  containment of the word in the lower-cased text.
\<close>

lemma regex_test_iff: "regex_test r s \<longleftrightarrow> (\<exists>i\<le>length s. rmatch r s i \<noteq> [])"
  by (auto simp add: regex_test_def list_ex_iff less_Suc_eq_le simp del: upt_Suc)

lemma seqs_Cons: "seqs (r # rs) = Seq r (seqs rs)"
  by (simp add: seqs_def)

lemma rmatch_class_word:
  "i \<le> length s \<Longrightarrow>
   rmatch (seqs (map (\<lambda>a. Sym (q a)) w)) s i =
     (if i + length w \<le> length s \<and> list_all2 q w (take (length w) (drop i s))
      then [i + length w] else [])"
proof (induction w arbitrary: i)
  case Nil
  then show ?case by (simp add: seqs_def)
next
  case (Cons a w)
  show ?case
  proof (cases "i < length s")
    case True
    then have d: "drop i s = s ! i # drop (Suc i) s"
      by (simp add: Cons_nth_drop_Suc)
    from True have "Suc i \<le> length s" by simp
    then have "rmatch (seqs (map (\<lambda>a. Sym (q a)) w)) s (Suc i) =
        (if Suc i + length w \<le> length s \<and> list_all2 q w (take (length w) (drop (Suc i) s))
         then [Suc i + length w] else [])"
      by (rule Cons.IH)
    then show ?thesis
      using True by (cases "q a (s ! i)") (simp_all add: seqs_Cons d)
  next
    case False
    then show ?thesis by (simp add: seqs_Cons)
  qed
qed

lemma ignore_case_lower:
  assumes "is_lower a"
  shows "ignore_case (\<lambda>c. c = a) c \<longleftrightarrow> lower_char c = a"
proof -
  have a: "97 \<le> code a" "code a \<le> 122"
    using assms by (simp_all add: is_lower_def in_range_def code_def)
  have neq: "c \<noteq> a" if "code c \<noteq> code a" for c
    using that by auto
  consider (up) "is_upper c" | (lo) "is_lower c" | (other) "\<not> is_upper c" "\<not> is_lower c"
    by blast
  then show ?thesis
  proof cases
    case up
    then have "code c \<le> 90" by (simp add: is_upper_def in_range_def code_def)
    with a have "c \<noteq> a" by (intro neq) simp
    with up show ?thesis
      by (simp add: ignore_case_def swap_case_def lower_char_def is_upper_def)
  next
    case lo
    then have c: "97 \<le> code c" "code c \<le> 122"
      by (simp_all add: is_lower_def in_range_def code_def)
    then have nu: "\<not> is_upper c" by (simp add: is_upper_def in_range_def code_def)
    have "code (char_of (code c - 32)) = code c - 32"
      using c by (simp add: code_def)
    with a c have "char_of (code c - 32) \<noteq> a" by (intro neq) simp
    with lo nu c show ?thesis
      by (simp add: ignore_case_def swap_case_def lower_char_def is_upper_def)
  next
    case other
    have "char_of (code c + 32) \<noteq> a" if "192 \<le> code c" "code c \<le> 222"
    proof -
      have "code (char_of (code c + 32)) = code c + 32"
        using that by (simp add: code_def)
      with a that show ?thesis by (intro neq) simp
    qed
    moreover have "c \<noteq> a" if "c = a" using that other(2) assms by simp
    ultimately show ?thesis using other
      by (auto simp add: ignore_case_def swap_case_def lower_char_def is_upper_def)
  qed
qed

lemma list_all2_lower:
  assumes "\<forall>a \<in> set w. is_lower a"
  shows "list_all2 (\<lambda>a c. ignore_case (\<lambda>c. c = a) c) w xs \<longleftrightarrow> map lower_char xs = w"
  using assms
proof (induction w arbitrary: xs)
  case Nil
  then show ?case by simp
next
  case (Cons a w)
  then show ?case
    by (cases xs) (auto simp add: ignore_case_lower)
qed

lemma regex_test_literal_i:
  assumes "\<forall>a \<in> set w. is_lower a"
  shows "regex_test (literal_i w) s \<longleftrightarrow> str_includes (toLowerCase s) w"
proof -
  let ?n = "length w"
  have "regex_test (literal_i w) s \<longleftrightarrow>
      (\<exists>i\<le>length s. rmatch (literal_i w) s i \<noteq> [])"
    by (rule regex_test_iff)
  also have "\<dots> \<longleftrightarrow>
      (\<exists>i. i + ?n \<le> length s \<and> map lower_char (take ?n (drop i s)) = w)"
  proof -
    have "rmatch (literal_i w) s i \<noteq> [] \<longleftrightarrow>
        i + ?n \<le> length s \<and> map lower_char (take ?n (drop i s)) = w"
      if "i \<le> length s" for i
      unfolding literal_i_def rmatch_class_word [OF that]
      using list_all2_lower [OF assms] by simp
    moreover have "i \<le> length s" if "i + ?n \<le> length s" for i
      using that by simp
    ultimately show ?thesis by blast
  qed
  also have "\<dots> \<longleftrightarrow> (\<exists>pre post. map lower_char s = pre @ w @ post)"
  proof
    assume "\<exists>i. i + ?n \<le> length s \<and> map lower_char (take ?n (drop i s)) = w"
    then obtain i where i: "i + ?n \<le> length s" "map lower_char (take ?n (drop i s)) = w"
      by blast
    have "s = take i s @ take ?n (drop i s) @ drop ?n (drop i s)"
      by (simp only: append_take_drop_id)
    then have "map lower_char s =
        map lower_char (take i s) @ map lower_char (take ?n (drop i s)) @
        map lower_char (drop ?n (drop i s))"
      by (metis map_append)
    with i(2) show "\<exists>pre post. map lower_char s = pre @ w @ post" by metis
  next
    assume "\<exists>pre post. map lower_char s = pre @ w @ post"
    then obtain pre post where e: "map lower_char s = pre @ w @ post" by blast
    then have "length s = length pre + ?n + length post"
      by (metis length_map length_append add.assoc)
    then have "length pre + ?n \<le> length s" by simp
    moreover have "map lower_char (take ?n (drop (length pre) s)) = w"
      using e by (simp add: take_map [symmetric] drop_map [symmetric])
    ultimately show "\<exists>i. i + ?n \<le> length s \<and> map lower_char (take ?n (drop i s)) = w"
      by blast
  qed
  finally show ?thesis by (simp add: includes_iff toLowerCase_def)
qed

lemma actionVerbs_lower: "\<forall>verb \<in> set actionVerbs. \<forall>a \<in> set verb. is_lower a"
  by (simp add: actionVerbs_def is_lower_def in_range_def code_def)

lemma actionVerbCount_eq:
  "actionVerbCount text =
     length (filter (\<lambda>verb. str_includes (toLowerCase text) verb) actionVerbs)"
proof -
  have "filter (\<lambda>verb. regex_test (literal_i verb) text) actionVerbs =
        filter (\<lambda>verb. str_includes (toLowerCase text) verb) actionVerbs"
    by (rule filter_cong) (simp_all add: regex_test_literal_i actionVerbs_lower)
  then show ?thesis by (simp add: actionVerbCount_def)
qed


section \<open>The ATS score\<close>

lemma actionVerbBonus_le: "actionVerbBonus text \<le> 10"
  by (simp add: actionVerbBonus_def)

lemma atsScore_bounds: "50 \<le> atsScore text \<and> atsScore text \<le> 100"
  by (simp add: atsScore_def bump_def Let_def)

lemma atsScore_empty: "atsScore [] = 50"
  by code_simp

lemma atsScore_sum:
  "atsScore text =
     min (50 + (if hasEmail text then 5 else 0) + (if hasPhone text then 5 else 0) +
          (if hasSummary text then 5 else 0) + (if hasExperience text then 10 else 0) +
          (if hasEducation text then 5 else 0) + (if hasSkills text then 10 else 0) +
          actionVerbBonus text + (if hasNumbers text then 5 else 0)) 100"
  by (simp add: atsScore_def bump_def Let_def add.assoc)

lemma analyze_short:
  "length (extractedText r) < 100 \<Longrightarrow> analyze (Some r) = Inl CannotAnalyze"
  by (simp add: analyze_def Let_def)

lemma analyze_long:
  "100 \<le> length (extractedText r) \<Longrightarrow>
   \<exists>a. analyze (Some r) = Inr a \<and> a_atsScore a = atsScore (extractedText r)"
  by (auto simp add: analyze_def Let_def)

text \<open>
  C9. The action-verb bonus is \<open>min (count * 2) 10\<close>, where \<open>count\<close> is the number of
  the ten listed verbs that occur in the text without regard to case, so it is at most 10;
  it is one summand of the score before the clamp at 100.
\<close>

theorem action_verb_bonus:
  "actionVerbs =
     [''developed'', ''created'', ''managed'', ''led'', ''implemented'', ''designed'', ''built'',
      ''improved'', ''increased'', ''reduced''] \<and>
   length actionVerbs = 10 \<and>
   actionVerbCount text =
     length (filter (\<lambda>verb. str_includes (toLowerCase text) verb) actionVerbs) \<and>
   actionVerbCount text \<le> 10 \<and>
   actionVerbBonus text = min (actionVerbCount text * 2) 10 \<and>
   actionVerbBonus text \<le> 10 \<and>
   atsScore text =
     min (50 + (if hasEmail text then 5 else 0) + (if hasPhone text then 5 else 0) +
          (if hasSummary text then 5 else 0) + (if hasExperience text then 10 else 0) +
          (if hasEducation text then 5 else 0) + (if hasSkills text then 10 else 0) +
          actionVerbBonus text + (if hasNumbers text then 5 else 0)) 100"
proof -
  have verbs: "actionVerbs =
     [''developed'', ''created'', ''managed'', ''led'', ''implemented'', ''designed'', ''built'',
      ''improved'', ''increased'', ''reduced'']"
    by (fact actionVerbs_def)
  have len: "length actionVerbs = 10"
    unfolding verbs by simp
  have "actionVerbCount text \<le> length actionVerbs"
    unfolding actionVerbCount_def by (rule length_filter_le)
  then have count: "actionVerbCount text \<le> 10"
    unfolding len .
  have bonus: "actionVerbBonus text = min (actionVerbCount text * 2) 10"
    by (fact actionVerbBonus_def)
  from verbs len actionVerbCount_eq count bonus actionVerbBonus_le atsScore_sum
  show ?thesis by blast
qed

theorem action_verb_bonus_witness:
  "actionVerbCount ''Led it, DEVELOPED it'' = 2 \<and>
   actionVerbBonus ''Led it, DEVELOPED it'' = 4"
proof -
  let ?t = "''Led it, DEVELOPED it''"
  have "filter (\<lambda>verb. str_includes (toLowerCase ?t) verb) actionVerbs =
      [''developed'', ''led'']"
    by code_simp
  then have "actionVerbCount ?t = 2"
    by (simp only: actionVerbCount_eq) simp
  with action_verb_bonus [of ?t] show ?thesis by simp
qed

text \<open>
  C1. The ATS score is an integer between 0 and 100 for every text: it starts at the
  base 50, only bonuses are added, and it is clamped at 100, so it is never below 50; for
  the empty text it is exactly 50. The analyze route computes it for the stored texts of
  at least 100 characters and returns it unchanged; a shorter text is answered with
  status 400 before any scoring.
\<close>

theorem ats_score_range:
  "50 \<le> atsScore text \<and> atsScore text \<le> 100 \<and> atsScore [] = 50 \<and>
   (length (extractedText r) < 100 \<longrightarrow> analyze (Some r) = Inl CannotAnalyze) \<and>
   (100 \<le> length (extractedText r) \<longrightarrow>
      (\<exists>a. analyze (Some r) = Inr a \<and> a_atsScore a = atsScore (extractedText r) \<and>
           50 \<le> a_atsScore a \<and> a_atsScore a \<le> 100))"
proof -
  have "\<exists>a. analyze (Some r) = Inr a \<and> a_atsScore a = atsScore (extractedText r) \<and>
           50 \<le> a_atsScore a \<and> a_atsScore a \<le> 100"
    if "100 \<le> length (extractedText r)"
    using analyze_long [OF that] atsScore_bounds [of "extractedText r"] by auto
  then show ?thesis
    using atsScore_bounds atsScore_empty analyze_short by blast
qed

theorem ats_score_range_witness:
  "(\<exists>a. analyze (Some
      \<lparr> resume_id = 1, userId = 7, filename = ''cv.pdf'', pdfData = [37, 80, 68, 70],
        extractedText = ''Summary: developed and led 3 teams. Skills: Python, React. Education: BSc. Mail a.b@c.org, 555-123-4567.'',
        jobTitle = ''Not Specified'', uploadedAt = 0 \<rparr>) = Inr a \<and>
      50 \<le> a_atsScore a \<and> a_atsScore a \<le> 100) \<and>
   analyze (Some
      \<lparr> resume_id = 1, userId = 7, filename = ''cv.pdf'', pdfData = [37, 80, 68, 70],
        extractedText = ''Jane Doe, engineer: ten years of Java and SQL work'',
        jobTitle = ''Not Specified'', uploadedAt = 0 \<rparr>) = Inl CannotAnalyze"
proof -
  let ?long = "\<lparr> resume_id = 1, userId = 7, filename = ''cv.pdf'', pdfData = [37, 80, 68, 70],
        extractedText = ''Summary: developed and led 3 teams. Skills: Python, React. Education: BSc. Mail a.b@c.org, 555-123-4567.'',
        jobTitle = ''Not Specified'', uploadedAt = 0 \<rparr>"
  let ?short = "\<lparr> resume_id = 1, userId = 7, filename = ''cv.pdf'', pdfData = [37, 80, 68, 70],
        extractedText = ''Jane Doe, engineer: ten years of Java and SQL work'',
        jobTitle = ''Not Specified'', uploadedAt = 0 \<rparr>"
  have "100 \<le> length (extractedText ?long)" by simp
  with ats_score_range [of "[]" ?long]
  have a: "\<exists>a. analyze (Some ?long) = Inr a \<and> 50 \<le> a_atsScore a \<and> a_atsScore a \<le> 100"
    by blast
  have "length (extractedText ?short) < 100" by simp
  with ats_score_range [of "[]" ?short]
  have b: "analyze (Some ?short) = Inl CannotAnalyze"
    by blast
  from a b show ?thesis by blast
qed

section \<open>Extraction and the upload gate\<close>

lemma extract_pdf:
  "extractTextFromFile ex buf ''application/pdf'' fname = pdfParse ex buf"
  by (simp add: extractTextFromFile_def)

lemma upload_rejected_store:
  "fst (upload ex uid new_id now file title db) = Inl e \<Longrightarrow>
   snd (upload ex uid new_id now file title db) = db"
  by (auto simp add: upload_def Let_def split: option.splits sum.splits js_error.splits if_splits)

lemma upload_gate:
  assumes "extractTextFromFile ex (file_buffer f) (mimetype f) (originalname f) = Inr t"
  shows "upload ex uid new_id now (Some f) title db =
     (if length (trim t) < 50 then (Inl (InsufficientText (length t)), db)
      else (Inr \<lparr> resumeId = new_id, up_filename = originalname f,
                  fileType = mimetype f, textLength = length t \<rparr>,
            db @ [\<lparr> resume_id = new_id, userId = uid, filename = originalname f,
                    pdfData = file_buffer f, extractedText = t,
                    jobTitle = (case title of None \<Rightarrow> ''Not Specified''
                                | Some x \<Rightarrow> if x = [] then ''Not Specified'' else x),
                    uploadedAt = now \<rparr>]))"
proof -
  have "length (trim t) < 50" if "t = []"
    using that by (simp add: trim_def)
  then show ?thesis
    using assms by (auto simp add: upload_def Let_def)
qed

text \<open>
  C6. Once a text has been extracted, the upload is rejected for insufficient text
  exactly when the trimmed text has fewer than 50 characters, and this is then the only
  rejection; a rejected upload leaves the store as it was, and an accepted one appends
  the resume with the extracted text.
\<close>

theorem insufficient_text_gate:
  assumes "extractTextFromFile ex (file_buffer f) (mimetype f) (originalname f) = Inr t"
  shows
    "(fst (upload ex uid new_id now (Some f) title db) = Inl (InsufficientText (length t))
        \<longleftrightarrow> length (trim t) < 50) \<and>
     ((\<exists>e. fst (upload ex uid new_id now (Some f) title db) = Inl e)
        \<longleftrightarrow> length (trim t) < 50) \<and>
     (length (trim t) < 50 \<longrightarrow> snd (upload ex uid new_id now (Some f) title db) = db) \<and>
     (50 \<le> length (trim t) \<longrightarrow>
        (\<exists>ok r. upload ex uid new_id now (Some f) title db = (Inr ok, db @ [r]) \<and>
                extractedText r = t)) \<and>
     (\<forall>file' e. fst (upload ex uid new_id now file' title db) = Inl e \<longrightarrow>
        snd (upload ex uid new_id now file' title db) = db)"
proof -
  note u = upload_gate [OF assms, of uid new_id now title db]
  have 1: "fst (upload ex uid new_id now (Some f) title db) = Inl (InsufficientText (length t))
        \<longleftrightarrow> length (trim t) < 50"
    unfolding u by simp
  have 2: "(\<exists>e. fst (upload ex uid new_id now (Some f) title db) = Inl e)
        \<longleftrightarrow> length (trim t) < 50"
    unfolding u by simp
  have 3: "snd (upload ex uid new_id now (Some f) title db) = db" if "length (trim t) < 50"
    unfolding u using that by simp
  have 4: "\<exists>ok r. upload ex uid new_id now (Some f) title db = (Inr ok, db @ [r]) \<and>
                extractedText r = t" if "50 \<le> length (trim t)"
    unfolding u using that by simp
  from 1 2 3 4 upload_rejected_store show ?thesis by blast
qed

theorem insufficient_text_gate_witness:
  "fst (upload \<lparr> pdfParse = (\<lambda>b. Inr ''  Jane Doe, engineer: ten years of Java and SQL job  ''),
                  mammoth_extractRawText = (\<lambda>b. Inl (Error ''no'')),
                  Tesseract_recognize = (\<lambda>b. Inl (Error ''no'')) \<rparr>
          7 1 0 (Some \<lparr> originalname = ''cv.pdf'', mimetype = ''application/pdf'',
                         file_buffer = [37, 80, 68, 70] \<rparr>) None [])
     = Inl (InsufficientText 53) \<and>
   (\<exists>ok r. upload \<lparr> pdfParse = (\<lambda>b. Inr ''  Jane Doe, engineer: ten years of Java and SQL work  ''),
                      mammoth_extractRawText = (\<lambda>b. Inl (Error ''no'')),
                      Tesseract_recognize = (\<lambda>b. Inl (Error ''no'')) \<rparr>
          7 1 0 (Some \<lparr> originalname = ''cv.pdf'', mimetype = ''application/pdf'',
                         file_buffer = [37, 80, 68, 70] \<rparr>) None [] = (Inr ok, [r]))"
proof -
  let ?t49 = "''  Jane Doe, engineer: ten years of Java and SQL job  ''"
  let ?t50 = "''  Jane Doe, engineer: ten years of Java and SQL work  ''"
  let ?f = "\<lparr> originalname = ''cv.pdf'', mimetype = ''application/pdf'',
              file_buffer = [37, 80, 68, 70] \<rparr>"
  let ?ex = "\<lambda>t. \<lparr> pdfParse = (\<lambda>b. Inr t),
                    mammoth_extractRawText = (\<lambda>b. Inl (Error ''no'')),
                    Tesseract_recognize = (\<lambda>b. Inl (Error ''no'')) \<rparr>"
  have e: "extractTextFromFile (?ex t) (file_buffer ?f) (mimetype ?f) (originalname ?f) = Inr t"
    for t by (simp add: extract_pdf)
  have l49: "length (trim ?t49) = 49" by code_simp
  have l50: "length (trim ?t50) = 50" by code_simp
  from insufficient_text_gate [OF e [of ?t49], of 7 1 0 None "[]"] l49
  have a: "fst (upload (?ex ?t49) 7 1 0 (Some ?f) None []) = Inl (InsufficientText 53)"
    by simp
  from insufficient_text_gate [OF e [of ?t50], of 7 1 0 None "[]"] l50
  have b: "\<exists>ok r. upload (?ex ?t50) 7 1 0 (Some ?f) None [] = (Inr ok, [r])"
    by auto
  from a b show ?thesis by blast
qed

text \<open>
  C8, as amended. \<open>extractTextFromFile\<close> hands back what the extractor chosen by the
  mime type returns, a text that may be empty, or raises: the PDF parser's own error,
  the Word error, the OCR error, and for every other mime type the error
  \<open>Unsupported file type\<close>. It never checks the text; an empty text is turned away
  afterwards by the upload route's gate.
\<close>

theorem extraction_dispatch:
  "(mime = ''application/pdf'' \<longrightarrow>
      extractTextFromFile ex buf mime fname = pdfParse ex buf) \<and>
   (mime = ''application/msword'' \<or>
    mime = ''application/vnd.openxmlformats-officedocument.wordprocessingml.document'' \<longrightarrow>
      extractTextFromFile ex buf mime fname =
        (case mammoth_extractRawText ex buf of
           Inr v \<Rightarrow> Inr v
         | Inl e \<Rightarrow> Inl (Error ''Failed to extract text from Word document''))) \<and>
   (startsWith mime ''image/'' \<longrightarrow>
      extractTextFromFile ex buf mime fname =
        (case Tesseract_recognize ex buf of
           Inr v \<Rightarrow> Inr v
         | Inl e \<Rightarrow> Inl (Error ''Failed to extract text from image using OCR''))) \<and>
   (mime \<noteq> ''application/pdf'' \<and> mime \<noteq> ''application/msword'' \<and>
    mime \<noteq> ''application/vnd.openxmlformats-officedocument.wordprocessingml.document'' \<and>
    \<not> startsWith mime ''image/'' \<longrightarrow>
      extractTextFromFile ex buf mime fname = Inl (Error ''Unsupported file type'')) \<and>
   (extractTextFromFile ex buf mime fname = Inr [] \<longrightarrow>
      upload ex uid new_id now
        (Some \<lparr> originalname = fname, mimetype = mime, file_buffer = buf \<rparr>) title db =
      (Inl (InsufficientText 0), db))"
proof -
  have img: "mime \<noteq> ''application/pdf'' \<and> mime \<noteq> ''application/msword'' \<and>
      mime \<noteq> ''application/vnd.openxmlformats-officedocument.wordprocessingml.document''"
    if "startsWith mime ''image/''"
    using that by (auto simp add: startsWith_def)
  have gate: "upload ex uid new_id now
        (Some \<lparr> originalname = fname, mimetype = mime, file_buffer = buf \<rparr>) title db =
      (Inl (InsufficientText 0), db)"
    if "extractTextFromFile ex buf mime fname = Inr []"
    using that by (simp add: upload_def)
  show ?thesis
    using img gate
    by (auto simp add: extractTextFromFile_def extractTextFromWord_def extractTextFromImage_def)
qed

theorem extraction_dispatch_witness:
  "extractTextFromFile
     \<lparr> pdfParse = (\<lambda>b. Inr ''Jane Doe''), mammoth_extractRawText = (\<lambda>b. Inl (Error ''bad zip'')),
       Tesseract_recognize = (\<lambda>b. Inr ''J4ne D0e'') \<rparr> [80, 75] ''application/pdf'' ''cv.pdf''
     = Inr ''Jane Doe'' \<and>
   extractTextFromFile
     \<lparr> pdfParse = (\<lambda>b. Inr ''Jane Doe''), mammoth_extractRawText = (\<lambda>b. Inl (Error ''bad zip'')),
       Tesseract_recognize = (\<lambda>b. Inr ''J4ne D0e'') \<rparr> [80, 75] ''application/msword'' ''cv.doc''
     = Inl (Error ''Failed to extract text from Word document'') \<and>
   extractTextFromFile
     \<lparr> pdfParse = (\<lambda>b. Inr ''Jane Doe''), mammoth_extractRawText = (\<lambda>b. Inl (Error ''bad zip'')),
       Tesseract_recognize = (\<lambda>b. Inr ''J4ne D0e'') \<rparr> [80, 75] ''image/webp'' ''cv.webp''
     = Inr ''J4ne D0e'' \<and>
   extractTextFromFile
     \<lparr> pdfParse = (\<lambda>b. Inr ''Jane Doe''), mammoth_extractRawText = (\<lambda>b. Inl (Error ''bad zip'')),
       Tesseract_recognize = (\<lambda>b. Inr ''J4ne D0e'') \<rparr> [80, 75] ''text/plain'' ''cv.txt''
     = Inl (Error ''Unsupported file type'')"
proof -
  let ?ex = "\<lparr> pdfParse = (\<lambda>b. Inr ''Jane Doe''),
               mammoth_extractRawText = (\<lambda>b. Inl (Error ''bad zip'')),
               Tesseract_recognize = (\<lambda>b. Inr ''J4ne D0e'') \<rparr>"
  have i: "startsWith ''image/webp'' ''image/''" "\<not> startsWith ''text/plain'' ''image/''"
    by (simp_all add: startsWith_def)
  from extraction_dispatch [of "''application/pdf''" ?ex "[80, 75]" "''cv.pdf''"]
  have a: "extractTextFromFile ?ex [80, 75] ''application/pdf'' ''cv.pdf'' = Inr ''Jane Doe''"
    by simp
  from extraction_dispatch [of "''application/msword''" ?ex "[80, 75]" "''cv.doc''"]
  have b: "extractTextFromFile ?ex [80, 75] ''application/msword'' ''cv.doc'' =
      Inl (Error ''Failed to extract text from Word document'')"
    by simp
  from extraction_dispatch [of "''image/webp''" ?ex "[80, 75]" "''cv.webp''"] i
  have c: "extractTextFromFile ?ex [80, 75] ''image/webp'' ''cv.webp'' = Inr ''J4ne D0e''"
    by simp
  from extraction_dispatch [of "''text/plain''" ?ex "[80, 75]" "''cv.txt''"] i
  have d: "extractTextFromFile ?ex [80, 75] ''text/plain'' ''cv.txt'' =
      Inl (Error ''Unsupported file type'')"
    by simp
  from a b c d show ?thesis by blast
qed

theorem extraction_empty_counterexample:
  "extractTextFromFile
     \<lparr> pdfParse = (\<lambda>b. Inr ''''), mammoth_extractRawText = (\<lambda>b. Inr ''''),
       Tesseract_recognize = (\<lambda>b. Inr '''') \<rparr> [37, 80, 68, 70] ''application/pdf'' ''scan.pdf''
   = Inr ''''"
  by (simp add: extractTextFromFile_def)

section \<open>Facts about the similarity score\<close>

lemma fold_set_add_known: "set xs \<subseteq> set acc \<Longrightarrow> fold set_add xs acc = acc"
  by (induction xs arbitrary: acc) (simp_all add: set_add_def)

lemma fold_set_add_set: "set (fold set_add xs acc) = set acc \<union> set xs"
  by (induction xs arbitrary: acc) (auto simp add: set_add_def)

lemma new_Set_set: "set (new_Set xs) = set xs"
  by (simp add: new_Set_def fold_set_add_set)

lemma new_Set_twice: "distinct xs \<Longrightarrow> new_Set (xs @ xs) = xs"
proof -
  assume d: "distinct xs"
  have "new_Set (xs @ xs) = fold set_add xs (new_Set xs)"
    by (simp add: new_Set_def)
  also have "\<dots> = fold set_add xs xs"
    using d by (simp add: new_Set_same)
  also have "\<dots> = xs"
    by (rule fold_set_add_known) simp
  finally show ?thesis .
qed

lemma fold_dot_index:
  "fold (\<lambda>(i, val) sum. sum + val * v2 ! i) (enumerate n v1) a =
     a + (\<Sum>k<length v1. v1 ! k * v2 ! (n + k))" for a :: real
proof (induction v1 arbitrary: n a)
  case Nil
  then show ?case by simp
next
  case (Cons x xs)
  have "fold (\<lambda>(i, val) sum. sum + val * v2 ! i) (enumerate n (x # xs)) a =
        fold (\<lambda>(i, val) sum. sum + val * v2 ! i) (enumerate (Suc n) xs) (a + x * v2 ! n)"
    by simp
  also have "\<dots> = (a + x * v2 ! n) + (\<Sum>k<length xs. xs ! k * v2 ! (Suc n + k))"
    by (rule Cons.IH)
  also have "\<dots> = a + (\<Sum>k<length (x # xs). (x # xs) ! k * v2 ! (n + k))"
    by (simp add: sum.lessThan_Suc_shift del: sum.lessThan_Suc)
  finally show ?case .
qed

lemma dot_reduce_index: "dot_reduce v1 v2 = (\<Sum>k<length v1. v1 ! k * v2 ! k)"
  unfolding dot_reduce_def fold_dot_index by simp

lemma dot_reduce_map:
  "dot_reduce (map f xs) (map g xs) = sum_list (map (\<lambda>x. f x * g x) xs)"
proof -
  have "dot_reduce (map f xs) (map g xs) = (\<Sum>k<length xs. f (xs ! k) * g (xs ! k))"
    unfolding dot_reduce_index by simp
  also have "\<dots> = (\<Sum>k = 0..<length xs. map (\<lambda>x. f x * g x) xs ! k)"
    by (simp add: atLeast0LessThan)
  also have "\<dots> = sum_list (map (\<lambda>x. f x * g x) xs)"
    by (simp only: sum_list_sum_nth length_map)
  finally show ?thesis .
qed

lemma fold_squares:
  "fold (\<lambda>val sum. sum + val * val) v a = a + sum_list (map (\<lambda>x. x * x) v)" for a :: real
  by (induction v arbitrary: a) simp_all

lemma square_reduce_sum: "square_reduce v = sum_list (map (\<lambda>x. x * x) v)"
  by (simp add: square_reduce_def fold_squares)

lemma squares_nonneg: "0 \<le> sum_list (map (\<lambda>x. x * x) v)" for v :: "real list"
  by (induction v) simp_all

lemma squares_pos: "\<exists>x \<in> set v. x \<noteq> 0 \<Longrightarrow> 0 < sum_list (map (\<lambda>x. x * x) v)"
  for v :: "real list"
proof (induction v)
  case Nil
  then show ?case by simp
next
  case (Cons y ys)
  show ?case
  proof (cases "y = 0")
    case True
    with Cons show ?thesis by simp
  next
    case False
    then have "0 < y * y" using not_real_square_gt_zero by blast
    with squares_nonneg [of ys] show ?thesis by simp
  qed
qed

lemma Math_round_int: "Math_round (real_of_int n) = real_of_int n"
  by (simp add: Math_round_def)

lemma find_key_distinct:
  "distinct (map fst ts) \<Longrightarrow> x \<in> set ts \<Longrightarrow> find (\<lambda>t. fst t = fst x) ts = Some x"
  by (induction ts) (auto simp add: rev_image_eqI)

lemma vector_of_own_keys:
  assumes "distinct (map fst ts)"
  shows "vector_of (map fst ts) ts = map snd ts"
  unfolding vector_of_def
  by (simp add: find_key_distinct [OF assms] cong: map_cong)

lemma score_terms_same:
  assumes "distinct (map fst ts)" and "\<exists>tw \<in> set ts. snd tw \<noteq> 0"
  shows "score_terms ts ts = 100"
proof -
  let ?v = "map snd ts"
  let ?S = "sum_list (map (\<lambda>x. x * x) ?v)"
  have all: "new_Set (map fst ts @ map fst ts) = map fst ts"
    using assms(1) by (rule new_Set_twice)
  have v: "vector_of (map fst ts) ts = ?v"
    using assms(1) by (rule vector_of_own_keys)
  have dot: "dot_reduce ?v ?v = ?S"
    using dot_reduce_map [of snd ts snd] by (simp add: comp_def)
  have "\<exists>x \<in> set ?v. x \<noteq> 0" using assms(2) by auto
  then have pos: "0 < ?S" by (rule squares_pos)
  then have m: "sqrt ?S \<noteq> 0" by simp
  have "?S / (sqrt ?S * sqrt ?S) = 1"
    using pos by simp
  then have "Math_round (?S / (sqrt ?S * sqrt ?S) * 100 * 100) / 100 = 100"
    using Math_round_int [of 10000] by simp
  then show ?thesis
    unfolding score_terms_def all v Let_def dot square_reduce_sum
    using m by simp
qed

lemma vector_of_nth:
  "i < length allTerms \<Longrightarrow>
   vector_of allTerms ts ! i =
     (case find (\<lambda>t. fst t = allTerms ! i) ts of Some found \<Rightarrow> snd found | None \<Rightarrow> 0)"
  by (simp add: vector_of_def)

lemma find_absent: "k \<notin> fst ` set ts \<Longrightarrow> find (\<lambda>t. fst t = k) ts = None"
  by (force simp add: find_None_iff)

lemma score_terms_disjoint:
  assumes "fst ` set terms1 \<inter> fst ` set terms2 = {}"
  shows "score_terms terms1 terms2 = 0"
proof -
  let ?all = "new_Set (map fst terms1 @ map fst terms2)"
  have "vector_of ?all terms1 ! i * vector_of ?all terms2 ! i = 0" if "i < length ?all" for i
  proof (cases "?all ! i \<in> fst ` set terms1")
    case True
    with assms have "?all ! i \<notin> fst ` set terms2" by blast
    then show ?thesis
      using that by (simp add: vector_of_nth find_absent)
  next
    case False
    then show ?thesis
      using that by (simp add: vector_of_nth find_absent)
  qed
  moreover have "length (vector_of ?all terms1) = length ?all"
    by (simp add: vector_of_def)
  ultimately have "dot_reduce (vector_of ?all terms1) (vector_of ?all terms2) = 0"
    unfolding dot_reduce_index by (intro sum.neutral) simp
  then show ?thesis
    by (simp add: score_terms_def Let_def Math_round_def)
qed

lemma score_terms_zero_magnitude:
  assumes "sqrt (square_reduce (vector_of (new_Set (map fst terms1 @ map fst terms2)) terms1)) = 0 \<or>
           sqrt (square_reduce (vector_of (new_Set (map fst terms1 @ map fst terms2)) terms2)) = 0"
  shows "score_terms terms1 terms2 = 0"
  using assms by (auto simp add: score_terms_def Let_def)

text \<open>
  Without rounding, the score of two lists of terms does not depend on their order: the
  two orders sum the same products over the same set of terms.
\<close>

lemma score_terms_sym: "score_terms terms1 terms2 = score_terms terms2 terms1"
proof -
  let ?w = "\<lambda>ts k. case find (\<lambda>t. fst t = k) ts of Some found \<Rightarrow> snd found | None \<Rightarrow> (0::real)"
  let ?a = "new_Set (map fst terms1 @ map fst terms2)"
  let ?b = "new_Set (map fst terms2 @ map fst terms1)"
  have da: "distinct ?a" and db: "distinct ?b" by (rule new_Set_distinct)+
  have ab: "set ?a = set ?b" by (auto simp add: new_Set_set)
  have v: "vector_of xs ts = map (?w ts) xs" for xs ts
    by (simp add: vector_of_def)
  have sums: "sum_list (map f ?a) = sum_list (map f ?b)" for f :: "string \<Rightarrow> real"
    using da db ab by (simp add: sum_list_distinct_conv_sum_set)
  have dot: "dot_reduce (vector_of ?a terms1) (vector_of ?a terms2) =
             dot_reduce (vector_of ?b terms2) (vector_of ?b terms1)"
    unfolding v dot_reduce_map using sums [of "\<lambda>x. ?w terms1 x * ?w terms2 x"]
    by (simp add: mult.commute)
  have sq: "square_reduce (vector_of ?a ts) = square_reduce (vector_of ?b ts)" for ts
    unfolding v square_reduce_sum using sums [of "\<lambda>x. ?w ts x * ?w ts x"]
    by (simp add: comp_def)
  show ?thesis
    unfolding score_terms_def Let_def dot sq [of terms1] sq [of terms2]
    by (simp add: mult.commute disj_commute)
qed

lemma score_terms_all_zero:
  assumes "distinct (map fst ts)" and "\<forall>tw \<in> set ts. snd tw = 0"
  shows "score_terms ts ts = 0"
proof -
  have "vector_of (map fst ts) ts = map snd ts"
    using assms(1) by (rule vector_of_own_keys)
  moreover have "sum_list (map (\<lambda>x. x * x) (map snd ts)) = 0"
    using assms(2) by (induction ts) simp_all
  ultimately show ?thesis
    using new_Set_twice [OF assms(1)]
    by (simp add: score_terms_def Let_def square_reduce_sum)
qed

lemma match_empty:
  "resumeText = [] \<or> jobDescription = [] \<Longrightarrow>
   calculateMatchScore lib resumeText jobDescription = 0"
  by (auto simp add: calculateMatchScore_def match_try_def)

lemma match_exception:
  "lib [toLowerCase resumeText, toLowerCase jobDescription] 0 = Inl e \<or>
   lib [toLowerCase resumeText, toLowerCase jobDescription] 1 = Inl e \<Longrightarrow>
   calculateMatchScore lib resumeText jobDescription = 0"
  by (auto simp add: calculateMatchScore_def match_try_def Let_def split: sum.splits)

lemma match_terms:
  assumes "resumeText \<noteq> []" and "jobDescription \<noteq> []"
    and "lib [toLowerCase resumeText, toLowerCase jobDescription] 0 = Inr terms1"
    and "lib [toLowerCase resumeText, toLowerCase jobDescription] 1 = Inr terms2"
  shows "calculateMatchScore lib resumeText jobDescription = score_terms terms1 terms2"
  using assms by (simp add: calculateMatchScore_def match_try_def Let_def)

lemma match_terms_zero:
  assumes "lib [toLowerCase resumeText, toLowerCase jobDescription] 0 = Inr terms1"
    and "lib [toLowerCase resumeText, toLowerCase jobDescription] 1 = Inr terms2"
    and "score_terms terms1 terms2 = 0"
  shows "calculateMatchScore lib resumeText jobDescription = 0"
proof (cases "resumeText = [] \<or> jobDescription = []")
  case True
  then show ?thesis by (rule match_empty)
next
  case False
  with assms show ?thesis by (simp add: match_terms)
qed

lemma match_same:
  assumes "T \<noteq> []"
    and "lib [toLowerCase T, toLowerCase T] 0 = Inr ts"
    and "lib [toLowerCase T, toLowerCase T] 1 = Inr ts"
    and "distinct (map fst ts)"
  shows "calculateMatchScore lib T T = (if \<exists>tw \<in> set ts. snd tw \<noteq> 0 then 100 else 0)"
proof -
  have "calculateMatchScore lib T T = score_terms ts ts"
    using assms(1) assms(1) assms(2) assms(3) by (rule match_terms)
  then show ?thesis
    using score_terms_same [OF assms(4)] score_terms_all_zero [OF assms(4)] by auto
qed

subsection \<open>The package at concrete documents\<close>

lemmas natural_eval =
  natural_TfIdf_def buildDocument_def toLowerCase_def lower_char_def in_range_def code_def
  is_word_char_def is_upper_def is_lower_def is_digit_def natural_stopwords_def idf_def
  documentHasTerm_def js_sort_def by_weight_desc_def

lemma shared_weight_pos: "0 < 1 + ln (2 / 3 :: real)"
proof -
  have "ln (3 / 2 :: real) \<le> 3 / 2 - 1"
    by (rule ln_le_minus_one) simp
  moreover have "ln (2 / 3 :: real) = - ln (3 / 2)"
    by (simp add: ln_div)
  ultimately show ?thesis by simp
qed

lemma natural_react_react:
  "natural_TfIdf [toLowerCase ''react'', toLowerCase ''react''] 0 =
     Inr [(''react'', 1 + ln (2 / 3))]"
  "natural_TfIdf [toLowerCase ''react'', toLowerCase ''react''] 1 =
     Inr [(''react'', 1 + ln (2 / 3))]"
  by (simp_all add: natural_eval)

lemma natural_java_react:
  "natural_TfIdf [toLowerCase ''java'', toLowerCase ''react''] 0 = Inr [(''java'', 1)]"
  "natural_TfIdf [toLowerCase ''java'', toLowerCase ''react''] 1 = Inr [(''react'', 1)]"
  by (simp_all add: natural_eval)

lemma natural_marks_react:
  "natural_TfIdf [toLowerCase ''!!!'', toLowerCase ''react''] 0 = Inr []"
  "natural_TfIdf [toLowerCase ''!!!'', toLowerCase ''react''] 1 = Inr [(''react'', 1)]"
  by (simp_all add: natural_eval)

lemma natural_marks_marks:
  "natural_TfIdf [toLowerCase ''!!!'', toLowerCase ''!!!''] 0 = Inr []"
  "natural_TfIdf [toLowerCase ''!!!'', toLowerCase ''!!!''] 1 = Inr []"
  by (simp_all add: natural_eval)

lemma score_react_react: "calculateMatchScore natural_TfIdf ''react'' ''react'' = 100"
proof -
  have "calculateMatchScore natural_TfIdf ''react'' ''react'' =
      (if \<exists>tw \<in> set [(''react'', 1 + ln (2 / 3 :: real))]. snd tw \<noteq> 0 then 100 else 0)"
    using match_same [of "''react''" natural_TfIdf, OF _ natural_react_react] by simp
  then show ?thesis using shared_weight_pos by simp
qed

lemma score_java_react: "calculateMatchScore natural_TfIdf ''java'' ''react'' = 0"
proof -
  have "score_terms [(''java'', 1)] [(''react'', 1)] = 0"
    by (rule score_terms_disjoint) simp
  with natural_java_react show ?thesis
    by (rule match_terms_zero [of natural_TfIdf "''java''" "''react''"])
qed

text \<open>
  C4, as amended. For a non-empty text \<open>T\<close> given as resume and as job description, when
  the package lists the same terms (each once) for both copies, the score is 100.00 if
  one of the terms has a non-zero weight and 0 otherwise: a text without any term, such
  as \<open>!!!\<close>, has two vectors of magnitude zero.
\<close>

theorem identical_texts_score:
  assumes "T \<noteq> []"
    and "lib [toLowerCase T, toLowerCase T] 0 = Inr ts"
    and "lib [toLowerCase T, toLowerCase T] 1 = Inr ts"
    and "distinct (map fst ts)"
  shows "calculateMatchScore lib T T = (if \<exists>tw \<in> set ts. snd tw \<noteq> 0 then 100 else 0)"
  using assms by (rule match_same)

theorem identical_texts_score_witness:
  "''react'' \<noteq> [] \<and>
   natural_TfIdf [toLowerCase ''react'', toLowerCase ''react''] 0 =
     Inr [(''react'', 1 + ln (2 / 3))] \<and>
   natural_TfIdf [toLowerCase ''react'', toLowerCase ''react''] 1 =
     Inr [(''react'', 1 + ln (2 / 3))] \<and>
   calculateMatchScore natural_TfIdf ''react'' ''react'' = 100"
proof -
  have n: "''react'' \<noteq> []" by simp
  have d: "distinct (map fst [(''react'', 1 + ln (2 / 3 :: real))])" by simp
  from identical_texts_score [of "''react''" natural_TfIdf, OF n natural_react_react d]
    shared_weight_pos
  have "calculateMatchScore natural_TfIdf ''react'' ''react'' = 100" by simp
  with natural_react_react show ?thesis by simp
qed

theorem identical_texts_counterexample:
  "''!!!'' \<noteq> [] \<and> calculateMatchScore natural_TfIdf ''!!!'' ''!!!'' = 0"
proof -
  have "score_terms [] [] = 0" by (rule score_terms_disjoint) simp
  with natural_marks_marks have "calculateMatchScore natural_TfIdf ''!!!'' ''!!!'' = 0"
    by (rule match_terms_zero [of natural_TfIdf "''!!!''" "''!!!''"])
  then show ?thesis by simp
qed

section \<open>Facts about the ranking\<close>

lemma insert_by_mset: "mset (insert_by cmp x ys) = add_mset x (mset ys)"
  by (induction ys) simp_all

lemma js_sort_mset: "mset (js_sort cmp xs) = mset xs"
  unfolding js_sort_def by (induction xs) (simp_all add: insert_by_mset)

lemma js_sort_length: "length (js_sort cmp xs) = length xs"
  using js_sort_mset [of cmp xs] by (metis size_mset)

lemma insert_by_set: "set (insert_by cmp x ys) = insert x (set ys)"
  by (induction ys) auto

lemma by_score_desc_positive:
  "positive (by_score_desc x y) \<longleftrightarrow> matchScore x < matchScore y"
  by (simp add: by_score_desc_def)

lemma insert_by_score_sorted:
  assumes "sorted_wrt (\<lambda>a b. matchScore b \<le> matchScore a) ys"
  shows "sorted_wrt (\<lambda>a b. matchScore b \<le> matchScore a) (insert_by by_score_desc x ys)"
  using assms
proof (induction ys)
  case Nil
  then show ?case by simp
next
  case (Cons y ys)
  show ?case
  proof (cases "matchScore x < matchScore y")
    case True
    with Cons show ?thesis
      by (auto simp add: by_score_desc_positive insert_by_set)
  next
    case False
    with Cons.prems show ?thesis
      by (fastforce simp add: by_score_desc_positive)
  qed
qed

lemma js_sort_score_sorted:
  "sorted_wrt (\<lambda>a b. matchScore b \<le> matchScore a) (js_sort by_score_desc xs)"
  unfolding js_sort_def by (induction xs) (simp_all add: insert_by_score_sorted)

lemma map_throw_length: "map_throw f xs = Inr ys \<Longrightarrow> length ys = length xs"
  by (induction xs arbitrary: ys) (auto split: sum.splits)

lemma map_throw_total:
  "\<forall>x \<in> set xs. \<exists>y. f x = Inr y \<Longrightarrow> \<exists>ys. map_throw f xs = Inr ys"
  by (induction xs) (auto split: sum.splits)

lemma rank_entry_total:
  "populate users r \<noteq> None \<Longrightarrow> \<exists>y. rank_entry lib jobDescription users r = Inr y"
  by (auto simp add: rank_entry_def Let_def)

lemma rank_result:
  assumes "rank lib users resumes jobDescription = Inr out"
  shows "\<exists>entries. map_throw (rank_entry lib jobDescription users) resumes = Inr entries \<and>
           rankedResumes out = js_sort by_score_desc entries \<and>
           totalResumes out = length entries"
  using assms
  by (auto simp add: rank_def Let_def js_sort_length split: if_splits sum.splits)

lemma rank_total:
  assumes "\<forall>r \<in> set resumes. populate users r \<noteq> None" and "trim jobDescription \<noteq> []"
  shows "\<exists>out. rank lib users resumes jobDescription = Inr out \<and>
           length (rankedResumes out) = length resumes"
proof -
  have "\<forall>r \<in> set resumes. \<exists>y. rank_entry lib jobDescription users r = Inr y"
    using assms(1) rank_entry_total by blast
  then obtain entries where e: "map_throw (rank_entry lib jobDescription users) resumes = Inr entries"
    using map_throw_total by blast
  have "jobDescription \<noteq> []"
    using assms(2) by (auto simp add: trim_def)
  with assms(2) e show ?thesis
    by (simp add: rank_def Let_def js_sort_length map_throw_length [OF e])
qed

text \<open>
  C7. Whenever the ranking route answers with a ranking, the list is in non-increasing
  order of \<open>matchScore\<close>; it holds one entry for each stored resume, a rearrangement of
  the entries computed for them.
\<close>

theorem ranking_sorted:
  assumes "rank lib users resumes jobDescription = Inr out"
  shows "sorted_wrt (\<lambda>a b. matchScore b \<le> matchScore a) (rankedResumes out) \<and>
         length (rankedResumes out) = length resumes \<and>
         totalResumes out = length resumes \<and>
         (\<exists>entries. map_throw (rank_entry lib jobDescription users) resumes = Inr entries \<and>
                    mset (rankedResumes out) = mset entries)"
proof -
  from rank_result [OF assms] obtain entries where
    e: "map_throw (rank_entry lib jobDescription users) resumes = Inr entries" and
    s: "rankedResumes out = js_sort by_score_desc entries" and
    t: "totalResumes out = length entries"
    by blast
  have "sorted_wrt (\<lambda>a b. matchScore b \<le> matchScore a) (rankedResumes out)"
    unfolding s by (rule js_sort_score_sorted)
  moreover have "length entries = length resumes"
    using e by (rule map_throw_length)
  moreover have "mset (rankedResumes out) = mset entries"
    unfolding s by (rule js_sort_mset)
  ultimately show ?thesis
    using e s t by (auto simp add: js_sort_length)
qed

theorem ranking_sorted_witness:
  "\<exists>out. rank natural_TfIdf
            [\<lparr> user_id = 7, username = ''jane'', user_email = ''jane@x.org'' \<rparr>]
            [\<lparr> resume_id = 1, userId = 7, filename = ''a.pdf'', pdfData = [], extractedText = ''java'',
               jobTitle = ''Dev'', uploadedAt = 10 \<rparr>,
             \<lparr> resume_id = 2, userId = 7, filename = ''b.pdf'', pdfData = [], extractedText = ''react'',
               jobTitle = ''Dev'', uploadedAt = 20 \<rparr>]
            ''react'' = Inr out \<and>
         map r_id (rankedResumes out) = [2, 1] \<and>
         map matchScore (rankedResumes out) = [100, 0] \<and>
         sorted_wrt (\<lambda>a b. matchScore b \<le> matchScore a) (rankedResumes out)"
proof -
  let ?users = "[\<lparr> user_id = 7, username = ''jane'', user_email = ''jane@x.org'' \<rparr>]"
  let ?resumes =
    "[\<lparr> resume_id = 1, userId = 7, filename = ''a.pdf'', pdfData = [], extractedText = ''java'',
        jobTitle = ''Dev'', uploadedAt = 10 \<rparr>,
      \<lparr> resume_id = 2, userId = 7, filename = ''b.pdf'', pdfData = [], extractedText = ''react'',
        jobTitle = ''Dev'', uploadedAt = 20 \<rparr>]"
  have jd: "trim ''react'' \<noteq> []"
    by (simp add: trim_def is_space_def code_def)
  have "\<forall>r \<in> set ?resumes. populate ?users r \<noteq> None"
    by (simp add: populate_def)
  from rank_total [OF this jd, of natural_TfIdf]
  obtain out where out: "rank natural_TfIdf ?users ?resumes ''react'' = Inr out"
    by blast
  from rank_result [OF out] obtain entries where
    e: "map_throw (rank_entry natural_TfIdf ''react'' ?users) ?resumes = Inr entries" and
    s: "rankedResumes out = js_sort by_score_desc entries"
    by blast
  from e have "map r_id (js_sort by_score_desc entries) = [2, 1] \<and>
      map matchScore (js_sort by_score_desc entries) = [100, 0]"
    by (auto simp add: rank_entry_def populate_def Let_def score_java_react score_react_react
        js_sort_def by_score_desc_positive)
  with s ranking_sorted [OF out] out show ?thesis by auto
qed

text \<open>
  C5. \<open>calculateMatchScore\<close> always returns a number, and that number is 0 when either
  text is empty, when the package throws, when the two term lists share no term, and when
  either vector has magnitude zero. So the scores never make the ranking fail: with a
  job description that is not blank and every resume's user present, the route returns
  one entry per resume whatever the package does.
\<close>

theorem degenerate_scores_zero:
  "(resumeText = [] \<or> jobDescription = [] \<longrightarrow>
      calculateMatchScore lib resumeText jobDescription = 0) \<and>
   ((\<exists>e. lib [toLowerCase resumeText, toLowerCase jobDescription] 0 = Inl e \<or>
         lib [toLowerCase resumeText, toLowerCase jobDescription] 1 = Inl e) \<longrightarrow>
      calculateMatchScore lib resumeText jobDescription = 0) \<and>
   (\<forall>terms1 terms2.
      lib [toLowerCase resumeText, toLowerCase jobDescription] 0 = Inr terms1 \<and>
      lib [toLowerCase resumeText, toLowerCase jobDescription] 1 = Inr terms2 \<and>
      fst ` set terms1 \<inter> fst ` set terms2 = {} \<longrightarrow>
      calculateMatchScore lib resumeText jobDescription = 0) \<and>
   (\<forall>terms1 terms2.
      lib [toLowerCase resumeText, toLowerCase jobDescription] 0 = Inr terms1 \<and>
      lib [toLowerCase resumeText, toLowerCase jobDescription] 1 = Inr terms2 \<and>
      (sqrt (square_reduce
         (vector_of (new_Set (map fst terms1 @ map fst terms2)) terms1)) = 0 \<or>
       sqrt (square_reduce
         (vector_of (new_Set (map fst terms1 @ map fst terms2)) terms2)) = 0) \<longrightarrow>
      calculateMatchScore lib resumeText jobDescription = 0) \<and>
   ((\<forall>r \<in> set resumes. populate users r \<noteq> None) \<and> trim jobDescription \<noteq> [] \<longrightarrow>
      (\<exists>out. rank lib users resumes jobDescription = Inr out \<and>
             length (rankedResumes out) = length resumes))"
proof -
  have a: "resumeText = [] \<or> jobDescription = [] \<longrightarrow>
      calculateMatchScore lib resumeText jobDescription = 0"
    using match_empty by blast
  have b: "(\<exists>e. lib [toLowerCase resumeText, toLowerCase jobDescription] 0 = Inl e \<or>
         lib [toLowerCase resumeText, toLowerCase jobDescription] 1 = Inl e) \<longrightarrow>
      calculateMatchScore lib resumeText jobDescription = 0"
    using match_exception by blast
  have c: "calculateMatchScore lib resumeText jobDescription = 0"
    if "lib [toLowerCase resumeText, toLowerCase jobDescription] 0 = Inr terms1"
      "lib [toLowerCase resumeText, toLowerCase jobDescription] 1 = Inr terms2"
      "fst ` set terms1 \<inter> fst ` set terms2 = {}"
    for terms1 terms2
    using that(1) that(2) score_terms_disjoint [OF that(3)] by (rule match_terms_zero)
  have d: "calculateMatchScore lib resumeText jobDescription = 0"
    if "lib [toLowerCase resumeText, toLowerCase jobDescription] 0 = Inr terms1"
      "lib [toLowerCase resumeText, toLowerCase jobDescription] 1 = Inr terms2"
      "sqrt (square_reduce
         (vector_of (new_Set (map fst terms1 @ map fst terms2)) terms1)) = 0 \<or>
       sqrt (square_reduce
         (vector_of (new_Set (map fst terms1 @ map fst terms2)) terms2)) = 0"
    for terms1 terms2
    using that(1) that(2) score_terms_zero_magnitude [OF that(3)] by (rule match_terms_zero)
  have e: "(\<forall>r \<in> set resumes. populate users r \<noteq> None) \<and> trim jobDescription \<noteq> [] \<longrightarrow>
      (\<exists>out. rank lib users resumes jobDescription = Inr out \<and>
             length (rankedResumes out) = length resumes)"
    using rank_total by blast
  from c have c': "\<forall>terms1 terms2.
      lib [toLowerCase resumeText, toLowerCase jobDescription] 0 = Inr terms1 \<and>
      lib [toLowerCase resumeText, toLowerCase jobDescription] 1 = Inr terms2 \<and>
      fst ` set terms1 \<inter> fst ` set terms2 = {} \<longrightarrow>
      calculateMatchScore lib resumeText jobDescription = 0"
    by blast
  from d have d': "\<forall>terms1 terms2.
      lib [toLowerCase resumeText, toLowerCase jobDescription] 0 = Inr terms1 \<and>
      lib [toLowerCase resumeText, toLowerCase jobDescription] 1 = Inr terms2 \<and>
      (sqrt (square_reduce
         (vector_of (new_Set (map fst terms1 @ map fst terms2)) terms1)) = 0 \<or>
       sqrt (square_reduce
         (vector_of (new_Set (map fst terms1 @ map fst terms2)) terms2)) = 0) \<longrightarrow>
      calculateMatchScore lib resumeText jobDescription = 0"
    by blast
  from a b c' d' e show ?thesis by (intro conjI)
qed

theorem degenerate_scores_zero_witness:
  "calculateMatchScore natural_TfIdf '''' ''react'' = 0 \<and>
   calculateMatchScore (\<lambda>docs d. Inl (Error ''out of memory'')) ''java'' ''react'' = 0 \<and>
   calculateMatchScore natural_TfIdf ''java'' ''react'' = 0 \<and>
   calculateMatchScore natural_TfIdf ''!!!'' ''react'' = 0 \<and>
   (\<exists>out. rank (\<lambda>docs d. Inl (Error ''out of memory''))
            [\<lparr> user_id = 7, username = ''jane'', user_email = ''jane@x.org'' \<rparr>]
            [\<lparr> resume_id = 1, userId = 7, filename = ''a.pdf'', pdfData = [], extractedText = ''java'',
               jobTitle = ''Dev'', uploadedAt = 10 \<rparr>,
             \<lparr> resume_id = 2, userId = 7, filename = ''b.pdf'', pdfData = [], extractedText = ''react'',
               jobTitle = ''Dev'', uploadedAt = 20 \<rparr>]
            ''react'' = Inr out \<and>
          length (rankedResumes out) = 2)"
proof -
  let ?boom = "\<lambda>(docs :: string list) (d :: nat). (Inl (Error ''out of memory'') :: js_error + (string \<times> real) list)"
  let ?users = "[\<lparr> user_id = 7, username = ''jane'', user_email = ''jane@x.org'' \<rparr>]"
  let ?resumes =
    "[\<lparr> resume_id = 1, userId = 7, filename = ''a.pdf'', pdfData = [], extractedText = ''java'',
        jobTitle = ''Dev'', uploadedAt = 10 \<rparr>,
      \<lparr> resume_id = 2, userId = 7, filename = ''b.pdf'', pdfData = [], extractedText = ''react'',
        jobTitle = ''Dev'', uploadedAt = 20 \<rparr>]"
  from degenerate_scores_zero [of "''''" "''react''" natural_TfIdf]
  have a: "calculateMatchScore natural_TfIdf '''' ''react'' = 0"
    by simp
  from degenerate_scores_zero [of "''java''" "''react''" ?boom]
  have b: "calculateMatchScore ?boom ''java'' ''react'' = 0"
    by simp
  have "fst ` set [(''java'', 1 :: real)] \<inter> fst ` set [(''react'', 1 :: real)] = {}"
    by simp
  with degenerate_scores_zero [of "''java''" "''react''" natural_TfIdf] natural_java_react
  have c: "calculateMatchScore natural_TfIdf ''java'' ''react'' = 0"
    by blast
  have "sqrt (square_reduce
      (vector_of (new_Set (map fst [] @ map fst [(''react'', 1 :: real)])) [])) = 0"
    by (simp add: new_Set_def set_add_def vector_of_def square_reduce_def)
  with degenerate_scores_zero [of "''!!!''" "''react''" natural_TfIdf] natural_marks_react
  have d: "calculateMatchScore natural_TfIdf ''!!!'' ''react'' = 0"
    by blast
  have p: "\<forall>r \<in> set ?resumes. populate ?users r \<noteq> None"
    by (simp add: populate_def)
  have t: "trim ''react'' \<noteq> []"
    by (simp add: trim_def is_space_def code_def)
  from degenerate_scores_zero [of "''java''" "''react''" ?boom ?resumes ?users] p t
  have "\<exists>out. rank ?boom ?users ?resumes ''react'' = Inr out \<and>
      length (rankedResumes out) = length ?resumes"
    by blast
  then have e: "\<exists>out. rank ?boom ?users ?resumes ''react'' = Inr out \<and>
      length (rankedResumes out) = 2"
    by (auto simp add: numeral_2_eq_2)
  from a b c d e show ?thesis by (intro conjI)
qed

section \<open>Facts about rounding to a double\<close>

lemma powr2_int: "(2::real) powr of_int n = 2 powi n"
  by (simp add: powr_real_of_int')

lemma round_even_err: "\<bar>of_int (round_even y) - y\<bar> \<le> 1 / 2"
  unfolding round_even_def Let_def by (auto simp: abs_if) linarith+

lemma round_even_near:
  assumes "\<bar>y - of_int k\<bar> < 1 / 2"
  shows "round_even y = k"
proof -
  have "\<lfloor>y\<rfloor> = k \<or> \<lfloor>y\<rfloor> = k - 1"
    using assms by (auto simp: abs_if split: if_splits) linarith+
  then show ?thesis
    using assms unfolding round_even_def Let_def
    by (auto simp: abs_if split: if_splits)
qed

lemma floor_log2:
  assumes "x \<noteq> 0"
  shows "2 powi \<lfloor>log 2 \<bar>x\<bar>\<rfloor> \<le> \<bar>x\<bar>" and "\<bar>x\<bar> < 2 powi (\<lfloor>log 2 \<bar>x\<bar>\<rfloor> + 1)"
proof -
  have p: "0 < \<bar>x\<bar>" using assms by simp
  have "of_int \<lfloor>log 2 \<bar>x\<bar>\<rfloor> \<le> log 2 \<bar>x\<bar>" by simp
  then have "2 powr of_int \<lfloor>log 2 \<bar>x\<bar>\<rfloor> \<le> \<bar>x\<bar>"
    using p by (simp add: powr_le_iff)
  then show "2 powi \<lfloor>log 2 \<bar>x\<bar>\<rfloor> \<le> \<bar>x\<bar>"
    by (simp add: powr_real_of_int')
  have "log 2 \<bar>x\<bar> < of_int (\<lfloor>log 2 \<bar>x\<bar>\<rfloor> + 1)" by linarith
  then have "\<bar>x\<bar> < 2 powr of_int (\<lfloor>log 2 \<bar>x\<bar>\<rfloor> + 1)"
    using p by (simp add: less_powr_iff)
  then show "\<bar>x\<bar> < 2 powi (\<lfloor>log 2 \<bar>x\<bar>\<rfloor> + 1)"
    using powr2_int [of "\<lfloor>log 2 \<bar>x\<bar>\<rfloor> + 1"] by simp
qed

lemma floor_log2_unique:
  assumes "2 powi e \<le> \<bar>x\<bar>" and "\<bar>x\<bar> < 2 powi (e + 1)"
  shows "\<lfloor>log 2 \<bar>x\<bar>\<rfloor> = e"
proof -
  have p: "0 < \<bar>x\<bar>" using assms(1) by (smt (verit) zero_less_power_int)
  have "2 powr of_int e \<le> \<bar>x\<bar>" using assms(1) by (simp add: powr_real_of_int')
  then have a: "of_int e \<le> log 2 \<bar>x\<bar>" using p by (simp add: le_log_iff)
  have "\<bar>x\<bar> < 2 powr of_int (e + 1)" using assms(2) powr2_int [of "e + 1"] by simp
  then have b: "log 2 \<bar>x\<bar> < of_int (e + 1)" using p by (simp add: log_less_iff)
  from a b show ?thesis by linarith
qed

lemma powi_pos2: "0 < (2::real) powi j"
  by simp

lemma fl64_exponent:
  assumes "2 powi e \<le> \<bar>x\<bar>" and "\<bar>x\<bar> < 2 powi (e + 1)"
  shows "fl64 x = of_int (round_even (x / 2 powi (e - 52))) * 2 powi (e - 52)"
proof -
  have "0 < \<bar>x\<bar>" using assms(1) powi_pos2 [of e] by linarith
  then have "x \<noteq> 0" by simp
  moreover have "\<lfloor>log 2 \<bar>x\<bar>\<rfloor> = e" using assms by (rule floor_log2_unique)
  ultimately show ?thesis by (simp add: fl64_def Let_def)
qed

lemma fl64_zero [simp]: "fl64 0 = 0"
  by (simp add: fl64_def)

lemma powi_split52: "(2::real) powi (e - 52) * 2 ^ 52 = 2 powi e"
proof -
  have "(2::real) powi (e - 52 + 52) = 2 powi (e - 52) * 2 powi 52"
    by (rule power_int_add) simp
  then show ?thesis by simp
qed

lemma fl64_rel: "\<bar>fl64 x - x\<bar> \<le> \<bar>x\<bar> / 2 ^ 53"
proof (cases "x = 0")
  case True
  then show ?thesis by simp
next
  case False
  define e where "e = \<lfloor>log 2 \<bar>x\<bar>\<rfloor>"
  define s :: real where "s = 2 powi (e - 52)"
  have s: "0 < s" unfolding s_def by (rule powi_pos2)
  have lo: "2 powi e \<le> \<bar>x\<bar>" unfolding e_def using False by (rule floor_log2)
  have f: "fl64 x = of_int (round_even (x / s)) * s"
    using False by (simp add: fl64_def Let_def e_def s_def)
  have "of_int (round_even (x / s)) * s - x = (of_int (round_even (x / s)) - x / s) * s"
    using s by (simp add: left_diff_distrib)
  then have "\<bar>fl64 x - x\<bar> = \<bar>of_int (round_even (x / s)) - x / s\<bar> * s"
    unfolding f using s by (simp only: abs_mult abs_of_pos)
  also have "\<dots> \<le> 1 / 2 * s"
    using round_even_err [of "x / s"] s by (intro mult_right_mono) simp_all
  also have "1 / 2 * s = 2 powi e / 2 ^ 53"
    using powi_split52 [of e] by (simp add: s_def field_simps)
  also have "\<dots> \<le> \<bar>x\<bar> / 2 ^ 53"
    using lo by (simp add: divide_right_mono)
  finally show ?thesis .
qed

lemma powi_shift52: "(2::real) ^ 52 * 2 powi j = 2 powi (j + 52)"
  using powi_split52 [of "j + 52"] by (simp add: mult.commute)

lemma fl64_near:
  assumes r: "r = of_int k * 2 powi j"
    and k: "2 ^ 52 \<le> \<bar>k\<bar>" "\<bar>k\<bar> < 2 ^ 53"
    and lo: "2 ^ 52 * 2 powi j \<le> \<bar>y\<bar>"
    and near: "\<bar>y - r\<bar> < 2 powi j / 2"
  shows "fl64 y = r"
proof -
  define s :: real where "s = 2 powi j"
  have s: "0 < s" unfolding s_def by (rule powi_pos2)
  have e1: "2 powi (j + 52) \<le> \<bar>y\<bar>"
    using lo by (simp only: powi_shift52)
  have "\<bar>k\<bar> \<le> 2 ^ 53 - 1" using k(2) by simp
  then have "real_of_int \<bar>k\<bar> \<le> real_of_int (2 ^ 53 - 1)"
    by (simp only: of_int_le_iff)
  then have kk: "\<bar>real_of_int k\<bar> \<le> 2 ^ 53 - 1" by simp
  have "\<bar>r\<bar> = \<bar>real_of_int k\<bar> * s"
    unfolding r s_def using powi_pos2 [of j] by (simp add: abs_mult)
  also have "\<dots> \<le> (2 ^ 53 - 1) * s"
    using kk s by (intro mult_right_mono) simp_all
  finally have rb: "\<bar>r\<bar> \<le> 2 ^ 53 * s - s" by (simp add: left_diff_distrib)
  have "\<bar>y\<bar> \<le> \<bar>r\<bar> + \<bar>y - r\<bar>" by simp
  with rb near have "\<bar>y\<bar> < 2 ^ 53 * s" unfolding s_def [symmetric] using s by linarith
  then have "\<bar>y\<bar> < 2 * (2 ^ 52 * 2 powi j)" by (simp add: s_def)
  then have "\<bar>y\<bar> < 2 * 2 powi (j + 52)" by (simp only: powi_shift52)
  moreover have "(2::real) powi (j + 52 + 1) = 2 powi (j + 52) * 2 powi 1"
    by (rule power_int_add) simp
  ultimately have e2: "\<bar>y\<bar> < 2 powi (j + 52 + 1)" by simp
  have "y / s - of_int k = (y - r) / s"
    unfolding r s_def [symmetric] using s by (simp add: diff_divide_distrib)
  then have "\<bar>y / s - of_int k\<bar> = \<bar>y - r\<bar> / s"
    using s by (simp only: abs_divide abs_of_pos)
  also have "\<dots> < 1 / 2"
    using near s unfolding s_def [symmetric] by (simp add: field_simps)
  finally have "round_even (y / s) = k" by (rule round_even_near)
  then show ?thesis
    using fl64_exponent [OF e1 e2] by (simp add: r s_def)
qed

lemma fl64_sqrt_near:
  assumes r: "r = of_int k * 2 powi j"
    and k: "2 ^ 52 \<le> k" "k < 2 ^ 53"
    and lo: "(2 ^ 52 * 2 powi j)\<^sup>2 \<le> x"
    and below: "(r - 2 powi j / 2)\<^sup>2 < x"
    and above: "x < (r + 2 powi j / 2)\<^sup>2"
  shows "Math_sqrt x = r"
  unfolding Math_sqrt_def
proof (rule fl64_near [OF r])
  have s: "0 < (2::real) powi j" by (rule powi_pos2)
  have "real_of_int (2 ^ 52) \<le> real_of_int k"
    using k(1) by (simp only: of_int_le_iff)
  then have kr: "(2::real) ^ 52 \<le> of_int k" by simp
  then have r0: "2 ^ 52 * 2 powi j \<le> r" unfolding r using s by (intro mult_right_mono) simp_all
  have p: "0 < (2::real) ^ 52 * 2 powi j" using s by simp
  show "2 ^ 52 \<le> \<bar>k\<bar>" "\<bar>k\<bar> < 2 ^ 53" using k by simp_all
  have x0: "0 \<le> x" using lo zero_le_power2 [of "2 ^ 52 * 2 powi j :: real"] by linarith
  have "2 ^ 52 * 2 powi j \<le> sqrt x"
    using lo by (rule real_le_rsqrt)
  then show "2 ^ 52 * 2 powi j \<le> \<bar>sqrt x\<bar>" by simp
  have h: "2 powi j / 2 \<le> (2::real) ^ 52 * 2 powi j" using s by simp
  have a: "r - 2 powi j / 2 < sqrt x"
    using below by (rule real_less_rsqrt)
  have "0 \<le> r + 2 powi j / 2" using r0 p s by linarith
  then have b: "sqrt x < r + 2 powi j / 2"
    using above by (intro real_less_lsqrt) (simp_all add: x0)
  from a b show "\<bar>sqrt x - r\<bar> < 2 powi j / 2" by (simp add: abs_if)
qed

lemma fl64_eq_0_iff [simp]: "fl64 x = 0 \<longleftrightarrow> x = 0"
proof
  assume z: "fl64 x = 0"
  show "x = 0"
  proof (rule ccontr)
    assume "x \<noteq> 0"
    then have "\<bar>x\<bar> / 2 ^ 53 < \<bar>x\<bar>" by (simp add: field_simps)
    with fl64_rel [of x] z show False by simp
  qed
qed simp

lemma fl64_nonneg: "0 \<le> x \<Longrightarrow> 0 \<le> fl64 x"
proof -
  assume "0 \<le> x"
  then have "\<bar>x\<bar> / 2 ^ 53 \<le> x" by (simp add: field_simps)
  with fl64_rel [of x] show ?thesis by (simp add: abs_if split: if_splits)
qed

lemma fl64_err:
  assumes "\<bar>x - t\<bar> \<le> e" and "\<bar>t\<bar> \<le> b"
  shows "\<bar>fl64 x - t\<bar> \<le> e + (b + e) / 2 ^ 53"
proof -
  have "\<bar>x\<bar> \<le> b + e" using assms by linarith
  then have "\<bar>x\<bar> / 2 ^ 53 \<le> (b + e) / 2 ^ 53" by (simp add: divide_right_mono)
  with fl64_rel [of x] assms(1) show ?thesis by linarith
qed

lemma round_even_tie:
  assumes "\<bar>y - of_int k\<bar> = 1 / 2" and "even k"
  shows "round_even y = k"
proof -
  consider "y = of_int k + 1 / 2" | "y = of_int k - 1 / 2"
    using assms(1) by (auto simp: abs_if split: if_splits)
  then show ?thesis
  proof cases
    case 1
    then have "\<lfloor>y\<rfloor> = k" by linarith
    with 1 assms(2) show ?thesis by (simp add: round_even_def Let_def)
  next
    case 2
    then have "\<lfloor>y\<rfloor> = k - 1" by linarith
    with 2 assms(2) show ?thesis by (simp add: round_even_def Let_def)
  qed
qed

lemma fl64_tie:
  assumes r: "r = of_int k * 2 powi j"
    and k: "2 ^ 52 \<le> \<bar>k\<bar>" "\<bar>k\<bar> < 2 ^ 53" "even k"
    and lo: "2 ^ 52 * 2 powi j \<le> \<bar>y\<bar>"
    and tie: "\<bar>y - r\<bar> = 2 powi j / 2"
  shows "fl64 y = r"
proof -
  define s :: real where "s = 2 powi j"
  have s: "0 < s" unfolding s_def by (rule powi_pos2)
  have e1: "2 powi (j + 52) \<le> \<bar>y\<bar>"
    using lo by (simp only: powi_shift52)
  have "\<bar>k\<bar> \<le> 2 ^ 53 - 1" using k(2) by simp
  then have "real_of_int \<bar>k\<bar> \<le> real_of_int (2 ^ 53 - 1)"
    by (simp only: of_int_le_iff)
  then have kk: "\<bar>real_of_int k\<bar> \<le> 2 ^ 53 - 1" by simp
  have "\<bar>r\<bar> = \<bar>real_of_int k\<bar> * s"
    unfolding r s_def using powi_pos2 [of j] by (simp add: abs_mult)
  also have "\<dots> \<le> (2 ^ 53 - 1) * s"
    using kk s by (intro mult_right_mono) simp_all
  finally have rb: "\<bar>r\<bar> \<le> 2 ^ 53 * s - s" by (simp add: left_diff_distrib)
  have "\<bar>y\<bar> \<le> \<bar>r\<bar> + \<bar>y - r\<bar>" by simp
  with rb tie have "\<bar>y\<bar> < 2 ^ 53 * s" unfolding s_def [symmetric] using s by linarith
  then have "\<bar>y\<bar> < 2 * (2 ^ 52 * 2 powi j)" by (simp add: s_def)
  then have "\<bar>y\<bar> < 2 * 2 powi (j + 52)" by (simp only: powi_shift52)
  moreover have "(2::real) powi (j + 52 + 1) = 2 powi (j + 52) * 2 powi 1"
    by (rule power_int_add) simp
  ultimately have e2: "\<bar>y\<bar> < 2 powi (j + 52 + 1)" by simp
  have "y / s - of_int k = (y - r) / s"
    unfolding r s_def [symmetric] using s by (simp add: diff_divide_distrib)
  then have "\<bar>y / s - of_int k\<bar> = \<bar>y - r\<bar> / s"
    using s by (simp only: abs_divide abs_of_pos)
  also have "\<dots> = 1 / 2"
    using tie s unfolding s_def [symmetric] by simp
  finally have "round_even (y / s) = k" using k(3) by (rule round_even_tie)
  then show ?thesis
    using fl64_exponent [OF e1 e2] by (simp add: r s_def)
qed

subsection \<open>The logarithm of 2/3\<close>

lemma exp_taylor_lower:
  fixes x :: real
  assumes "0 \<le> x"
  shows "(\<Sum>m<n. x ^ m / fact m) \<le> exp x"
proof -
  obtain t where "exp x = (\<Sum>m<n. x ^ m / fact m) + (exp t / fact n) * x ^ n"
    using Maclaurin_exp_le [of x n] by blast
  moreover have "0 \<le> (exp t / fact n) * x ^ n"
    using assms by simp
  ultimately show ?thesis by linarith
qed

lemma exp_taylor_upper:
  fixes x :: real
  assumes "0 \<le> x" and "x \<le> 1 / 2"
  shows "exp x \<le> (\<Sum>m<n. x ^ m / fact m) + 2 * x ^ n / fact n"
proof -
  obtain t where t: "\<bar>t\<bar> \<le> \<bar>x\<bar>"
    and e: "exp x = (\<Sum>m<n. x ^ m / fact m) + (exp t / fact n) * x ^ n"
    using Maclaurin_exp_le [of x n] by blast
  have "norm t \<le> 1 / 2" using t assms by simp
  then have "norm (exp t) \<le> 2" by (rule exp_bound_half)
  then have "exp t \<le> 2" by simp
  then have "exp t * (x ^ n / fact n) \<le> 2 * (x ^ n / fact n)"
    using assms(1) by (intro mult_right_mono) simp_all
  with e show ?thesis by simp
qed

lemma taylor16:
  fixes x :: real
  shows "(\<Sum>m<16. x ^ m / fact m) =
    1 + x * (1 + x / 2 * (1 + x / 3 * (1 + x / 4 * (1 + x / 5 * (1 + x / 6 * (1 + x / 7 *
    (1 + x / 8 * (1 + x / 9 * (1 + x / 10 * (1 + x / 11 * (1 + x / 12 * (1 + x / 13 *
    (1 + x / 14 * (1 + x / 15))))))))))))))"
  by (simp add: eval_nat_numeral lessThan_Suc) (simp add: field_simps)

lemma ln_two_thirds_bounds:
  "14608420078301337 / 36028797018963968 < - ln (6004799503160661 / 9007199254740992 :: real)"
  "- ln (6004799503160661 / 9007199254740992 :: real) < 14608420078301339 / 36028797018963968"
proof -
  let ?lo = "14608420078301337 / 36028797018963968 :: real"
  let ?hi = "14608420078301339 / 36028797018963968 :: real"
  let ?c = "9007199254740992 / 6004799503160661 :: real"
  have "exp ?lo \<le> (\<Sum>m<16. ?lo ^ m / fact m) + 2 * ?lo ^ 16 / fact 16"
    by (rule exp_taylor_upper) simp_all
  also have "\<dots> \<le> (\<Sum>m<16. ?lo ^ m / fact m) + 1 / 600000000000000000"
  proof -
    have "?lo ^ 16 \<le> (1 / 2) ^ 16"
      by (rule power_mono) simp_all
    then have "2 * ?lo ^ 16 / fact 16 \<le> 2 * (1 / 2) ^ 16 / fact 16"
      by (simp add: divide_right_mono)
    also have "\<dots> \<le> 1 / 600000000000000000"
      by (simp add: fact_numeral power_one_over)
    finally show ?thesis by simp
  qed
  also have "\<dots> < ?c"
    unfolding taylor16 by simp
  finally have "ln (exp ?lo) < ln ?c"
    by (subst ln_less_cancel_iff) simp_all
  then have lo: "?lo < ln ?c" by simp
  have "?c < (\<Sum>m<16. ?hi ^ m / fact m)"
    unfolding taylor16 by simp
  also have "\<dots> \<le> exp ?hi"
    by (rule exp_taylor_lower) simp
  finally have "ln ?c < ln (exp ?hi)"
    by (subst ln_less_cancel_iff) simp_all
  then have hi: "ln ?c < ?hi" by simp
  have "ln ?c = - ln (6004799503160661 / 9007199254740992 :: real)"
    using ln_inverse [of "6004799503160661 / 9007199254740992 :: real"] by simp
  with lo hi show
    "?lo < - ln (6004799503160661 / 9007199254740992 :: real)"
    "- ln (6004799503160661 / 9007199254740992 :: real) < ?hi"
    by simp_all
qed

lemma log_two_thirds:
  "Math_log (6004799503160661 / 9007199254740992) = - (7304210039150669 / 18014398509481984)"
  unfolding Math_log_def
  using ln_two_thirds_bounds
  by (intro fl64_near [where k = "- 7304210039150669" and j = "- 54"]) (simp_all add: abs_if)

subsection \<open>The operations of one asymmetric pair of texts\<close>

text \<open>
  Each lemma is one rounded operation of the two calls compared below, with the double
  it returns.
\<close>

lemma dbl_1: "fl64 (2 / 3) = 6004799503160661 / 9007199254740992"
  by (rule fl64_near [where k = "6004799503160661" and j = "-53"]) simp_all

lemma dbl_2: "fl64 (10710188470331315 / 18014398509481984) = 2677547117582829 / 4503599627370496"
  by (rule fl64_tie [where k = "5355094235165658" and j = "-53"]) simp_all

lemma dbl_3: "fl64 (2677547117582829 / 4503599627370496) = 2677547117582829 / 4503599627370496"
  by (rule fl64_near [where k = "5355094235165658" and j = "-53"]) simp_all

lemma dbl_4: "fl64 (2677547117582829 / 2251799813685248) = 2677547117582829 / 2251799813685248"
  by (rule fl64_near [where k = "5355094235165658" and j = "-52"]) simp_all

lemma dbl_5: "fl64 (8032641352748487 / 4503599627370496) = 8032641352748487 / 4503599627370496"
  by (rule fl64_near [where k = "8032641352748487" and j = "-52"]) simp_all

lemma dbl_6: "fl64 (13387735587914145 / 4503599627370496) = 418366737122317 / 140737488355328"
  by (rule fl64_tie [where k = "6693867793957072" and j = "-51"]) simp_all

lemma dbl_7: "fl64 (8032641352748487 / 2251799813685248) = 8032641352748487 / 2251799813685248"
  by (rule fl64_near [where k = "8032641352748487" and j = "-51"]) simp_all

lemma dbl_8: "fl64 (64523327101885043159829080789169 / 10141204801825835211973625643008) = 7163528337393315 / 1125899906842624"
  by (rule fl64_near [where k = "7163528337393315" and j = "-50"]) simp_all

lemma dbl_9: "fl64 (7163528337393315 / 1125899906842624) = 7163528337393315 / 1125899906842624"
  by (rule fl64_near [where k = "7163528337393315" and j = "-50"]) simp_all

lemma dbl_10: "fl64 (7169258566876115906647675643241 / 10141204801825835211973625643008) = 6367580744349613 / 9007199254740992"
  by (rule fl64_near [where k = "6367580744349613" and j = "-53"]) simp_all

lemma dbl_11: "fl64 (63675807443496133 / 9007199254740992) = 7959475930437017 / 1125899906842624"
  by (rule fl64_near [where k = "7959475930437017" and j = "-50"]) simp_all

lemma dbl_12: "fl64 (7169258566876115906647675643241 / 20282409603651670423947251286016) = 6367580744349613 / 18014398509481984"
  by (rule fl64_near [where k = "6367580744349613" and j = "-54"]) simp_all

lemma dbl_13: "fl64 (133719195631341885 / 18014398509481984) = 2089362431739717 / 281474976710656"
  by (rule fl64_near [where k = "8357449726958868" and j = "-50"]) simp_all

lemma dbl_14: "fl64 (1120196651074393026740351894793 / 633825300114114700748351602688) = 994934491304627 / 562949953421312"
  by (rule fl64_near [where k = "7959475930437016" and j = "-52"]) simp_all

lemma dbl_15: "fl64 (5173659354784061 / 562949953421312) = 5173659354784061 / 562949953421312"
  by (rule fl64_near [where k = "5173659354784061" and j = "-49"]) simp_all

lemma dbl_16: "fl64 (171924680097439565 / 18014398509481984) = 2686323126522493 / 281474976710656"
  by (rule fl64_near [where k = "5372646253044986" and j = "-49"]) simp_all

lemma dbl_17: "fl64 (64523327101885043159829080789169 / 20282409603651670423947251286016) = 7163528337393315 / 2251799813685248"
  by (rule fl64_near [where k = "7163528337393315" and j = "-51"]) simp_all

lemma dbl_18: "fl64 (7163528337393315 / 2251799813685248) = 7163528337393315 / 2251799813685248"
  by (rule fl64_near [where k = "7163528337393315" and j = "-51"]) simp_all

lemma dbl_19: "fl64 (7169258566876115906647675643241 / 5070602400912917605986812821504) = 6367580744349613 / 4503599627370496"
  by (rule fl64_near [where k = "6367580744349613" and j = "-52"]) simp_all

lemma dbl_20: "fl64 (20694637419136243 / 4503599627370496) = 5173659354784061 / 1125899906842624"
  by (rule fl64_near [where k = "5173659354784061" and j = "-50"]) simp_all

lemma dbl_21: "fl64 (89146130420894589 / 18014398509481984) = 696454143913239 / 140737488355328"
  by (rule fl64_near [where k = "5571633151305912" and j = "-50"]) simp_all

lemma dbl_22: "fl64 (95513711165244205 / 18014398509481984) = 5969606947827763 / 1125899906842624"
  by (rule fl64_near [where k = "5969606947827763" and j = "-50"]) simp_all

lemma dbl_23: "fl64 (101881291909593821 / 18014398509481984) = 3183790372174807 / 562949953421312"
  by (rule fl64_near [where k = "6367580744349614" and j = "-50"]) simp_all

lemma dbl_24: "fl64 (64523327101885043159829080789169 / 5070602400912917605986812821504) = 7163528337393315 / 562949953421312"
  by (rule fl64_near [where k = "7163528337393315" and j = "-49"]) simp_all

lemma dbl_25: "fl64 (7163528337393315 / 562949953421312) = 7163528337393315 / 562949953421312"
  by (rule fl64_near [where k = "7163528337393315" and j = "-49"]) simp_all

lemma dbl_26: "fl64 (235600487540935693 / 18014398509481984) = 230078601114195 / 17592186044416"
  by (rule fl64_near [where k = "7362515235654240" and j = "-49"]) simp_all

lemma dbl_27: "fl64 (241968068285285293 / 18014398509481984) = 7561502133915165 / 562949953421312"
  by (rule fl64_near [where k = "7561502133915165" and j = "-49"]) simp_all

lemma dbl_28: "fl64 (175030726730373897354219448489 / 19807040628566084398385987584) = 4974672456523135 / 562949953421312"
  by (rule fl64_near [where k = "4974672456523135" and j = "-49"]) simp_all

lemma dbl_29: "fl64 (3134043647609575 / 140737488355328) = 3134043647609575 / 140737488355328"
  by (rule fl64_near [where k = "6268087295219150" and j = "-48"]) simp_all

lemma dbl_30: "fl64 (407525167638375213 / 18014398509481984) = 6367580744349613 / 281474976710656"
  by (rule fl64_near [where k = "6367580744349613" and j = "-48"]) simp_all

lemma dbl_31: "Math_sqrt (3183790372174807 / 562949953421312) = 2677547117582829 / 1125899906842624"
  by (rule fl64_sqrt_near [where k = "5355094235165658" and j = "-51"]) (simp_all add: power2_eq_square)

lemma dbl_32: "Math_sqrt (6367580744349613 / 281474976710656) = 2677547117582829 / 562949953421312"
  by (rule fl64_sqrt_near [where k = "5355094235165658" and j = "-50"]) (simp_all add: power2_eq_square)

lemma dbl_33: "fl64 (7169258566876115906647675643241 / 633825300114114700748351602688) = 6367580744349613 / 562949953421312"
  by (rule fl64_near [where k = "6367580744349613" and j = "-49"]) simp_all

lemma dbl_34: "fl64 (5372646253044986 / 6367580744349613) = 27 / 32"
  by (rule fl64_near [where k = "7599824371187712" and j = "-53"]) simp_all

lemma dbl_35: "fl64 (675 / 8) = 675 / 8"
  by (rule fl64_near [where k = "5937362789990400" and j = "-46"]) simp_all

lemma dbl_36: "fl64 (16875 / 2) = 16875 / 2"
  by (rule fl64_near [where k = "4638564679680000" and j = "-39"]) simp_all

lemma dbl_37: "fl64 (4219 / 50) = 742214329213911 / 8796093022208"
  by (rule fl64_near [where k = "5937714633711288" and j = "-46"]) simp_all

lemma dbl_38: "fl64 (9153397320002569 / 1125899906842624) = 1144174665000321 / 140737488355328"
  by (rule fl64_tie [where k = "4576698660001284" and j = "-49"]) simp_all

lemma dbl_39: "fl64 (152821937864390701 / 18014398509481984) = 4775685558262209 / 562949953421312"
  by (rule fl64_near [where k = "4775685558262209" and j = "-49"]) simp_all

lemma dbl_40: "fl64 (159189518608740301 / 18014398509481984) = 2487336228261567 / 281474976710656"
  by (rule fl64_near [where k = "4974672456523134" and j = "-49"]) simp_all

lemma dbl_41: "fl64 (85962340048719757 / 9007199254740992) = 5372646253044985 / 562949953421312"
  by (rule fl64_near [where k = "5372646253044985" and j = "-49"]) simp_all

lemma dbl_42: "fl64 (6069100396958225 / 281474976710656) = 6069100396958225 / 281474976710656"
  by (rule fl64_near [where k = "6069100396958225" and j = "-48"]) simp_all

lemma dbl_43: "fl64 (394790006149676013 / 18014398509481984) = 385537115380543 / 17592186044416"
  by (rule fl64_near [where k = "6168593846088688" and j = "-48"]) simp_all

lemma dbl_44: "fl64 (401157586894025645 / 18014398509481984) = 6268087295219151 / 281474976710656"
  by (rule fl64_near [where k = "6268087295219151" and j = "-48"]) simp_all

lemma dbl_45: "fl64 (407525167638375277 / 18014398509481984) = 3183790372174807 / 140737488355328"
  by (rule fl64_near [where k = "6367580744349614" and j = "-48"]) simp_all

lemma dbl_46: "fl64 (63675807443496133 / 18014398509481984) = 7959475930437017 / 2251799813685248"
  by (rule fl64_near [where k = "7959475930437017" and j = "-51"]) simp_all

lemma dbl_47: "fl64 (70043388187845749 / 18014398509481984) = 8755423523480719 / 2251799813685248"
  by (rule fl64_near [where k = "8755423523480719" and j = "-51"]) simp_all

lemma dbl_48: "fl64 (76410968932195365 / 18014398509481984) = 2387842779131105 / 562949953421312"
  by (rule fl64_near [where k = "4775685558262210" and j = "-50"]) simp_all

lemma dbl_49: "fl64 (25470322977398453 / 4503599627370496) = 6367580744349613 / 1125899906842624"
  by (rule fl64_near [where k = "6367580744349613" and j = "-50"]) simp_all

lemma dbl_50: "Math_sqrt (3183790372174807 / 140737488355328) = 2677547117582829 / 562949953421312"
  by (rule fl64_sqrt_near [where k = "5355094235165658" and j = "-50"]) (simp_all add: power2_eq_square)

lemma dbl_51: "Math_sqrt (6367580744349613 / 1125899906842624) = 2677547117582829 / 1125899906842624"
  by (rule fl64_sqrt_near [where k = "5355094235165658" and j = "-51"]) (simp_all add: power2_eq_square)

lemma dbl_52: "fl64 (5372646253044985 / 6367580744349613) = 7599824371187711 / 9007199254740992"
  by (rule fl64_near [where k = "7599824371187711" and j = "-53"]) simp_all

lemma dbl_53: "fl64 (189995609279692775 / 2251799813685248) = 5937362789990399 / 70368744177664"
  by (rule fl64_near [where k = "5937362789990399" and j = "-46"]) simp_all

lemma dbl_54: "fl64 (148434069749759975 / 17592186044416) = 4638564679679999 / 549755813888"
  by (rule fl64_near [where k = "4638564679679999" and j = "-39"]) simp_all

lemma dbl_55: "fl64 (8437 / 100) = 742126368283689 / 8796093022208"
  by (rule fl64_near [where k = "5937010946269512" and j = "-46"]) simp_all

lemmas dbl_rules =
  dbl_1 dbl_2 dbl_3 dbl_4 dbl_5 dbl_6 dbl_7 dbl_8 dbl_9 dbl_10
  dbl_11 dbl_12 dbl_13 dbl_14 dbl_15 dbl_16 dbl_17 dbl_18 dbl_19 dbl_20
  dbl_21 dbl_22 dbl_23 dbl_24 dbl_25 dbl_26 dbl_27 dbl_28 dbl_29 dbl_30
  dbl_31 dbl_32 dbl_33 dbl_34 dbl_35 dbl_36 dbl_37 dbl_38 dbl_39 dbl_40
  dbl_41 dbl_42 dbl_43 dbl_44 dbl_45 dbl_46 dbl_47 dbl_48 dbl_49 dbl_50
  dbl_51 dbl_52 dbl_53 dbl_54 dbl_55

subsection \<open>The two call orders at this pair\<close>

text \<open>
  The resume text has the words java, python and react once, docker twice and linux three
  times; the job description has java, react and docker once, python five times and linux
  six times. No word is a stop word, and every word is in both documents, so every weight
  is a count times the double \<open>1 + Math.log(2 / 3)\<close>.
\<close>

lemma docA:
  "buildDocument (toLowerCase ''java python react docker docker linux linux linux'') =
     [(''java'', 1),
      (''python'', 1),
      (''react'', 1),
      (''docker'', 2),
      (''linux'', 3)]"
  by (simp add: buildDocument_def toLowerCase_def lower_char_def in_range_def code_def
      is_word_char_def is_upper_def is_lower_def is_digit_def natural_stopwords_def)

lemma docB:
  "buildDocument (toLowerCase
     ''java python python python python python react docker linux linux linux linux linux linux'') =
     [(''java'', 1),
      (''python'', 5),
      (''react'', 1),
      (''docker'', 1),
      (''linux'', 6)]"
  by (simp add: buildDocument_def toLowerCase_def lower_char_def in_range_def code_def
      is_word_char_def is_upper_def is_lower_def is_digit_def natural_stopwords_def)

lemmas list64_eval =
  natural_TfIdf64_def Let_def docA docB idf64_def documentHasTerm_def js_sort_def
  by_weight_desc_def dbl_rules log_two_thirds

lemma termsA:
  "natural_TfIdf64
     [toLowerCase ''java python react docker docker linux linux linux'',
      toLowerCase ''java python python python python python react docker linux linux linux linux linux linux''] 0 =
   Inr [(''linux'', 8032641352748487 / 4503599627370496),
        (''docker'', 2677547117582829 / 2251799813685248),
        (''java'', 2677547117582829 / 4503599627370496),
        (''python'', 2677547117582829 / 4503599627370496),
        (''react'', 2677547117582829 / 4503599627370496)]"
  "natural_TfIdf64
     [toLowerCase ''java python python python python python react docker linux linux linux linux linux linux'',
      toLowerCase ''java python react docker docker linux linux linux''] 1 =
   Inr [(''linux'', 8032641352748487 / 4503599627370496),
        (''docker'', 2677547117582829 / 2251799813685248),
        (''java'', 2677547117582829 / 4503599627370496),
        (''python'', 2677547117582829 / 4503599627370496),
        (''react'', 2677547117582829 / 4503599627370496)]"
  by (simp_all add: list64_eval)

lemma termsB:
  "natural_TfIdf64
     [toLowerCase ''java python react docker docker linux linux linux'',
      toLowerCase ''java python python python python python react docker linux linux linux linux linux linux''] 1 =
   Inr [(''linux'', 8032641352748487 / 2251799813685248),
        (''python'', 418366737122317 / 140737488355328),
        (''java'', 2677547117582829 / 4503599627370496),
        (''react'', 2677547117582829 / 4503599627370496),
        (''docker'', 2677547117582829 / 4503599627370496)]"
  "natural_TfIdf64
     [toLowerCase ''java python python python python python react docker linux linux linux linux linux linux'',
      toLowerCase ''java python react docker docker linux linux linux''] 0 =
   Inr [(''linux'', 8032641352748487 / 2251799813685248),
        (''python'', 418366737122317 / 140737488355328),
        (''java'', 2677547117582829 / 4503599627370496),
        (''react'', 2677547117582829 / 4503599627370496),
        (''docker'', 2677547117582829 / 4503599627370496)]"
  by (simp_all add: list64_eval)

lemmas score64_eval =
  score_terms64_def Let_def new_Set_def set_add_def vector_of_def dot_reduce64_def
  square_reduce64_def Math_round_def dbl_rules

lemma scoreAB:
  "score_terms64
     [(''linux'', 8032641352748487 / 4503599627370496),
      (''docker'', 2677547117582829 / 2251799813685248),
      (''java'', 2677547117582829 / 4503599627370496),
      (''python'', 2677547117582829 / 4503599627370496),
      (''react'', 2677547117582829 / 4503599627370496)]
     [(''linux'', 8032641352748487 / 2251799813685248),
      (''python'', 418366737122317 / 140737488355328),
      (''java'', 2677547117582829 / 4503599627370496),
      (''react'', 2677547117582829 / 4503599627370496),
      (''docker'', 2677547117582829 / 4503599627370496)] = 742214329213911 / 8796093022208"
  by (simp add: score64_eval)

lemma scoreBA:
  "score_terms64
     [(''linux'', 8032641352748487 / 2251799813685248),
      (''python'', 418366737122317 / 140737488355328),
      (''java'', 2677547117582829 / 4503599627370496),
      (''react'', 2677547117582829 / 4503599627370496),
      (''docker'', 2677547117582829 / 4503599627370496)]
     [(''linux'', 8032641352748487 / 4503599627370496),
      (''docker'', 2677547117582829 / 2251799813685248),
      (''java'', 2677547117582829 / 4503599627370496),
      (''python'', 2677547117582829 / 4503599627370496),
      (''react'', 2677547117582829 / 4503599627370496)] = 742126368283689 / 8796093022208"
  by (simp add: score64_eval)

section \<open>The distance between the two call orders\<close>

text \<open>
  A sum of at most a million rounded products, each addition rounded, is within the
  fraction \<open>2\<^sup>-\<^sup>3\<^sup>0\<close> of the sum of the absolute values from the exact sum, in whatever order
  the terms are added.
\<close>

lemma unit_power_bound:
  "real m \<le> 2 ^ 52 \<Longrightarrow> (1 + 1 / 2 ^ 53) ^ m \<le> 1 + real m / (2 ^ 52 :: real)"
proof (induction m)
  case 0
  show ?case by simp
next
  case (Suc m)
  then have m: "real m \<le> 2 ^ 52" by simp
  with Suc.IH have ih: "(1 + 1 / 2 ^ 53) ^ m \<le> 1 + real m / (2 ^ 52 :: real)" by simp
  have "(1 + 1 / 2 ^ 53 :: real) ^ Suc m = (1 + 1 / 2 ^ 53) * (1 + 1 / 2 ^ 53) ^ m" by simp
  also have "\<dots> \<le> (1 + 1 / 2 ^ 53) * (1 + real m / 2 ^ 52)"
    using ih by (intro mult_left_mono) simp_all
  also have "\<dots> \<le> 1 + real (Suc m) / 2 ^ 52"
    using m by (simp add: field_simps)
  finally show ?case .
qed

lemma fold_fl64_sum:
  fixes g :: "'a \<Rightarrow> real"
  shows "\<bar>fold (\<lambda>x s. fl64 (s + g x)) xs 0 - sum_list (map g xs)\<bar>
         \<le> ((1 + 1 / 2 ^ 53) ^ length xs - 1) * sum_list (map (\<lambda>x. \<bar>g x\<bar>) xs)"
proof (induction xs rule: rev_induct)
  case Nil
  show ?case by simp
next
  case (snoc x xs)
  define u :: real where "u = 1 / 2 ^ 53"
  define s where "s = fold (\<lambda>x s. fl64 (s + g x)) xs 0"
  define S where "S = sum_list (map g xs)"
  define T where "T = sum_list (map (\<lambda>x. \<bar>g x\<bar>) xs)"
  define c where "c = (1 + u) ^ length xs - 1"
  have u: "0 < u" by (simp add: u_def)
  have c: "0 \<le> c" unfolding c_def using u by (simp add: one_le_power)
  have T: "0 \<le> T" unfolding T_def by (rule sum_list_nonneg) auto
  have ST: "\<bar>S\<bar> \<le> T"
    unfolding S_def T_def using sum_list_abs [of "map g xs"] by (simp add: comp_def)
  have E: "\<bar>s - S\<bar> \<le> c * T"
    using snoc.IH unfolding s_def S_def T_def c_def u_def .
  have r: "\<bar>fl64 (s + g x) - (s + g x)\<bar> \<le> \<bar>s + g x\<bar> * u"
    using fl64_rel [of "s + g x"] by (simp add: u_def)
  have a: "\<bar>s + g x\<bar> \<le> T + c * T + \<bar>g x\<bar>" using E ST by linarith
  have "\<bar>fl64 (s + g x) - (S + g x)\<bar> \<le> \<bar>s + g x\<bar> * u + c * T" using r E by linarith
  also have "\<dots> \<le> (T + c * T + \<bar>g x\<bar>) * u + c * T"
    using a u by (simp add: mult_right_mono)
  also have "\<dots> \<le> ((1 + u) * (1 + c) - 1) * (T + \<bar>g x\<bar>)"
  proof -
    have "0 \<le> c * \<bar>g x\<bar> + u * c * \<bar>g x\<bar>" using c u by simp
    then show ?thesis by (simp add: algebra_simps)
  qed
  finally have "\<bar>fl64 (s + g x) - (S + g x)\<bar> \<le> ((1 + u) * (1 + c) - 1) * (T + \<bar>g x\<bar>)" .
  moreover have "(1 + u) * (1 + c) - 1 = (1 + u) ^ length (xs @ [x]) - 1" by (simp add: c_def)
  ultimately have final:
    "\<bar>fl64 (s + g x) - (S + g x)\<bar> \<le> ((1 + u) ^ length (xs @ [x]) - 1) * (T + \<bar>g x\<bar>)"
    by simp
  have e1: "fold (\<lambda>x s. fl64 (s + g x)) (xs @ [x]) 0 = fl64 (s + g x)" by (simp add: s_def)
  have e2: "sum_list (map g (xs @ [x])) = S + g x" by (simp add: S_def)
  have e3: "sum_list (map (\<lambda>x. \<bar>g x\<bar>) (xs @ [x])) = T + \<bar>g x\<bar>" by (simp add: T_def)
  show ?case unfolding e1 e2 e3 using final unfolding u_def .
qed

lemma rounded_terms_sum:
  fixes f :: "'a \<Rightarrow> real"
  shows "\<bar>sum_list (map (\<lambda>x. fl64 (f x)) xs) - sum_list (map f xs)\<bar>
           \<le> sum_list (map (\<lambda>x. \<bar>f x\<bar>) xs) / 2 ^ 53"
proof (induction xs)
  case Nil
  show ?case by simp
next
  case (Cons x xs)
  let ?A = "sum_list (map (\<lambda>x. fl64 (f x)) xs)"
  let ?B = "sum_list (map f xs)"
  let ?F = "sum_list (map (\<lambda>x. \<bar>f x\<bar>) xs)"
  have r: "\<bar>fl64 (f x) - f x\<bar> \<le> \<bar>f x\<bar> / 2 ^ 53" by (rule fl64_rel)
  have "\<bar>(fl64 (f x) + ?A) - (f x + ?B)\<bar> \<le> \<bar>fl64 (f x) - f x\<bar> + \<bar>?A - ?B\<bar>" by linarith
  also have "\<dots> \<le> \<bar>f x\<bar> / 2 ^ 53 + ?F / 2 ^ 53" using r Cons.IH by linarith
  also have "\<dots> = (\<bar>f x\<bar> + ?F) / 2 ^ 53" by (simp add: add_divide_distrib)
  finally show ?case by simp
qed

lemma rounded_terms_abs:
  fixes f :: "'a \<Rightarrow> real"
  shows "sum_list (map (\<lambda>x. \<bar>fl64 (f x)\<bar>) xs)
           \<le> sum_list (map (\<lambda>x. \<bar>f x\<bar>) xs) * (1 + 1 / 2 ^ 53)"
proof (induction xs)
  case Nil
  show ?case by simp
next
  case (Cons x xs)
  let ?G = "sum_list (map (\<lambda>x. \<bar>fl64 (f x)\<bar>) xs)"
  let ?F = "sum_list (map (\<lambda>x. \<bar>f x\<bar>) xs)"
  have r: "\<bar>fl64 (f x) - f x\<bar> \<le> \<bar>f x\<bar> / 2 ^ 53" by (rule fl64_rel)
  have "\<bar>fl64 (f x)\<bar> \<le> \<bar>f x\<bar> + \<bar>fl64 (f x) - f x\<bar>" by linarith
  also have "\<dots> \<le> \<bar>f x\<bar> + \<bar>f x\<bar> / 2 ^ 53" using r by linarith
  also have "\<dots> = \<bar>f x\<bar> * (1 + 1 / 2 ^ 53)" by (simp add: algebra_simps)
  finally have "\<bar>fl64 (f x)\<bar> + ?G \<le> \<bar>f x\<bar> * (1 + 1 / 2 ^ 53) + ?F * (1 + 1 / 2 ^ 53)"
    using Cons.IH by linarith
  also have "\<dots> = (\<bar>f x\<bar> + ?F) * (1 + 1 / 2 ^ 53)" by (simp only: distrib_right)
  finally show ?case by simp
qed

lemma fold_fl64_products:
  fixes f :: "'a \<Rightarrow> real"
  assumes "length xs \<le> 1000000"
  shows "\<bar>fold (\<lambda>x s. fl64 (s + fl64 (f x))) xs 0 - sum_list (map f xs)\<bar>
           \<le> sum_list (map (\<lambda>x. \<bar>f x\<bar>) xs) / 2 ^ 30"
proof -
  define F where "F = sum_list (map (\<lambda>x. \<bar>f x\<bar>) xs)"
  define G where "G = sum_list (map (\<lambda>x. \<bar>fl64 (f x)\<bar>) xs)"
  define c :: real where "c = (1 + 1 / 2 ^ 53) ^ length xs - 1"
  have F: "0 \<le> F" unfolding F_def by (rule sum_list_nonneg) auto
  have G: "0 \<le> G" unfolding G_def by (rule sum_list_nonneg) auto
  have "real (length xs) \<le> 1000000" using assms by simp
  then have n: "real (length xs) \<le> 2 ^ 52" by simp
  have c0: "0 \<le> c" unfolding c_def by (simp add: one_le_power)
  have "c \<le> real (length xs) / 2 ^ 52"
    unfolding c_def using unit_power_bound [OF n] by simp
  also have "\<dots> \<le> 1000000 / 2 ^ 52" using assms by (simp add: divide_right_mono)
  finally have c: "c \<le> 1000000 / 2 ^ 52" .
  have GF: "G \<le> F * (1 + 1 / 2 ^ 53)" unfolding G_def F_def by (rule rounded_terms_abs)
  have "c * G \<le> (1000000 / 2 ^ 52) * (F * (1 + 1 / 2 ^ 53))"
    using c GF c0 G by (intro mult_mono) simp_all
  moreover have "\<bar>fold (\<lambda>x s. fl64 (s + fl64 (f x))) xs 0 - sum_list (map (\<lambda>x. fl64 (f x)) xs)\<bar> \<le> c * G"
    unfolding c_def G_def by (rule fold_fl64_sum)
  moreover have "\<bar>sum_list (map (\<lambda>x. fl64 (f x)) xs) - sum_list (map f xs)\<bar> \<le> F / 2 ^ 53"
    unfolding F_def by (rule rounded_terms_sum)
  ultimately have "\<bar>fold (\<lambda>x s. fl64 (s + fl64 (f x))) xs 0 - sum_list (map f xs)\<bar>
      \<le> (1000000 / 2 ^ 52) * (F * (1 + 1 / 2 ^ 53)) + F / 2 ^ 53" by linarith
  also have "\<dots> \<le> F / 2 ^ 30" using F by simp
  finally show ?thesis unfolding F_def .
qed

lemma weighted_products:
  fixes f g :: "'a \<Rightarrow> real"
  shows "2 * a * b * sum_list (map (\<lambda>x. \<bar>f x * g x\<bar>) xs)
         \<le> b * b * sum_list (map (\<lambda>x. f x * f x) xs) + a * a * sum_list (map (\<lambda>x. g x * g x) xs)"
proof (induction xs)
  case Nil
  show ?case by simp
next
  case (Cons x xs)
  have "0 \<le> (b * \<bar>f x\<bar> - a * \<bar>g x\<bar>) * (b * \<bar>f x\<bar> - a * \<bar>g x\<bar>)" by simp
  also have "\<dots> = b * b * (\<bar>f x\<bar> * \<bar>f x\<bar>) + a * a * (\<bar>g x\<bar> * \<bar>g x\<bar>) - 2 * a * b * (\<bar>f x\<bar> * \<bar>g x\<bar>)"
    by (simp add: algebra_simps)
  finally have "2 * a * b * \<bar>f x * g x\<bar> \<le> b * b * (f x * f x) + a * a * (g x * g x)"
    by (simp add: abs_mult)
  with Cons.IH show ?case by (simp add: algebra_simps)
qed

lemma sum_products_bound:
  fixes f g :: "'a \<Rightarrow> real"
  assumes "0 < sum_list (map (\<lambda>x. f x * f x) xs)" and "0 < sum_list (map (\<lambda>x. g x * g x) xs)"
  shows "sum_list (map (\<lambda>x. \<bar>f x * g x\<bar>) xs)
         \<le> sqrt (sum_list (map (\<lambda>x. f x * f x) xs)) * sqrt (sum_list (map (\<lambda>x. g x * g x) xs))"
proof -
  define S1 where "S1 = sum_list (map (\<lambda>x. f x * f x) xs)"
  define S2 where "S2 = sum_list (map (\<lambda>x. g x * g x) xs)"
  define P where "P = sum_list (map (\<lambda>x. \<bar>f x * g x\<bar>) xs)"
  define a where "a = sqrt S1"
  define b where "b = sqrt S2"
  have a: "0 < a" and b: "0 < b" using assms by (simp_all add: a_def b_def S1_def S2_def)
  have aa: "a * a = S1" and bb: "b * b = S2" using assms by (simp_all add: a_def b_def S1_def S2_def)
  have "2 * a * b * P \<le> b * b * S1 + a * a * S2"
    unfolding P_def S1_def S2_def by (rule weighted_products)
  also have "\<dots> = 2 * a * b * (a * b)" by (simp add: aa [symmetric] bb [symmetric])
  finally have "P \<le> a * b" using a b by simp
  then show ?thesis unfolding P_def a_def b_def S1_def S2_def .
qed

text \<open>
  From the sums to the number given to \<^verbatim>\<open>Math.round\<close>: two square roots, a product, a
  quotient and two multiplications by 100, each rounded.
\<close>

lemma abs_diff_lower: "\<bar>x - a\<bar> \<le> r \<Longrightarrow> a - r \<le> x" for x :: real
  by linarith

lemma abs_diff_abs: "\<bar>x - a\<bar> \<le> r \<Longrightarrow> \<bar>x\<bar> \<le> \<bar>a\<bar> + r" for x :: real
  by linarith

lemma scale_100:
  fixes x y :: real
  assumes "\<bar>y - x\<bar> \<le> e"
  shows "\<bar>y * 100 - x * 100\<bar> \<le> e * 100"
proof -
  have "y * 100 - x * 100 = (y - x) * 100" by (simp only: left_diff_distrib)
  then have "\<bar>y * 100 - x * 100\<bar> = \<bar>y - x\<bar> * \<bar>100\<bar>" by (simp only: abs_mult)
  also have "\<dots> = \<bar>y - x\<bar> * 100" by (simp only: abs_numeral)
  also have "\<dots> \<le> e * 100" using assms by (intro mult_right_mono) simp_all
  finally show ?thesis .
qed

lemma sqrt_rounding:
  assumes "0 < S" and "\<bar>s - S\<bar> \<le> S / 2 ^ 30"
  shows "\<bar>Math_sqrt s - sqrt S\<bar> \<le> sqrt S / 2 ^ 29"
proof -
  define q where "q = sqrt S"
  define p where "p = sqrt s"
  have "S - S / 2 ^ 30 \<le> s" using assms(2) by (rule abs_diff_lower)
  then have s: "0 \<le> s" using assms(1) by simp
  have q: "0 < q" using assms(1) by (simp add: q_def)
  have p: "0 \<le> p" using s by (simp add: p_def)
  have qq: "q * q = S" using assms(1) by (simp add: q_def)
  have pp: "p * p = s" using s by (simp add: p_def)
  have "(p - q) * (p + q) = s - S" by (simp add: algebra_simps qq pp)
  then have "\<bar>p - q\<bar> * \<bar>p + q\<bar> = \<bar>s - S\<bar>" by (simp only: abs_mult [symmetric])
  moreover have "\<bar>p + q\<bar> = p + q" using p q by simp
  ultimately have "\<bar>p - q\<bar> * (p + q) = \<bar>s - S\<bar>" by simp
  moreover have "\<bar>p - q\<bar> * q \<le> \<bar>p - q\<bar> * (p + q)"
    using p by (intro mult_left_mono) simp_all
  ultimately have "\<bar>p - q\<bar> * q \<le> q * q / 2 ^ 30" using assms(2) qq by simp
  then have "\<bar>p - q\<bar> * q \<le> (q / 2 ^ 30) * q" by simp
  then have near: "\<bar>p - q\<bar> \<le> q / 2 ^ 30" using q by (rule mult_right_le_imp_le)
  have "\<bar>q\<bar> \<le> q" using q by simp
  with near have "\<bar>fl64 p - q\<bar> \<le> q / 2 ^ 30 + (q + q / 2 ^ 30) / 2 ^ 53" by (rule fl64_err)
  also have "\<dots> \<le> q / 2 ^ 29" using q by simp
  finally show ?thesis by (simp add: Math_sqrt_def p_def q_def)
qed

lemma product_rounding:
  assumes "\<bar>a - A\<bar> \<le> A / 2 ^ 29" and "\<bar>b - B\<bar> \<le> B / 2 ^ 29" and "0 < A" and "0 < B"
  shows "\<bar>fl64 (a * b) - A * B\<bar> \<le> A * B / 2 ^ 26"
proof -
  have "\<bar>a\<bar> \<le> \<bar>A\<bar> + A / 2 ^ 29" using assms(1) by (rule abs_diff_abs)
  then have a: "\<bar>a\<bar> \<le> A * (1 + 1 / 2 ^ 29)" using assms(3) by (simp add: algebra_simps)
  have "a * b - A * B = (a - A) * B + a * (b - B)" by (simp add: algebra_simps)
  then have "\<bar>a * b - A * B\<bar> \<le> \<bar>a - A\<bar> * B + \<bar>a\<bar> * \<bar>b - B\<bar>"
    using assms(4) abs_triangle_ineq [of "(a - A) * B" "a * (b - B)"] by (simp add: abs_mult)
  moreover have "\<bar>a - A\<bar> * B \<le> (A / 2 ^ 29) * B"
    using assms(1,4) by (intro mult_right_mono) simp_all
  moreover have "\<bar>a\<bar> * \<bar>b - B\<bar> \<le> (A * (1 + 1 / 2 ^ 29)) * (B / 2 ^ 29)"
    using a assms(2,3,4) by (intro mult_mono) simp_all
  ultimately have "\<bar>a * b - A * B\<bar> \<le> (A / 2 ^ 29) * B + (A * (1 + 1 / 2 ^ 29)) * (B / 2 ^ 29)"
    by linarith
  also have "\<dots> = A * B * (2 / 2 ^ 29 + 1 / 2 ^ 58)" by (simp add: algebra_simps)
  finally have near: "\<bar>a * b - A * B\<bar> \<le> A * B * (2 / 2 ^ 29 + 1 / 2 ^ 58)" .
  have AB: "0 < A * B" using assms(3,4) by simp
  then have "\<bar>A * B\<bar> \<le> A * B" by simp
  with near have "\<bar>fl64 (a * b) - A * B\<bar>
      \<le> A * B * (2 / 2 ^ 29 + 1 / 2 ^ 58) + (A * B + A * B * (2 / 2 ^ 29 + 1 / 2 ^ 58)) / 2 ^ 53"
    by (rule fl64_err)
  also have "\<dots> \<le> A * B / 2 ^ 26" using AB by simp
  finally show ?thesis .
qed

lemma quotient_near:
  fixes a x t :: real
  assumes "\<bar>a - x\<bar> \<le> 1 / 2 ^ 30" and "\<bar>x\<bar> \<le> 1" and "\<bar>t - 1\<bar> \<le> 1 / 2 ^ 26"
  shows "\<bar>a / t - x\<bar> \<le> 1 / 2 ^ 24"
proof -
  have "1 - 1 / 2 ^ 26 \<le> t" using assms(3) by (rule abs_diff_lower)
  then have t: "1 / 2 \<le> t" by simp
  have "\<bar>1 - t\<bar> \<le> 1 / 2 ^ 26" by (subst abs_minus_commute) (rule assms(3))
  with assms(2) have "\<bar>x\<bar> * \<bar>1 - t\<bar> \<le> 1 * (1 / 2 ^ 26)" by (intro mult_mono) simp_all
  then have "\<bar>x * (1 - t)\<bar> \<le> 1 * (1 / 2 ^ 26)" by (simp only: abs_mult)
  then have num: "\<bar>(a - x) + x * (1 - t)\<bar> \<le> 1 / 2 ^ 30 + 1 / 2 ^ 26"
    using assms(1) by linarith
  have "a / t - x = ((a - x) + x * (1 - t)) / t" using t by (simp add: field_simps)
  then have "\<bar>a / t - x\<bar> = \<bar>(a - x) + x * (1 - t)\<bar> / t" using t by simp
  also have "\<dots> \<le> (1 / 2 ^ 30 + 1 / 2 ^ 26) / t"
    using num t by (intro divide_right_mono) simp_all
  also have "\<dots> \<le> (1 / 2 ^ 30 + 1 / 2 ^ 26) / (1 / 2)"
    using t by (intro divide_left_mono) simp_all
  also have "\<dots> \<le> 1 / 2 ^ 24" by simp
  finally show ?thesis .
qed

lemma cosine_rounding:
  fixes S1 S2 D s1 s2 d :: real
  assumes "0 < S1" and "0 < S2"
    and "\<bar>s1 - S1\<bar> \<le> S1 / 2 ^ 30" and "\<bar>s2 - S2\<bar> \<le> S2 / 2 ^ 30"
    and "\<bar>d - D\<bar> \<le> sqrt S1 * sqrt S2 / 2 ^ 30"
    and "\<bar>D\<bar> \<le> sqrt S1 * sqrt S2"
  shows "\<bar>fl64 (fl64 (fl64 (d / fl64 (Math_sqrt s1 * Math_sqrt s2)) * 100) * 100) -
          D / (sqrt S1 * sqrt S2) * 100 * 100\<bar> \<le> 1 / 500"
proof -
  define M where "M = sqrt S1 * sqrt S2"
  define mm where "mm = fl64 (Math_sqrt s1 * Math_sqrt s2)"
  define x where "x = D / M"
  have M: "0 < M" using assms(1,2) by (simp add: M_def)
  have "\<bar>Math_sqrt s1 - sqrt S1\<bar> \<le> sqrt S1 / 2 ^ 29"
    using assms(1,3) by (rule sqrt_rounding)
  moreover have "\<bar>Math_sqrt s2 - sqrt S2\<bar> \<le> sqrt S2 / 2 ^ 29"
    using assms(2,4) by (rule sqrt_rounding)
  ultimately have mm: "\<bar>mm - M\<bar> \<le> M / 2 ^ 26"
    unfolding mm_def M_def using assms(1,2) by (intro product_rounding) simp_all
  have "\<bar>d / M - x\<bar> = \<bar>d - D\<bar> / M" using M by (simp add: x_def diff_divide_distrib [symmetric])
  also have "\<dots> \<le> (M / 2 ^ 30) / M"
    using assms(5) M unfolding M_def [symmetric] by (intro divide_right_mono) simp_all
  also have "\<dots> = 1 / 2 ^ 30" using M by simp
  finally have a: "\<bar>d / M - x\<bar> \<le> 1 / 2 ^ 30" .
  have "\<bar>x\<bar> = \<bar>D\<bar> / M" using M by (simp add: x_def)
  also have "\<dots> \<le> M / M" using assms(6) M unfolding M_def [symmetric] by (intro divide_right_mono) simp_all
  finally have x: "\<bar>x\<bar> \<le> 1" using M by simp
  have "mm / M - 1 = (mm - M) / M" using M by (simp add: field_simps)
  then have "\<bar>mm / M - 1\<bar> = \<bar>mm - M\<bar> / M" using M by simp
  also have "\<dots> \<le> (M / 2 ^ 26) / M" using mm M by (intro divide_right_mono) simp_all
  also have "\<dots> = 1 / 2 ^ 26" using M by simp
  finally have t: "\<bar>mm / M - 1\<bar> \<le> 1 / 2 ^ 26" .
  have eq: "(d / M) / (mm / M) = d / mm" using M by simp
  have q: "\<bar>d / mm - x\<bar> \<le> 1 / 2 ^ 24" using quotient_near [OF a x t] unfolding eq .
  from q x have "\<bar>fl64 (d / mm) - x\<bar> \<le> 1 / 2 ^ 24 + (1 + 1 / 2 ^ 24) / 2 ^ 53" by (rule fl64_err)
  then have "\<bar>fl64 (d / mm) - x\<bar> \<le> 1 / 2 ^ 23" by simp
  then have "\<bar>fl64 (d / mm) * 100 - x * 100\<bar> \<le> 1 / 2 ^ 23 * 100" by (rule scale_100)
  moreover have "\<bar>x * 100\<bar> \<le> 100" using x by simp
  ultimately have "\<bar>fl64 (fl64 (d / mm) * 100) - x * 100\<bar>
      \<le> 1 / 2 ^ 23 * 100 + (100 + 1 / 2 ^ 23 * 100) / 2 ^ 53"
    by (rule fl64_err)
  then have "\<bar>fl64 (fl64 (d / mm) * 100) - x * 100\<bar> \<le> 1 / 2 ^ 16" by simp
  then have "\<bar>fl64 (fl64 (d / mm) * 100) * 100 - x * 100 * 100\<bar> \<le> 1 / 2 ^ 16 * 100"
    by (rule scale_100)
  moreover have "\<bar>x * 100 * 100\<bar> \<le> 10000" using x by simp
  ultimately have "\<bar>fl64 (fl64 (fl64 (d / mm) * 100) * 100) - x * 100 * 100\<bar>
      \<le> 1 / 2 ^ 16 * 100 + (10000 + 1 / 2 ^ 16 * 100) / 2 ^ 53"
    by (rule fl64_err)
  then have "\<bar>fl64 (fl64 (fl64 (d / mm) * 100) * 100) - x * 100 * 100\<bar> \<le> 1 / 500" by simp
  then show ?thesis unfolding mm_def x_def M_def .
qed

text \<open>
  The two vectors over any list of at most a million terms: the rounded sums are close to
  the exact ones, a magnitude is the double 0 exactly when the exact sum of squares is 0,
  and the number given to \<^verbatim>\<open>Math.round\<close> is within 1/500 of the exact one.
\<close>

lemma abs_diff_upper: "\<bar>x - a\<bar> \<le> r \<Longrightarrow> x \<le> a + r" for x :: real
  by linarith

lemma fold_dot64:
  assumes "\<forall>k < length xs. v2 ! (n + k) = g (xs ! k)"
  shows "fold (\<lambda>(i, val) sum. fl64 (sum + fl64 (val * v2 ! i))) (enumerate n (map f xs)) a =
         fold (\<lambda>x s. fl64 (s + fl64 (f x * g x))) xs a"
  using assms
proof (induction xs arbitrary: n a)
  case Nil
  show ?case by simp
next
  case (Cons x xs)
  have h: "v2 ! n = g x" using Cons.prems by auto
  have t: "\<forall>k < length xs. v2 ! (Suc n + k) = g (xs ! k)"
  proof (intro allI impI)
    fix k
    assume "k < length xs"
    then have "Suc k < length (x # xs)" by simp
    with Cons.prems have "v2 ! (n + Suc k) = g ((x # xs) ! Suc k)" by blast
    then show "v2 ! (Suc n + k) = g (xs ! k)" by simp
  qed
  show ?case using Cons.IH [OF t] h by simp
qed

lemma dot_reduce64_map:
  "dot_reduce64 (map f xs) (map g xs) = fold (\<lambda>x s. fl64 (s + fl64 (f x * g x))) xs 0"
  unfolding dot_reduce64_def by (rule fold_dot64) simp

lemma square_reduce64_map:
  "square_reduce64 (map f xs) = fold (\<lambda>x s. fl64 (s + fl64 (f x * f x))) xs 0"
  by (simp add: square_reduce64_def fold_map comp_def)

lemma squares64:
  fixes w :: "'a \<Rightarrow> real"
  assumes "length K \<le> 1000000"
  shows "\<bar>square_reduce64 (map w K) - sum_list (map (\<lambda>t. w t * w t) K)\<bar>
         \<le> sum_list (map (\<lambda>t. w t * w t) K) / 2 ^ 30"
proof -
  have e: "(\<lambda>t. \<bar>w t * w t\<bar>) = (\<lambda>t. w t * w t)" by (rule ext) simp
  show ?thesis
    using fold_fl64_products [OF assms, of "\<lambda>t. w t * w t"]
    unfolding square_reduce64_map e .
qed

lemma magnitude64_zero:
  fixes w :: "'a \<Rightarrow> real"
  assumes "length K \<le> 1000000"
  shows "Math_sqrt (square_reduce64 (map w K)) = 0 \<longleftrightarrow> sum_list (map (\<lambda>t. w t * w t) K) = 0"
proof -
  define s where "s = square_reduce64 (map w K)"
  define S where "S = sum_list (map (\<lambda>t. w t * w t) K)"
  have n: "0 \<le> S" unfolding S_def by (rule sum_list_nonneg) auto
  have e: "\<bar>s - S\<bar> \<le> S / 2 ^ 30" unfolding s_def S_def using assms by (rule squares64)
  have lo: "S - S / 2 ^ 30 \<le> s" using e by (rule abs_diff_lower)
  have hi: "s \<le> S + S / 2 ^ 30" using e by (rule abs_diff_upper)
  have "s = 0 \<longleftrightarrow> S = 0"
  proof
    assume "s = 0"
    with lo have "S \<le> 0" by simp
    with n show "S = 0" by simp
  next
    assume "S = 0"
    with lo hi show "s = 0" by simp
  qed
  then show ?thesis by (simp add: Math_sqrt_def s_def S_def)
qed

lemma dot64:
  fixes w1 w2 :: "'a \<Rightarrow> real"
  assumes "length K \<le> 1000000"
    and "0 < sum_list (map (\<lambda>t. w1 t * w1 t) K)"
    and "0 < sum_list (map (\<lambda>t. w2 t * w2 t) K)"
  shows "\<bar>dot_reduce64 (map w1 K) (map w2 K) - sum_list (map (\<lambda>t. w1 t * w2 t) K)\<bar>
         \<le> sqrt (sum_list (map (\<lambda>t. w1 t * w1 t) K)) *
            sqrt (sum_list (map (\<lambda>t. w2 t * w2 t) K)) / 2 ^ 30"
    and "\<bar>sum_list (map (\<lambda>t. w1 t * w2 t) K)\<bar>
         \<le> sqrt (sum_list (map (\<lambda>t. w1 t * w1 t) K)) *
            sqrt (sum_list (map (\<lambda>t. w2 t * w2 t) K))"
proof -
  define P where "P = sum_list (map (\<lambda>t. \<bar>w1 t * w2 t\<bar>) K)"
  define M where "M = sqrt (sum_list (map (\<lambda>t. w1 t * w1 t) K)) *
                      sqrt (sum_list (map (\<lambda>t. w2 t * w2 t) K))"
  have PM: "P \<le> M" unfolding P_def M_def using assms(2,3) by (rule sum_products_bound)
  have "\<bar>dot_reduce64 (map w1 K) (map w2 K) - sum_list (map (\<lambda>t. w1 t * w2 t) K)\<bar> \<le> P / 2 ^ 30"
    unfolding P_def dot_reduce64_map using assms(1) by (rule fold_fl64_products)
  also have "\<dots> \<le> M / 2 ^ 30" using PM by (simp add: divide_right_mono)
  finally show "\<bar>dot_reduce64 (map w1 K) (map w2 K) - sum_list (map (\<lambda>t. w1 t * w2 t) K)\<bar>
         \<le> sqrt (sum_list (map (\<lambda>t. w1 t * w1 t) K)) *
            sqrt (sum_list (map (\<lambda>t. w2 t * w2 t) K)) / 2 ^ 30"
    unfolding M_def .
  have "\<bar>sum_list (map (\<lambda>t. w1 t * w2 t) K)\<bar> \<le> P"
    unfolding P_def using sum_list_abs [of "map (\<lambda>t. w1 t * w2 t) K"] by (simp add: comp_def)
  with PM show "\<bar>sum_list (map (\<lambda>t. w1 t * w2 t) K)\<bar>
         \<le> sqrt (sum_list (map (\<lambda>t. w1 t * w1 t) K)) *
            sqrt (sum_list (map (\<lambda>t. w2 t * w2 t) K))"
    unfolding M_def by linarith
qed

lemma cosine64_value:
  fixes w1 w2 :: "'a \<Rightarrow> real"
  assumes "length K \<le> 1000000"
    and "0 < sum_list (map (\<lambda>t. w1 t * w1 t) K)"
    and "0 < sum_list (map (\<lambda>t. w2 t * w2 t) K)"
  shows "\<bar>fl64 (fl64 (fl64 (dot_reduce64 (map w1 K) (map w2 K) /
                            fl64 (Math_sqrt (square_reduce64 (map w1 K)) *
                                  Math_sqrt (square_reduce64 (map w2 K)))) * 100) * 100) -
          sum_list (map (\<lambda>t. w1 t * w2 t) K) /
            (sqrt (sum_list (map (\<lambda>t. w1 t * w1 t) K)) *
             sqrt (sum_list (map (\<lambda>t. w2 t * w2 t) K))) * 100 * 100\<bar> \<le> 1 / 500"
  using assms(2,3) squares64 [OF assms(1)] squares64 [OF assms(1)] dot64 [OF assms]
  by (rule cosine_rounding)

lemma new_Set_length: "length (new_Set xs) \<le> length xs"
proof -
  have "length (new_Set xs) = card (set (new_Set xs))"
    using new_Set_distinct [of xs] by (simp add: distinct_card)
  also have "\<dots> = card (set xs)" by (simp add: new_Set_set)
  also have "\<dots> \<le> length xs" by (rule card_length)
  finally show ?thesis .
qed

lemma Math_round_near:
  fixes r1 r2 x :: real
  assumes "\<bar>r1 - x\<bar> \<le> 1 / 500" and "\<bar>r2 - x\<bar> \<le> 1 / 500"
  shows "\<bar>\<lfloor>r1 + 1 / 2\<rfloor> - \<lfloor>r2 + 1 / 2\<rfloor>\<bar> \<le> 1"
    and "\<bar>\<lfloor>r1 + 1 / 2\<rfloor> - \<lfloor>x + 1 / 2\<rfloor>\<bar> \<le> 1"
proof -
  have e: "\<lfloor>q + 1 / 2 + 1\<rfloor> = \<lfloor>q + 1 / 2\<rfloor> + 1" for q :: real
  proof -
    have "\<lfloor>(q + 1 / 2) + of_int 1\<rfloor> = \<lfloor>q + 1 / 2\<rfloor> + 1" by (rule floor_add_int [symmetric])
    then show ?thesis by (simp only: of_int_1)
  qed
  have a: "\<bar>\<lfloor>p + 1 / 2\<rfloor> - \<lfloor>q + 1 / 2\<rfloor>\<bar> \<le> 1" if "p \<le> q + 1" and "q \<le> p + 1" for p q :: real
  proof -
    have "\<lfloor>p + 1 / 2\<rfloor> \<le> \<lfloor>q + 1 / 2 + 1\<rfloor>" using that(1) by (intro floor_mono) simp
    then have "\<lfloor>p + 1 / 2\<rfloor> \<le> \<lfloor>q + 1 / 2\<rfloor> + 1" unfolding e .
    moreover have "\<lfloor>q + 1 / 2\<rfloor> \<le> \<lfloor>p + 1 / 2 + 1\<rfloor>" using that(2) by (intro floor_mono) simp
    then have "\<lfloor>q + 1 / 2\<rfloor> \<le> \<lfloor>p + 1 / 2\<rfloor> + 1" unfolding e .
    ultimately show ?thesis by linarith
  qed
  have l1: "x - 1 / 500 \<le> r1" using assms(1) by (rule abs_diff_lower)
  have u1: "r1 \<le> x + 1 / 500" using assms(1) by (rule abs_diff_upper)
  have l2: "x - 1 / 500 \<le> r2" using assms(2) by (rule abs_diff_lower)
  have u2: "r2 \<le> x + 1 / 500" using assms(2) by (rule abs_diff_upper)
  show "\<bar>\<lfloor>r1 + 1 / 2\<rfloor> - \<lfloor>r2 + 1 / 2\<rfloor>\<bar> \<le> 1" using l1 u1 l2 u2 by (intro a) simp_all
  show "\<bar>\<lfloor>r1 + 1 / 2\<rfloor> - \<lfloor>x + 1 / 2\<rfloor>\<bar> \<le> 1" using l1 u1 by (intro a) simp_all
qed

text \<open>
  Both call orders build the same two vectors over the same set of terms, listed in a
  different order. The exact sums do not depend on the order, so the two numbers given to
  \<^verbatim>\<open>Math.round\<close> are within 1/500 of the same exact number.
\<close>

lemma score_terms64_near:
  assumes "length terms1 + length terms2 \<le> 1000000"
  shows "\<exists>r1 r2 x. score_terms64 terms1 terms2 = fl64 (Math_round r1 / 100) \<and>
                    score_terms64 terms2 terms1 = fl64 (Math_round r2 / 100) \<and>
                    score_terms terms1 terms2 = Math_round x / 100 \<and>
                    \<bar>r1 - x\<bar> \<le> 1 / 500 \<and> \<bar>r2 - x\<bar> \<le> 1 / 500"
proof -
  define w1 where
    "w1 = (\<lambda>k. case find (\<lambda>t. fst t = k) terms1 of Some found \<Rightarrow> snd found | None \<Rightarrow> (0::real))"
  define w2 where
    "w2 = (\<lambda>k. case find (\<lambda>t. fst t = k) terms2 of Some found \<Rightarrow> snd found | None \<Rightarrow> (0::real))"
  define a where "a = new_Set (map fst terms1 @ map fst terms2)"
  define b where "b = new_Set (map fst terms2 @ map fst terms1)"
  define S1 where "S1 = sum_list (map (\<lambda>t. w1 t * w1 t) a)"
  define S2 where "S2 = sum_list (map (\<lambda>t. w2 t * w2 t) a)"
  define D where "D = sum_list (map (\<lambda>t. w1 t * w2 t) a)"
  define r1 where
    "r1 = fl64 (fl64 (fl64 (dot_reduce64 (map w1 a) (map w2 a) /
                            fl64 (Math_sqrt (square_reduce64 (map w1 a)) *
                                  Math_sqrt (square_reduce64 (map w2 a)))) * 100) * 100)"
  define r2 where
    "r2 = fl64 (fl64 (fl64 (dot_reduce64 (map w2 b) (map w1 b) /
                            fl64 (Math_sqrt (square_reduce64 (map w2 b)) *
                                  Math_sqrt (square_reduce64 (map w1 b)))) * 100) * 100)"
  have v: "vector_of xs terms1 = map w1 xs" "vector_of xs terms2 = map w2 xs" for xs
    by (simp_all add: vector_of_def w1_def w2_def)
  have la: "length a \<le> 1000000"
    using new_Set_length [of "map fst terms1 @ map fst terms2"] assms by (simp add: a_def)
  have lb: "length b \<le> 1000000"
    using new_Set_length [of "map fst terms2 @ map fst terms1"] assms by (simp add: b_def)
  have da: "distinct a" and db: "distinct b" unfolding a_def b_def by (rule new_Set_distinct)+
  have ab: "set a = set b" by (auto simp add: a_def b_def new_Set_set)
  have sums: "sum_list (map f b) = sum_list (map f a)" for f :: "string \<Rightarrow> real"
    using da db ab by (simp add: sum_list_distinct_conv_sum_set)
  have S1b: "sum_list (map (\<lambda>t. w1 t * w1 t) b) = S1" unfolding S1_def by (rule sums)
  have S2b: "sum_list (map (\<lambda>t. w2 t * w2 t) b) = S2" unfolding S2_def by (rule sums)
  have Db: "sum_list (map (\<lambda>t. w2 t * w1 t) b) = D"
    unfolding D_def sums [of "\<lambda>t. w2 t * w1 t"] by (simp add: mult.commute)
  have n1: "0 \<le> S1" unfolding S1_def by (rule sum_list_nonneg) auto
  have n2: "0 \<le> S2" unfolding S2_def by (rule sum_list_nonneg) auto
  have g1a: "Math_sqrt (square_reduce64 (map w1 a)) = 0 \<longleftrightarrow> S1 = 0"
    unfolding S1_def using la by (rule magnitude64_zero)
  have g2a: "Math_sqrt (square_reduce64 (map w2 a)) = 0 \<longleftrightarrow> S2 = 0"
    unfolding S2_def using la by (rule magnitude64_zero)
  have g1b: "Math_sqrt (square_reduce64 (map w1 b)) = 0 \<longleftrightarrow> S1 = 0"
    unfolding S1b [symmetric] using lb by (rule magnitude64_zero)
  have g2b: "Math_sqrt (square_reduce64 (map w2 b)) = 0 \<longleftrightarrow> S2 = 0"
    unfolding S2b [symmetric] using lb by (rule magnitude64_zero)
  have f12: "score_terms64 terms1 terms2 =
    (if Math_sqrt (square_reduce64 (map w1 a)) = 0 \<or> Math_sqrt (square_reduce64 (map w2 a)) = 0
     then 0 else fl64 (Math_round r1 / 100))"
    by (simp only: score_terms64_def Let_def v a_def r1_def)
  have f21: "score_terms64 terms2 terms1 =
    (if Math_sqrt (square_reduce64 (map w2 b)) = 0 \<or> Math_sqrt (square_reduce64 (map w1 b)) = 0
     then 0 else fl64 (Math_round r2 / 100))"
    by (simp only: score_terms64_def Let_def v b_def r2_def)
  have sq: "square_reduce (map w xs) = sum_list (map (\<lambda>t. w t * w t) xs)"
    for w :: "string \<Rightarrow> real" and xs
    by (simp add: square_reduce_sum comp_def)
  have ex: "score_terms terms1 terms2 =
    (if sqrt S1 = 0 \<or> sqrt S2 = 0 then 0
     else Math_round (D / (sqrt S1 * sqrt S2) * 100 * 100) / 100)"
    by (simp only: score_terms_def Let_def v a_def [symmetric] dot_reduce_map sq S1_def S2_def D_def)
  show ?thesis
  proof (cases "S1 = 0 \<or> S2 = 0")
    case True
    then have "score_terms64 terms1 terms2 = 0" unfolding f12 using g1a g2a by auto
    moreover from True have "score_terms64 terms2 terms1 = 0" unfolding f21 using g1b g2b by auto
    moreover from True have "score_terms terms1 terms2 = 0" unfolding ex by auto
    moreover have "fl64 (Math_round 0 / 100) = 0" "Math_round 0 / 100 = 0"
      by (simp_all add: Math_round_def)
    ultimately have "score_terms64 terms1 terms2 = fl64 (Math_round 0 / 100) \<and>
                    score_terms64 terms2 terms1 = fl64 (Math_round 0 / 100) \<and>
                    score_terms terms1 terms2 = Math_round 0 / 100 \<and>
                    \<bar>0 - 0 :: real\<bar> \<le> 1 / 500 \<and> \<bar>0 - 0 :: real\<bar> \<le> 1 / 500"
      by simp
    then show ?thesis by blast
  next
    case False
    with n1 n2 have p1: "0 < S1" and p2: "0 < S2" by simp_all
    define x where "x = D / (sqrt S1 * sqrt S2) * 100 * 100"
    have "score_terms64 terms1 terms2 = fl64 (Math_round r1 / 100)"
      unfolding f12 using False g1a g2a by simp
    moreover have "score_terms64 terms2 terms1 = fl64 (Math_round r2 / 100)"
      unfolding f21 using False g1b g2b by simp
    moreover have "score_terms terms1 terms2 = Math_round x / 100"
      unfolding ex x_def using p1 p2 by simp
    moreover have "\<bar>r1 - x\<bar> \<le> 1 / 500"
      unfolding r1_def x_def D_def S1_def S2_def
      using la p1 [unfolded S1_def] p2 [unfolded S2_def] by (rule cosine64_value)
    moreover have "\<bar>r2 - x\<bar> \<le> 1 / 500"
    proof -
      have "\<bar>r2 - sum_list (map (\<lambda>t. w2 t * w1 t) b) /
              (sqrt (sum_list (map (\<lambda>t. w2 t * w2 t) b)) *
               sqrt (sum_list (map (\<lambda>t. w1 t * w1 t) b))) * 100 * 100\<bar> \<le> 1 / 500"
        unfolding r2_def
        using lb p2 [unfolded S2b [symmetric]] p1 [unfolded S1b [symmetric]]
        by (rule cosine64_value)
      then show ?thesis unfolding S1b S2b Db x_def by (simp only: mult.commute [of "sqrt S2"])
    qed
    ultimately show ?thesis by blast
  qed
qed

section \<open>The two argument orders\<close>

lemma match_terms64:
  assumes "resumeText \<noteq> []" and "jobDescription \<noteq> []"
    and "lib [toLowerCase resumeText, toLowerCase jobDescription] 0 = Inr terms1"
    and "lib [toLowerCase resumeText, toLowerCase jobDescription] 1 = Inr terms2"
  shows "calculateMatchScore64 lib resumeText jobDescription = score_terms64 terms1 terms2"
  using assms by (simp add: calculateMatchScore64_def match_try64_def Let_def)

text \<open>
  The package model lists the same terms for a document at either position of a corpus
  of two, so it meets the first two hypotheses of the theorem below.
\<close>

lemma idf64_swap: "idf64 [x, y] = idf64 [y, x]"
  by (rule ext) (simp add: idf64_def)

lemma natural64_position:
  "natural_TfIdf64 [a, b] 0 = natural_TfIdf64 [b, a] 1"
  "natural_TfIdf64 [a, b] 1 = natural_TfIdf64 [b, a] 0"
  by (simp_all add: natural_TfIdf64_def Let_def
      idf64_swap [of "buildDocument a" "buildDocument b"])

text \<open>
  C3, as amended. In double precision the score is not symmetric: the two call orders
  list the terms, and so add the products, in a different order. When the package lists
  the same terms for a document at either position, at most a million in all, both
  results are doubles nearest to a number of hundredths, \<open>k1 / 100\<close> and \<open>k2 / 100\<close>,
  where \<open>k1\<close> and \<open>k2\<close> differ by at most one, and each differs by at most one from the
  number of hundredths \<open>k\<close> of the score computed without rounding.
\<close>

theorem match_score_order:
  assumes "lib [toLowerCase a, toLowerCase b] 0 = lib [toLowerCase b, toLowerCase a] 1"
    and "lib [toLowerCase a, toLowerCase b] 1 = lib [toLowerCase b, toLowerCase a] 0"
    and "\<forall>terms1 terms2.
           lib [toLowerCase a, toLowerCase b] 0 = Inr terms1 \<and>
           lib [toLowerCase a, toLowerCase b] 1 = Inr terms2 \<longrightarrow>
           length terms1 + length terms2 \<le> 1000000"
  shows "\<exists>k1 k2 k :: int.
           calculateMatchScore64 lib a b = fl64 (of_int k1 / 100) \<and>
           calculateMatchScore64 lib b a = fl64 (of_int k2 / 100) \<and>
           calculateMatchScore lib a b = of_int k / 100 \<and>
           \<bar>k1 - k2\<bar> \<le> 1 \<and> \<bar>k1 - k\<bar> \<le> 1 \<and> \<bar>k2 - k\<bar> \<le> 1"
proof -
  let ?docs = "[toLowerCase a, toLowerCase b]"
  note defs = calculateMatchScore64_def match_try64_def calculateMatchScore_def match_try_def Let_def
  have zero: "\<exists>k1 k2 k :: int.
      x = fl64 (of_int k1 / 100) \<and> y = fl64 (of_int k2 / 100) \<and> z = of_int k / 100 \<and>
      \<bar>k1 - k2\<bar> \<le> 1 \<and> \<bar>k1 - k\<bar> \<le> 1 \<and> \<bar>k2 - k\<bar> \<le> 1"
    if "x = 0" and "y = 0" and "z = 0" for x y z :: real
    using that by (intro exI [of _ 0]) simp
  consider (empty) "a = [] \<or> b = []"
    | (thrown) e where "a \<noteq> []" and "b \<noteq> []" and "lib ?docs 0 = Inl e \<or> lib ?docs 1 = Inl e"
    | (listed) terms1 terms2 where "a \<noteq> []" and "b \<noteq> []"
        and "lib ?docs 0 = Inr terms1" and "lib ?docs 1 = Inr terms2"
    by (cases "lib ?docs 0"; cases "lib ?docs 1") auto
  then show ?thesis
  proof cases
    case empty
    then have "calculateMatchScore64 lib a b = 0" and "calculateMatchScore64 lib b a = 0"
      and "calculateMatchScore lib a b = 0"
      by (auto simp add: defs)
    then show ?thesis by (rule zero)
  next
    case thrown
    from thrown(3) have "calculateMatchScore64 lib a b = 0" and "calculateMatchScore lib a b = 0"
      by (auto simp add: defs split: sum.splits)
    moreover from thrown(3) have "calculateMatchScore64 lib b a = 0"
      unfolding assms(1,2) by (auto simp add: defs split: sum.splits)
    ultimately show ?thesis by (intro zero)
  next
    case listed
    have s1: "calculateMatchScore64 lib a b = score_terms64 terms1 terms2"
      using listed by (simp add: defs)
    have s2: "calculateMatchScore64 lib b a = score_terms64 terms2 terms1"
      using listed unfolding assms(1,2) by (simp add: defs)
    have s3: "calculateMatchScore lib a b = score_terms terms1 terms2"
      using listed by (simp add: defs)
    from assms(3) listed(3,4) have "length terms1 + length terms2 \<le> 1000000" by blast
    from score_terms64_near [OF this] obtain r1 r2 x where
      v: "score_terms64 terms1 terms2 = fl64 (Math_round r1 / 100)"
         "score_terms64 terms2 terms1 = fl64 (Math_round r2 / 100)"
         "score_terms terms1 terms2 = Math_round x / 100"
      and n1: "\<bar>r1 - x\<bar> \<le> 1 / 500" and n2: "\<bar>r2 - x\<bar> \<le> 1 / 500"
      by blast
    have "calculateMatchScore64 lib a b = fl64 (of_int \<lfloor>r1 + 1 / 2\<rfloor> / 100)"
      unfolding s1 v(1) Math_round_def ..
    moreover have "calculateMatchScore64 lib b a = fl64 (of_int \<lfloor>r2 + 1 / 2\<rfloor> / 100)"
      unfolding s2 v(2) Math_round_def ..
    moreover have "calculateMatchScore lib a b = of_int \<lfloor>x + 1 / 2\<rfloor> / 100"
      unfolding s3 v(3) Math_round_def ..
    moreover have "\<bar>\<lfloor>r1 + 1 / 2\<rfloor> - \<lfloor>r2 + 1 / 2\<rfloor>\<bar> \<le> 1" using n1 n2 by (rule Math_round_near(1))
    moreover have "\<bar>\<lfloor>r1 + 1 / 2\<rfloor> - \<lfloor>x + 1 / 2\<rfloor>\<bar> \<le> 1" using n1 n1 by (rule Math_round_near(2))
    moreover have "\<bar>\<lfloor>r2 + 1 / 2\<rfloor> - \<lfloor>x + 1 / 2\<rfloor>\<bar> \<le> 1" using n2 n2 by (rule Math_round_near(2))
    ultimately show ?thesis by blast
  qed
qed

theorem match_score_order_witness:
  "natural_TfIdf64
     [toLowerCase ''java python react docker docker linux linux linux'',
      toLowerCase ''java python python python python python react docker linux linux linux linux linux linux''] 0 =
   natural_TfIdf64
     [toLowerCase ''java python python python python python react docker linux linux linux linux linux linux'',
      toLowerCase ''java python react docker docker linux linux linux''] 1 \<and>
   (\<exists>k1 k2 k :: int.
      calculateMatchScore64 natural_TfIdf64 ''java python react docker docker linux linux linux''
        ''java python python python python python react docker linux linux linux linux linux linux'' =
        fl64 (of_int k1 / 100) \<and>
      calculateMatchScore64 natural_TfIdf64
        ''java python python python python python react docker linux linux linux linux linux linux''
        ''java python react docker docker linux linux linux'' = fl64 (of_int k2 / 100) \<and>
      calculateMatchScore natural_TfIdf64 ''java python react docker docker linux linux linux''
        ''java python python python python python react docker linux linux linux linux linux linux'' =
        of_int k / 100 \<and>
      \<bar>k1 - k2\<bar> \<le> 1 \<and> \<bar>k1 - k\<bar> \<le> 1 \<and> \<bar>k2 - k\<bar> \<le> 1)"
proof -
  let ?A = "''java python react docker docker linux linux linux''"
  let ?B = "''java python python python python python react docker linux linux linux linux linux linux''"
  have p0: "natural_TfIdf64 [toLowerCase ?A, toLowerCase ?B] 0 =
            natural_TfIdf64 [toLowerCase ?B, toLowerCase ?A] 1"
    by (simp only: termsA)
  have p1: "natural_TfIdf64 [toLowerCase ?A, toLowerCase ?B] 1 =
            natural_TfIdf64 [toLowerCase ?B, toLowerCase ?A] 0"
    by (simp only: termsB)
  have size: "\<forall>terms1 terms2.
      natural_TfIdf64 [toLowerCase ?A, toLowerCase ?B] 0 = Inr terms1 \<and>
      natural_TfIdf64 [toLowerCase ?A, toLowerCase ?B] 1 = Inr terms2 \<longrightarrow>
      length terms1 + length terms2 \<le> 1000000"
    unfolding termsA(1) termsB(1) by auto
  from p0 match_score_order [of natural_TfIdf64 ?A ?B, OF p0 p1 size] show ?thesis
    by (rule conjI)
qed

text \<open>
  The two texts of the witness are a counterexample to the symmetry: the resume first
  gives the double nearest to 84.38, the job description first the one nearest to 84.37.
  The word counts of the two texts have the cosine 27/32, a score of 84.375: the number
  given to \<^verbatim>\<open>Math.round\<close> is the tie 8437.5 in the first order and the next double below
  it in the second.
\<close>

theorem match_score_asymmetric_counterexample:
  "calculateMatchScore64 natural_TfIdf64 ''java python react docker docker linux linux linux''
     ''java python python python python python react docker linux linux linux linux linux linux'' =
     742214329213911 / 8796093022208 \<and>
   calculateMatchScore64 natural_TfIdf64
     ''java python python python python python react docker linux linux linux linux linux linux''
     ''java python react docker docker linux linux linux'' =
     742126368283689 / 8796093022208 \<and>
   calculateMatchScore64 natural_TfIdf64 ''java python react docker docker linux linux linux''
     ''java python python python python python react docker linux linux linux linux linux linux'' \<noteq>
   calculateMatchScore64 natural_TfIdf64
     ''java python python python python python react docker linux linux linux linux linux linux''
     ''java python react docker docker linux linux linux''"
proof -
  let ?A = "''java python react docker docker linux linux linux''"
  let ?B = "''java python python python python python react docker linux linux linux linux linux linux''"
  have nA: "?A \<noteq> []" and nB: "?B \<noteq> []" by simp_all
  from nA nB termsA(1) termsB(1)
  have "calculateMatchScore64 natural_TfIdf64 ?A ?B =
        score_terms64
          [(''linux'', 8032641352748487 / 4503599627370496),
           (''docker'', 2677547117582829 / 2251799813685248),
           (''java'', 2677547117582829 / 4503599627370496),
           (''python'', 2677547117582829 / 4503599627370496),
           (''react'', 2677547117582829 / 4503599627370496)]
          [(''linux'', 8032641352748487 / 2251799813685248),
           (''python'', 418366737122317 / 140737488355328),
           (''java'', 2677547117582829 / 4503599627370496),
           (''react'', 2677547117582829 / 4503599627370496),
           (''docker'', 2677547117582829 / 4503599627370496)]"
    by (rule match_terms64)
  also have "\<dots> = 742214329213911 / 8796093022208" by (rule scoreAB)
  finally have ab: "calculateMatchScore64 natural_TfIdf64 ?A ?B = 742214329213911 / 8796093022208" .
  from nB nA termsB(2) termsA(2)
  have "calculateMatchScore64 natural_TfIdf64 ?B ?A =
        score_terms64
          [(''linux'', 8032641352748487 / 2251799813685248),
           (''python'', 418366737122317 / 140737488355328),
           (''java'', 2677547117582829 / 4503599627370496),
           (''react'', 2677547117582829 / 4503599627370496),
           (''docker'', 2677547117582829 / 4503599627370496)]
          [(''linux'', 8032641352748487 / 4503599627370496),
           (''docker'', 2677547117582829 / 2251799813685248),
           (''java'', 2677547117582829 / 4503599627370496),
           (''python'', 2677547117582829 / 4503599627370496),
           (''react'', 2677547117582829 / 4503599627370496)]"
    by (rule match_terms64)
  also have "\<dots> = 742126368283689 / 8796093022208" by (rule scoreBA)
  finally have ba: "calculateMatchScore64 natural_TfIdf64 ?B ?A = 742126368283689 / 8796093022208" .
  have "(742214329213911 / 8796093022208 :: real) \<noteq> 742126368283689 / 8796093022208" by simp
  with ab ba show ?thesis by simp
qed

end
